(* ===== verification/Prelude.thy ===== *)
theory Prelude
  imports Main "HOL-Library.Word"
begin

text \<open>
  Shared vocabulary of the Eggtunnel development: the machine integers and the \<open>Result\<close>
  type of the Rust sources, big-endian integer images, checked and saturating arithmetic,
  Rust strings (lists of Unicode scalar values with their UTF-8 image), monotonic time, and
  the generic lemmas and collections the component theories build on.
\<close>

named_theorems res_simps "rewrite rules for results and the question mark operator"
named_theorems wire_simps "rewrite rules for wire images and their parsers"
named_theorems const_defs "definitions of the numeric constants of the sources"

unbundle bit_operations_syntax

section \<open>Machine integers\<close>

type_synonym u8 = "8 word"
type_synonym u16 = "16 word"
type_synonym u32 = "32 word"
type_synonym u64 = "64 word"
type_synonym usize = "64 word"
type_synonym bytes = "u8 list"

text \<open>\<open>to_be_bytes\<close> and \<open>from_be_bytes\<close> of the two widths that the frame header uses.\<close>

definition be16 :: "u16 \<Rightarrow> bytes" where
  "be16 w = [ucast (drop_bit 8 w), ucast w]"

definition of_be16 :: "u8 \<Rightarrow> u8 \<Rightarrow> u16" where
  "of_be16 a b = push_bit 8 (ucast a) OR ucast b"

definition be32 :: "u32 \<Rightarrow> bytes" where
  "be32 w = [ucast (drop_bit 24 w), ucast (drop_bit 16 w), ucast (drop_bit 8 w), ucast w]"

definition of_be32 :: "u8 \<Rightarrow> u8 \<Rightarrow> u8 \<Rightarrow> u8 \<Rightarrow> u32" where
  "of_be32 a b c d =
     push_bit 24 (ucast a) OR push_bit 16 (ucast b) OR push_bit 8 (ucast c) OR ucast d"

definition checked_add :: "'a::len word \<Rightarrow> 'a word \<Rightarrow> 'a word option" where
  "checked_add a b = (if unat a + unat b < 2 ^ LENGTH('a) then Some (a + b) else None)"

definition saturating_add :: "'a::len word \<Rightarrow> 'a word \<Rightarrow> 'a word" where
  "saturating_add a b = (if unat a + unat b < 2 ^ LENGTH('a) then a + b else - 1)"

section \<open>Results\<close>

abbreviation Ok :: "'a \<Rightarrow> 'e + 'a" where
  "Ok \<equiv> Inr"

abbreviation Err :: "'e \<Rightarrow> 'e + 'a" where
  "Err \<equiv> Inl"

text \<open>The question mark operator: continue with the value or return the error.\<close>

definition and_then :: "'e + 'a \<Rightarrow> ('a \<Rightarrow> 'e + 'b) \<Rightarrow> 'e + 'b" where
  "and_then r f = (case r of Inl e \<Rightarrow> Inl e | Inr x \<Rightarrow> f x)"

definition map_err :: "('e \<Rightarrow> 'f) \<Rightarrow> 'e + 'a \<Rightarrow> 'f + 'a" where
  "map_err f r = (case r of Inl e \<Rightarrow> Inl (f e) | Inr x \<Rightarrow> Inr x)"

definition ok_or :: "'e \<Rightarrow> 'a option \<Rightarrow> 'e + 'a" where
  "ok_or e x = (case x of None \<Rightarrow> Inl e | Some v \<Rightarrow> Inr v)"

definition is_ok :: "'e + 'a \<Rightarrow> bool" where
  "is_ok r = (case r of Inl _ \<Rightarrow> False | Inr _ \<Rightarrow> True)"

section \<open>Rust strings\<close>

text \<open>
  A Rust \<open>char\<close> is a Unicode scalar value, here its code point; a \<open>str\<close> is a sequence of
  them. \<open>str_bytes\<close> is the UTF-8 image behind \<open>bytes()\<close> and \<open>as_bytes()\<close>, and \<open>len()\<close>
  counts its bytes.
\<close>

type_synonym rchar = nat
type_synonym rstr = "rchar list"

definition is_scalar :: "rchar \<Rightarrow> bool" where
  "is_scalar c \<longleftrightarrow> c < 0x110000 \<and> \<not> (0xD800 \<le> c \<and> c \<le> 0xDFFF)"

definition wf_str :: "rstr \<Rightarrow> bool" where
  "wf_str s \<longleftrightarrow> list_all is_scalar s"

definition lit :: "string \<Rightarrow> rstr" where
  "lit s = map of_char s"

definition utf8_char :: "rchar \<Rightarrow> nat list" where
  "utf8_char c =
     (if c < 0x80 then [c]
      else if c < 0x800 then [0xC0 + c div 64, 0x80 + c mod 64]
      else if c < 0x10000 then [0xE0 + c div 4096, 0x80 + c div 64 mod 64, 0x80 + c mod 64]
      else [0xF0 + c div 262144, 0x80 + c div 4096 mod 64, 0x80 + c div 64 mod 64, 0x80 + c mod 64])"

definition str_bytes :: "rstr \<Rightarrow> nat list" where
  "str_bytes s = concat (map utf8_char s)"

definition str_len :: "rstr \<Rightarrow> nat" where
  "str_len s = length (str_bytes s)"

definition is_ascii_digit :: "nat \<Rightarrow> bool" where
  "is_ascii_digit b \<longleftrightarrow> 48 \<le> b \<and> b \<le> 57"

definition is_ascii_alphanumeric :: "nat \<Rightarrow> bool" where
  "is_ascii_alphanumeric b \<longleftrightarrow>
     is_ascii_digit b \<or> (65 \<le> b \<and> b \<le> 90) \<or> (97 \<le> b \<and> b \<le> 122)"

text \<open>\<open>char::is_whitespace\<close> is the Unicode property \<open>White_Space\<close>, \<open>char::is_control\<close> the
  general category \<open>Cc\<close>.\<close>

definition is_whitespace :: "rchar \<Rightarrow> bool" where
  "is_whitespace c \<longleftrightarrow>
     (9 \<le> c \<and> c \<le> 13) \<or> c = 0x20 \<or> c = 0x85 \<or> c = 0xA0 \<or> c = 0x1680 \<or>
     (0x2000 \<le> c \<and> c \<le> 0x200A) \<or> c = 0x2028 \<or> c = 0x2029 \<or> c = 0x202F \<or>
     c = 0x205F \<or> c = 0x3000"

definition is_control :: "rchar \<Rightarrow> bool" where
  "is_control c \<longleftrightarrow> c \<le> 0x1F \<or> (0x7F \<le> c \<and> c \<le> 0x9F)"

section \<open>Time\<close>

text \<open>\<open>Duration\<close> and \<open>Instant\<close> in nanoseconds; the monotonic clock never runs backwards, and
  \<open>saturating_duration_since\<close> is the truncated difference.\<close>

type_synonym duration = nat
type_synonym instant = nat

definition from_secs :: "nat \<Rightarrow> duration" where
  "from_secs s = s * 1000000000"

definition from_millis :: "nat \<Rightarrow> duration" where
  "from_millis m = m * 1000000"

definition as_millis :: "duration \<Rightarrow> nat" where
  "as_millis d = d div 1000000"

definition duration_max :: duration where
  "duration_max = (2 ^ 64 - 1) * 1000000000 + 999999999"

definition saturating_duration_since :: "instant \<Rightarrow> instant \<Rightarrow> duration" where
  "saturating_duration_since now earlier = now - earlier"

text \<open>\<open>u64::try_from(n).unwrap_or(u64::MAX)\<close> on a millisecond count.\<close>

definition u64_or_max :: "nat \<Rightarrow> u64" where
  "u64_or_max n = (if n < 2 ^ 64 then of_nat n else - 1)"

section \<open>Lemmas on results\<close>

lemma and_then_Ok [simp, res_simps]: "and_then (Ok x) f = f x"
  by (simp add: and_then_def)

lemma and_then_Err [simp, res_simps]: "and_then (Err e) f = Err e"
  by (simp add: and_then_def)

lemma and_then_eq_Ok [res_simps]:
  "and_then r f = Ok y \<longleftrightarrow> (\<exists>x. r = Ok x \<and> f x = Ok y)"
  by (auto simp: and_then_def split: sum.splits)

lemma and_then_eq_Err [res_simps]:
  "and_then r f = Err e \<longleftrightarrow> r = Err e \<or> (\<exists>x. r = Ok x \<and> f x = Err e)"
  by (auto simp: and_then_def split: sum.splits)

lemma map_err_simps [simp, res_simps]:
  "map_err f (Ok x) = Ok x" "map_err f (Err e) = Err (f e)"
  by (simp_all add: map_err_def)

lemma map_err_eq_Ok [res_simps]: "map_err f r = Ok x \<longleftrightarrow> r = Ok x"
  by (auto simp: map_err_def split: sum.splits)

lemma ok_or_simps [simp, res_simps]:
  "ok_or e None = Err e" "ok_or e (Some v) = Ok v"
  by (simp_all add: ok_or_def)

lemma ok_or_eq_Ok [res_simps]: "ok_or e x = Ok v \<longleftrightarrow> x = Some v"
  by (auto simp: ok_or_def split: option.splits)

lemma is_ok_simps [simp, res_simps]: "is_ok (Ok x)" "\<not> is_ok (Err e)"
  by (simp_all add: is_ok_def)

lemma is_ok_conv: "is_ok r \<longleftrightarrow> (\<exists>x. r = Ok x)"
  by (cases r) auto

section \<open>Lemmas on words\<close>

lemma of_be16_be16 [simp, wire_simps]:
  "of_be16 (ucast (drop_bit 8 w)) (ucast w) = (w :: u16)"
  by (rule bit_word_eqI) (auto simp: of_be16_def bit_simps)

lemma of_be32_be32 [simp, wire_simps]:
  "of_be32 (ucast (drop_bit 24 w)) (ucast (drop_bit 16 w)) (ucast (drop_bit 8 w)) (ucast w) =
     (w :: u32)"
proof (rule bit_word_eqI)
  fix n :: nat
  assume n: "n < LENGTH(32)"
  consider "n < 8" | "8 \<le> n" "n < 16" | "16 \<le> n" "n < 24" | "24 \<le> n" by linarith
  then show "bit (of_be32 (ucast (drop_bit 24 w)) (ucast (drop_bit 16 w)) (ucast (drop_bit 8 w))
      (ucast w)) n = bit w n"
    using n by cases (auto simp: of_be32_def bit_simps)
qed

lemma length_be [simp]: "length (be16 w) = 2" "length (be32 v) = 4"
  by (simp_all add: be16_def be32_def)

lemma checked_add_Some:
  "checked_add a b = Some c \<longleftrightarrow> unat a + unat b < 2 ^ LENGTH('a) \<and> c = a + b"
  for a b c :: "'a::len word"
  by (auto simp: checked_add_def)

lemma unat_checked_add:
  "checked_add a b = Some c \<Longrightarrow> unat c = unat a + unat b"
  for a b c :: "'a::len word"
  by (auto simp: checked_add_def unat_word_ariths split: if_splits)

lemma unat_saturating_add:
  "unat (saturating_add a b) = min (unat a + unat b) (2 ^ LENGTH('a) - 1)"
  for a b :: "'a::len word"
  by (auto simp: saturating_add_def unat_word_ariths unsigned_minus_1_eq_mask mask_eq_exp_minus_1)

text \<open>Counters that follow the size of a collection: adding and removing elements commutes with
  the modular image of the size, with no side condition on the width.\<close>

lemma of_nat_Suc_word: "of_nat n + 1 = (of_nat (Suc n) :: 'a::len word)"
  by simp

lemma of_nat_pred_word: "0 < n \<Longrightarrow> of_nat n - 1 = (of_nat (n - 1) :: 'a::len word)"
  by (simp add: of_nat_diff)

lemma of_nat_diff_word: "m \<le> n \<Longrightarrow> of_nat n - of_nat m = (of_nat (n - m) :: 'a::len word)"
  by (simp add: of_nat_diff)

section \<open>Lemmas on strings\<close>

lemma str_bytes_simps [simp]:
  "str_bytes [] = []"
  "str_bytes (c # s) = utf8_char c @ str_bytes s"
  "str_bytes (s @ s') = str_bytes s @ str_bytes s'"
  by (simp_all add: str_bytes_def)

lemma str_len_simps [simp]:
  "str_len [] = 0"
  "str_len (c # s) = length (utf8_char c) + str_len s"
  "str_len (s @ s') = str_len s + str_len s'"
  by (simp_all add: str_len_def)

lemma utf8_char_ascii [simp]: "c < 128 \<Longrightarrow> utf8_char c = [c]"
  by (simp add: utf8_char_def)

lemma utf8_char_nonempty [simp]: "utf8_char c \<noteq> []"
  by (simp add: utf8_char_def)

lemma utf8_char_high: "128 \<le> c \<Longrightarrow> b \<in> set (utf8_char c) \<Longrightarrow> 128 \<le> b"
  by (auto simp: utf8_char_def split: if_splits)

lemma length_le_str_len: "length s \<le> str_len s"
proof (induction s)
  case (Cons c s)
  have "1 \<le> length (utf8_char c)" by (simp add: Suc_le_eq)
  with Cons show ?case by simp
qed simp

text \<open>A byte test that no byte above 127 passes is a test of the scalar values.\<close>

lemma list_all_str_bytes:
  assumes "\<And>b. P b \<Longrightarrow> b < 128"
  shows "list_all P (str_bytes s) \<longleftrightarrow> list_all P s"
proof (induction s)
  case (Cons c s)
  have "list_all P (utf8_char c) \<longleftrightarrow> P c"
  proof (cases "c < 128")
    case False
    then obtain b bs where "utf8_char c = b # bs" and "128 \<le> b"
      using utf8_char_high [of c] by (cases "utf8_char c") auto
    with False assms show ?thesis by fastforce
  qed simp
  with Cons show ?case by simp
qed simp

lemma ascii_alnum_lt_128: "is_ascii_alphanumeric b \<Longrightarrow> b < 128"
  by (auto simp: is_ascii_alphanumeric_def is_ascii_digit_def)

lemma str_len_ascii: "list_all (\<lambda>c. c < 128) s \<Longrightarrow> str_len s = length s"
  by (induction s) auto

lemma wf_str_simps [simp]: "wf_str []" "wf_str (c # s) \<longleftrightarrow> is_scalar c \<and> wf_str s"
  "wf_str (s @ t) \<longleftrightarrow> wf_str s \<and> wf_str t"
  by (auto simp: wf_str_def)

section \<open>Lemmas on time\<close>

lemma as_millis_mono: "a \<le> b \<Longrightarrow> as_millis a \<le> as_millis b"
  by (simp add: as_millis_def div_le_mono)

lemma as_millis_from_millis [simp]: "as_millis (from_millis m) = m"
  by (simp add: as_millis_def from_millis_def)

end
