(* ===== verification/Hash_Map.thy ===== *)
theory Hash_Map
  imports Prelude "HOL-Library.AList"
begin

text \<open>
  The \<open>HashMap\<close> and \<open>HashSet\<close> of the Rust standard library as the sources use them: a finite
  table with at most one entry per key. The table is an association list whose keys are
  distinct, so that \<open>len\<close> is executable; nothing in the development depends on the order of
  its entries. The locale \<open>table\<close> is the contract the clients rely on, interpreted once on
  these operations.
\<close>

type_synonym ('k, 'v) hashmap = "('k \<times> 'v) list"

definition hm_get :: "('k, 'v) hashmap \<Rightarrow> 'k \<Rightarrow> 'v option" where
  "hm_get m k = map_of m k"

definition hm_contains :: "('k, 'v) hashmap \<Rightarrow> 'k \<Rightarrow> bool" where
  "hm_contains m k \<longleftrightarrow> hm_get m k \<noteq> None"

definition hm_insert :: "'k \<Rightarrow> 'v \<Rightarrow> ('k, 'v) hashmap \<Rightarrow> ('k, 'v) hashmap" where
  "hm_insert k v m = AList.update k v m"

definition hm_remove :: "'k \<Rightarrow> ('k, 'v) hashmap \<Rightarrow> ('k, 'v) hashmap" where
  "hm_remove k m = filter (\<lambda>(k', _). k' \<noteq> k) m"

definition hm_retain :: "('k \<Rightarrow> 'v \<Rightarrow> bool) \<Rightarrow> ('k, 'v) hashmap \<Rightarrow> ('k, 'v) hashmap" where
  "hm_retain P m = filter (\<lambda>(k, v). P k v) m"

text \<open>Updating every value in place, as \<open>values_mut\<close> and the closure of \<open>retain\<close> may.\<close>

definition hm_map :: "('v \<Rightarrow> 'v) \<Rightarrow> ('k, 'v) hashmap \<Rightarrow> ('k, 'v) hashmap" where
  "hm_map f m = map (\<lambda>(k, v). (k, f v)) m"

definition hm_len :: "('k, 'v) hashmap \<Rightarrow> nat" where
  "hm_len m = length m"

definition hm_values :: "('k, 'v) hashmap \<Rightarrow> 'v list" where
  "hm_values m = map snd m"

definition hm_keys :: "('k, 'v) hashmap \<Rightarrow> 'k list" where
  "hm_keys m = map fst m"

definition hm_inv :: "('k, 'v) hashmap \<Rightarrow> bool" where
  "hm_inv m \<longleftrightarrow> distinct (map fst m)"

section \<open>The contract of a table\<close>

locale table =
  fixes empty :: 'm
    and get :: "'m \<Rightarrow> 'k \<Rightarrow> 'v option"
    and insert :: "'k \<Rightarrow> 'v \<Rightarrow> 'm \<Rightarrow> 'm"
    and remove :: "'k \<Rightarrow> 'm \<Rightarrow> 'm"
    and retain :: "('k \<Rightarrow> 'v \<Rightarrow> bool) \<Rightarrow> 'm \<Rightarrow> 'm"
    and len :: "'m \<Rightarrow> nat"
    and invar :: "'m \<Rightarrow> bool"
  assumes get_empty: "get empty k = None"
    and get_insert: "get (insert k v m) k' = (if k' = k then Some v else get m k')"
    and get_remove: "get (remove k m) k' = (if k' = k then None else get m k')"
    and get_retain: "invar m \<Longrightarrow>
      get (retain P m) k = (case get m k of None \<Rightarrow> None | Some v \<Rightarrow> if P k v then Some v else None)"
    and len_card: "invar m \<Longrightarrow> len m = card (dom (get m))"
    and finite_keys: "finite (dom (get m))"
    and invar_empty: "invar empty"
    and invar_insert: "invar m \<Longrightarrow> invar (insert k v m)"
    and invar_remove: "invar m \<Longrightarrow> invar (remove k m)"
    and invar_retain: "invar m \<Longrightarrow> invar (retain P m)"
begin

lemma dom_empty: "dom (get empty) = {}"
  by (auto simp: get_empty)

lemma dom_insert: "dom (get (insert k v m)) = Set.insert k (dom (get m))"
  by (auto simp: get_insert split: if_splits)

lemma dom_remove: "dom (get (remove k m)) = dom (get m) - {k}"
  by (auto simp: get_remove split: if_splits)

lemma dom_retain: "invar m \<Longrightarrow> dom (get (retain P m)) \<subseteq> dom (get m)"
  by (auto simp: get_retain split: option.splits)

lemma len_empty: "len empty = 0"
  by (simp add: len_card invar_empty dom_empty)

lemma len_insert_fresh: "invar m \<Longrightarrow> get m k = None \<Longrightarrow> len (insert k v m) = Suc (len m)"
  by (simp add: len_card invar_insert dom_insert finite_keys domIff)

lemma len_insert_present: "invar m \<Longrightarrow> k \<in> dom (get m) \<Longrightarrow> len (insert k v m) = len m"
  by (simp add: len_card invar_insert dom_insert insert_absorb)

lemma len_remove_present: "invar m \<Longrightarrow> k \<in> dom (get m) \<Longrightarrow> len m = Suc (len (remove k m))"
  using card_Suc_Diff1 [OF finite_keys, of k m]
  by (simp add: len_card invar_remove dom_remove)

lemma len_remove_absent: "invar m \<Longrightarrow> get m k = None \<Longrightarrow> len (remove k m) = len m"
  by (simp add: len_card invar_remove dom_remove domIff)

lemma len_remove_le: "invar m \<Longrightarrow> len (remove k m) \<le> len m"
  by (simp add: len_card invar_remove dom_remove card_Diff1_le)

lemma len_insert_le: "invar m \<Longrightarrow> len (insert k v m) \<le> Suc (len m)"
  by (simp add: len_card invar_insert dom_insert card_insert_le_m1 card_insert_if finite_keys)

lemma len_retain_le: "invar m \<Longrightarrow> len (retain P m) \<le> len m"
  by (simp add: len_card invar_retain dom_retain card_mono finite_keys)

lemma get_retain_Some:
  "invar m \<Longrightarrow> get (retain P m) k = Some v \<longleftrightarrow> get m k = Some v \<and> P k v"
  by (auto simp: get_retain split: option.splits)

lemma len_zero_iff: "invar m \<Longrightarrow> len m = 0 \<longleftrightarrow> (\<forall>k. get m k = None)"
  using finite_keys [of m] by (auto simp: len_card dom_def)

end

section \<open>The standard library table meets the contract\<close>

lemma map_of_filter_keys:
  "map_of (filter (\<lambda>(k', _). k' \<noteq> k) m) k' = (if k' = k then None else map_of m k')"
  by (induction m) auto

lemma map_of_filter_distinct:
  "distinct (map fst m) \<Longrightarrow> map_of (filter (\<lambda>(k, v). P k v) m) k =
     (case map_of m k of None \<Rightarrow> None | Some v \<Rightarrow> if P k v then Some v else None)"
proof (induction m)
  case (Cons kv m)
  obtain a b where kv: "kv = (a, b)" by (cases kv)
  have "k = a \<Longrightarrow> map_of (filter (\<lambda>(k, v). P k v) m) k = None"
    using Cons.prems kv by (auto simp: map_of_eq_None_iff)
  with Cons kv show ?case by auto
qed simp

lemma distinct_map_fst_filter: "distinct (map fst m) \<Longrightarrow> distinct (map fst (filter P m))"
  by (induction m) auto

interpretation hm: table "[]" hm_get hm_insert hm_remove hm_retain hm_len hm_inv
proof (unfold_locales, goal_cases)
  case (2 k v m k')
  then show ?case by (simp add: hm_get_def hm_insert_def update_conv')
next
  case (4 m P k)
  then show ?case by (simp add: hm_get_def hm_retain_def hm_inv_def map_of_filter_distinct)
next
  case (5 m)
  have "length m = card (set (map fst m))"
    using 5 distinct_card [of "map fst m"] by (simp add: hm_inv_def)
  then show ?case by (simp add: hm_len_def hm_get_def [abs_def] dom_map_of_conv_image_fst)
qed (auto simp: hm_get_def [abs_def] hm_inv_def hm_insert_def hm_remove_def hm_retain_def
    finite_dom_map_of map_of_filter_keys distinct_update distinct_map_fst_filter)

lemmas hm_simps [simp] =
  hm.get_empty hm.get_insert hm.get_remove hm.invar_empty hm.invar_insert hm.invar_remove
  hm.invar_retain hm.len_empty

lemma hm_map_simps [simp]:
  "hm_get (hm_map f m) k = map_option f (hm_get m k)" "hm_inv (hm_map f m) \<longleftrightarrow> hm_inv m"
  "hm_len (hm_map f m) = hm_len m"
  by (simp_all add: hm_get_def hm_map_def map_of_map hm_inv_def hm_len_def o_def case_prod_beta)

lemma hm_values_get:
  "hm_inv m \<Longrightarrow> v \<in> set (hm_values m) \<longleftrightarrow> (\<exists>k. hm_get m k = Some v)"
  by (force simp: hm_values_def hm_get_def hm_inv_def)

lemma hm_keys_get: "k \<in> set (hm_keys m) \<longleftrightarrow> hm_get m k \<noteq> None"
  by (force simp: hm_keys_def hm_get_def map_of_eq_None_iff)

lemma hm_get_in_set: "hm_inv m \<Longrightarrow> (k, v) \<in> set m \<longleftrightarrow> hm_get m k = Some v"
  by (simp add: hm_get_def hm_inv_def)

section \<open>Updating one value, and totals over a table\<close>

text \<open>\<open>hm_modify\<close> is a write through \<open>get_mut\<close>; \<open>hm_total\<close> adds up a measure of the values.\<close>

definition hm_modify :: "'k \<Rightarrow> ('v \<Rightarrow> 'v) \<Rightarrow> ('k, 'v) hashmap \<Rightarrow> ('k, 'v) hashmap" where
  "hm_modify k f m = map (\<lambda>(k', v). (k', if k' = k then f v else v)) m"

definition hm_total :: "('v \<Rightarrow> nat) \<Rightarrow> ('k, 'v) hashmap \<Rightarrow> nat" where
  "hm_total f m = sum_list (map (f \<circ> snd) m)"

lemma hm_get_modify [simp]:
  "hm_get (hm_modify k f m) k' = (if k' = k then map_option f (hm_get m k) else hm_get m k')"
  by (induction m) (auto simp: hm_modify_def hm_get_def)

lemma hm_modify_shape [simp]:
  "hm_inv (hm_modify k f m) \<longleftrightarrow> hm_inv m" "hm_len (hm_modify k f m) = hm_len m"
  "hm_keys (hm_modify k f m) = hm_keys m"
  by (simp_all add: hm_modify_def hm_inv_def hm_len_def hm_keys_def o_def case_prod_beta)

lemma hm_modify_absent: "hm_get m k = None \<Longrightarrow> hm_modify k f m = m"
  by (induction m) (auto simp: hm_modify_def hm_get_def split: if_splits)

lemma hm_remove_absent: "hm_get m k = None \<Longrightarrow> hm_remove k m = m"
  by (induction m) (auto simp: hm_remove_def hm_get_def split: if_splits)

lemma hm_remove_Cons: "hm_remove k ((a, v) # m) = (if a = k then hm_remove k m else (a, v) # hm_remove k m)"
  by (simp add: hm_remove_def)

lemma hm_inv_Cons: "hm_inv ((a, v) # m) \<longleftrightarrow> hm_get m a = None \<and> hm_inv m"
  by (auto simp: hm_inv_def hm_get_def map_of_eq_None_iff)

lemma hm_get_Cons: "hm_get ((a, v) # m) k = (if k = a then Some v else hm_get m k)"
  by (auto simp: hm_get_def)

lemma hm_modify_Cons: "hm_modify k f ((a, v) # m) = (a, if a = k then f v else v) # hm_modify k f m"
  by (simp add: hm_modify_def)

lemma hm_total_simps [simp]:
  "hm_total f [] = 0" "hm_total f ((k, v) # m) = f v + hm_total f m"
  "hm_total f (m @ n) = hm_total f m + hm_total f n"
  by (simp_all add: hm_total_def)

lemma hm_insert_fresh: "hm_get m k = None \<Longrightarrow> hm_insert k v m = m @ [(k, v)]"
  by (induction m) (auto simp: hm_insert_def hm_get_def split: if_splits)

lemma hm_total_insert: "hm_get m k = None \<Longrightarrow> hm_total f (hm_insert k v m) = f v + hm_total f m"
  by (simp add: hm_insert_fresh)

lemma hm_total_remove:
  "hm_inv m \<Longrightarrow> hm_get m k = Some v \<Longrightarrow> f v + hm_total f (hm_remove k m) = hm_total f m"
  by (induction m)
     (auto simp: hm_remove_Cons hm_inv_Cons hm_get_Cons hm_remove_absent split: if_splits)

lemma hm_total_modify:
  "hm_inv m \<Longrightarrow> hm_get m k = Some v \<Longrightarrow>
     hm_total f (hm_modify k g m) + f v = f (g v) + hm_total f m"
  by (induction m)
     (auto simp: hm_modify_Cons hm_inv_Cons hm_get_Cons hm_modify_absent split: if_splits)

lemma hm_total_modify_same:
  "(\<And>v. f (g v) = f v) \<Longrightarrow> hm_total f (hm_modify k g m) = hm_total f m"
  by (induction m) (auto simp: hm_modify_Cons hm_modify_def)

lemma hm_total_ge: "hm_get m k = Some v \<Longrightarrow> f v \<le> hm_total f m"
  by (induction m) (auto simp: hm_get_Cons hm_get_def split: if_splits)

end
