(* ===== verification/Std_Net.thy ===== *)
theory Std_Net
  imports Prelude
begin

text \<open>
  The parts of \<open>core::net\<close> that the sources call: the textual parser behind
  \<open>str::parse::<Ipv6Addr>()\<close>, the loopback and IPv4-mapped tests on an IPv6 address, and socket
  addresses. An \<open>Ipv6Addr\<close> is its sixteen octets in network order. The parser follows the
  standard library's recursive descent: a run of groups, an optional \<open>::\<close>, and a trailing
  dotted quad where two groups are left.
\<close>

type_synonym octets = bytes

definition to_digit :: "nat \<Rightarrow> rchar \<Rightarrow> nat option" where
  "to_digit radix c =
     (let d = (if 48 \<le> c \<and> c \<le> 57 then Some (c - 48)
               else if 97 \<le> c \<and> c \<le> 122 then Some (c - 87)
               else if 65 \<le> c \<and> c \<le> 90 then Some (c - 55) else None)
      in case d of None \<Rightarrow> None | Some v \<Rightarrow> if v < radix then Some v else None)"

fun read_digits :: "nat \<Rightarrow> rstr \<Rightarrow> nat list \<times> rstr" where
  "read_digits radix [] = ([], [])"
| "read_digits radix (c # s) =
     (case to_digit radix c of
        None \<Rightarrow> ([], c # s)
      | Some d \<Rightarrow> (case read_digits radix s of (ds, rest) \<Rightarrow> (d # ds, rest)))"

definition digits_value :: "nat \<Rightarrow> nat list \<Rightarrow> nat" where
  "digits_value radix ds = foldl (\<lambda>acc d. acc * radix + d) 0 ds"

text \<open>\<open>read_number\<close>: at least one digit, at most \<open>max_digits\<close>, a leading zero only where
  allowed, and the value within the target type.\<close>

definition read_number :: "nat \<Rightarrow> nat \<Rightarrow> bool \<Rightarrow> nat \<Rightarrow> rstr \<Rightarrow> (nat \<times> rstr) option" where
  "read_number radix max_digits allow_zero_prefix max_value s =
     (case read_digits radix s of (ds, rest) \<Rightarrow>
        if max_digits < length ds then None
        else if ds = [] then None
        else if \<not> allow_zero_prefix \<and> hd ds = 0 \<and> 1 < length ds then None
        else if digits_value radix ds \<le> max_value then Some (digits_value radix ds, rest)
        else None)"

fun read_given_char :: "rchar \<Rightarrow> rstr \<Rightarrow> rstr option" where
  "read_given_char c [] = None"
| "read_given_char c (x # s) = (if x = c then Some s else None)"

definition read_separator ::
  "rchar \<Rightarrow> nat \<Rightarrow> (rstr \<Rightarrow> ('a \<times> rstr) option) \<Rightarrow> rstr \<Rightarrow> ('a \<times> rstr) option" where
  "read_separator sep index inner s =
     (if 0 < index
      then (case read_given_char sep s of None \<Rightarrow> None | Some s' \<Rightarrow> inner s')
      else inner s)"

fun read_ipv4_groups :: "nat \<Rightarrow> nat \<Rightarrow> rstr \<Rightarrow> (nat list \<times> rstr) option" where
  "read_ipv4_groups 0 i s = Some ([], s)"
| "read_ipv4_groups (Suc k) i s =
     (case read_separator 46 i (read_number 10 3 False 255) s of
        None \<Rightarrow> None
      | Some (g, s') \<Rightarrow>
          (case read_ipv4_groups k (Suc i) s' of
             None \<Rightarrow> None
           | Some (gs, s'') \<Rightarrow> Some (g # gs, s'')))"

definition read_ipv4_addr :: "rstr \<Rightarrow> (nat list \<times> rstr) option" where
  "read_ipv4_addr s = read_ipv4_groups 4 0 s"

text \<open>\<open>read_groups\<close> with \<open>k\<close> groups left at index \<open>i\<close>: the groups read, whether they end in a
  dotted quad, and the rest of the text.\<close>

fun read_groups :: "nat \<Rightarrow> nat \<Rightarrow> rstr \<Rightarrow> nat list \<times> bool \<times> rstr" where
  "read_groups 0 i s = ([], False, s)"
| "read_groups (Suc k) i s =
     (case (if 1 \<le> k then read_separator 58 i read_ipv4_addr s else None) of
        Some (os, s') \<Rightarrow> ([os ! 0 * 256 + os ! 1, os ! 2 * 256 + os ! 3], True, s')
      | None \<Rightarrow>
          (case read_separator 58 i (read_number 16 4 True 65535) s of
             None \<Rightarrow> ([], False, s)
           | Some (g, s') \<Rightarrow>
               (case read_groups k (Suc i) s' of (gs, v4, s'') \<Rightarrow> (g # gs, v4, s''))))"

definition read_ipv6_addr :: "rstr \<Rightarrow> (nat list \<times> rstr) option" where
  "read_ipv6_addr s =
     (case read_groups 8 0 s of (front, v4, s1) \<Rightarrow>
        if length front = 8 then Some (front, s1)
        else if v4 then None
        else (case Option.bind (read_given_char 58 s1) (read_given_char 58) of
                None \<Rightarrow> None
              | Some s2 \<Rightarrow>
                  (case read_groups (8 - (length front + 1)) 0 s2 of (rear, _, s3) \<Rightarrow>
                     Some (front @ replicate (8 - (length front + length rear)) 0 @ rear, s3))))"

definition groups_octets :: "nat list \<Rightarrow> octets" where
  "groups_octets gs = concat (map (\<lambda>g. [of_nat (g div 256), of_nat (g mod 256)]) gs)"

definition parse_ipv6 :: "rstr \<Rightarrow> octets option" where
  "parse_ipv6 s =
     (case read_ipv6_addr s of
        Some (gs, []) \<Rightarrow> Some (groups_octets gs)
      | _ \<Rightarrow> None)"

definition ipv6_localhost :: octets where
  "ipv6_localhost = replicate 15 0 @ [1]"

definition ipv6_is_loopback :: "octets \<Rightarrow> bool" where
  "ipv6_is_loopback a \<longleftrightarrow> a = ipv6_localhost"

definition to_ipv4_mapped :: "octets \<Rightarrow> octets option" where
  "to_ipv4_mapped a =
     (if take 12 a = replicate 10 0 @ [255, 255] then Some (drop 12 a) else None)"

definition to_ipv6_mapped :: "octets \<Rightarrow> octets" where
  "to_ipv6_mapped a = replicate 10 0 @ [255, 255] @ a"

datatype ip_addr = IpV4 octets | IpV6 octets

datatype socket_addr = SocketV4 octets u16 | SocketV6 octets u16

section \<open>The characters and the size of a parsed address\<close>

definition ipv6_char :: "rchar \<Rightarrow> bool" where
  "ipv6_char c \<longleftrightarrow> c = 58 \<or> c = 46 \<or> to_digit 16 c \<noteq> None"

lemma to_digit_mono: "to_digit r c = Some d \<Longrightarrow> r \<le> r' \<Longrightarrow> to_digit r' c = Some d"
  by (auto simp: to_digit_def Let_def split: if_splits option.splits)

lemma ipv6_char_ascii: "ipv6_char c \<Longrightarrow> c < 128"
  by (auto simp: ipv6_char_def to_digit_def Let_def split: if_splits option.splits)

lemma read_digits_split:
  "read_digits r s = (ds, rest) \<Longrightarrow>
     \<exists>pre. s = pre @ rest \<and> length pre = length ds \<and> list_all (\<lambda>c. to_digit r c \<noteq> None) pre"
proof (induction s arbitrary: ds rest)
  case (Cons c s)
  show ?case
  proof (cases "to_digit r c")
    case None
    with Cons.prems show ?thesis by (intro exI [of _ "[]"]) simp
  next
    case (Some d)
    obtain ds' rest' where r: "read_digits r s = (ds', rest')" by fastforce
    from Cons.IH [OF r] obtain pre where "s = pre @ rest'" "length pre = length ds'"
      "list_all (\<lambda>c. to_digit r c \<noteq> None) pre" by blast
    with Cons.prems Some r show ?thesis by (intro exI [of _ "c # pre"]) auto
  qed
qed simp

lemma read_number_split:
  assumes "read_number r m z v s = Some (n, rest)" and "r \<le> 16"
  shows "\<exists>pre. s = pre @ rest \<and> length pre \<le> m \<and> list_all ipv6_char pre \<and> n \<le> v"
proof -
  obtain ds rest' where d: "read_digits r s = (ds, rest')" by fastforce
  with assms(1) have "rest' = rest" "length ds \<le> m" "n \<le> v"
    by (auto simp: read_number_def split: if_splits)
  moreover from read_digits_split [OF d] obtain pre where
    "s = pre @ rest'" "length pre = length ds" "list_all (\<lambda>c. to_digit r c \<noteq> None) pre" by blast
  moreover from this(3) assms(2) have "list_all ipv6_char pre"
    by (auto simp: list_all_iff ipv6_char_def dest: to_digit_mono)
  ultimately show ?thesis by auto
qed

lemma read_given_char_Some: "read_given_char c s = Some s' \<longleftrightarrow> s = c # s'"
  by (cases s) auto

lemma read_separator_split:
  assumes "read_separator sep i inner s = Some (x, rest)" and "ipv6_char sep"
    and "\<And>t. inner t = Some (x, rest) \<Longrightarrow>
      \<exists>pre. t = pre @ rest \<and> length pre \<le> m \<and> list_all ipv6_char pre"
  shows "\<exists>pre. s = pre @ rest \<and> length pre \<le> Suc m \<and> list_all ipv6_char pre"
proof (cases "0 < i")
  case True
  with assms(1) obtain t where s: "s = sep # t" and "inner t = Some (x, rest)"
    by (auto simp: read_separator_def read_given_char_Some split: option.splits)
  with assms(3) obtain pre where "t = pre @ rest" "length pre \<le> m" "list_all ipv6_char pre"
    by blast
  with s assms(2) show ?thesis by (intro exI [of _ "sep # pre"]) auto
next
  case False
  with assms(1) have "inner s = Some (x, rest)" by (simp add: read_separator_def)
  with assms(3) obtain pre where "s = pre @ rest" "length pre \<le> m" "list_all ipv6_char pre"
    by blast
  then show ?thesis by (intro exI [of _ pre]) auto
qed

lemma read_ipv4_groups_split:
  "read_ipv4_groups k i s = Some (gs, rest) \<Longrightarrow>
     \<exists>pre. s = pre @ rest \<and> length pre \<le> 4 * k \<and> list_all ipv6_char pre \<and> length gs = k \<and>
       list_all (\<lambda>g. g \<le> 255) gs"
proof (induction k arbitrary: i s gs)
  case (Suc k)
  from Suc.prems obtain g s' gs' where
    g: "read_separator 46 i (read_number 10 3 False 255) s = Some (g, s')" and
    gs': "read_ipv4_groups k (Suc i) s' = Some (gs', rest)" and gs: "gs = g # gs'"
    by (auto split: option.splits)
  have dot: "ipv6_char 46" by (simp add: ipv6_char_def)
  from g have "g \<le> 255"
    by (auto simp: read_separator_def split: if_splits option.splits dest: read_number_split)
  moreover from read_separator_split [OF g dot, of 3] obtain pre where
    "s = pre @ s'" "length pre \<le> 4" "list_all ipv6_char pre"
    by (force dest: read_number_split)
  moreover from Suc.IH [OF gs'] obtain pre' where
    "s' = pre' @ rest" "length pre' \<le> 4 * k" "list_all ipv6_char pre'" "length gs' = k"
    "list_all (\<lambda>g. g \<le> 255) gs'" by blast
  ultimately show ?case using gs by (intro exI [of _ "pre @ pre'"]) auto
qed auto

lemma read_groups_split:
  "read_groups k i s = (gs, v4, rest) \<Longrightarrow>
     \<exists>pre. s = pre @ rest \<and> length pre \<le> 5 * k + 7 \<and> list_all ipv6_char pre \<and> length gs \<le> k \<and>
       list_all (\<lambda>g. g \<le> 65535) gs"
proof (induction k i s arbitrary: gs v4 rest rule: read_groups.induct)
  case (1 i s)
  then show ?case by (intro exI [of _ "[]"]) auto
next
  case (2 k i s)
  have colon: "ipv6_char 58" by (simp add: ipv6_char_def)
  show ?case
  proof (cases "if 1 \<le> k then read_separator 58 i read_ipv4_addr s else None")
    case (Some r)
    obtain os s' where r: "r = (os, s')" by (cases r)
    with Some have k: "1 \<le> k" and q: "read_separator 58 i read_ipv4_addr s = Some (os, s')"
      by (auto split: if_splits)
    from read_separator_split [OF q colon, of 16] obtain pre where
      pre: "s = pre @ s'" "length pre \<le> 17" "list_all ipv6_char pre"
      by (force simp: read_ipv4_addr_def dest: read_ipv4_groups_split)
    have "\<exists>t. read_ipv4_groups 4 0 t = Some (os, s')"
      using q by (auto simp: read_separator_def read_ipv4_addr_def split: if_splits option.splits)
    then have "length os = 4" "list_all (\<lambda>g. g \<le> 255) os"
      using read_ipv4_groups_split by blast+
    then have "os ! 0 \<le> 255" "os ! 1 \<le> 255" "os ! 2 \<le> 255" "os ! 3 \<le> 255"
      by (simp_all add: list_all_length)
    with 2(2) Some r pre k show ?thesis by (intro exI [of _ pre]) auto
  next
    case None
    note no_quad = None
    show ?thesis
    proof (cases "read_separator 58 i (read_number 16 4 True 65535) s")
      case None
      with 2(2) no_quad show ?thesis by (intro exI [of _ "[]"]) auto
    next
      case (Some r)
      obtain g s' where r: "r = (g, s')" by (cases r)
      obtain gs' v4' rest' where gs': "read_groups k (Suc i) s' = (gs', v4', rest')"
        by (cases "read_groups k (Suc i) s'") auto
      from Some r have q: "read_separator 58 i (read_number 16 4 True 65535) s = Some (g, s')"
        by simp
      then have "g \<le> 65535"
        by (auto simp: read_separator_def split: if_splits option.splits dest: read_number_split)
      moreover from read_separator_split [OF q colon, of 4] obtain pre where
        "s = pre @ s'" "length pre \<le> 5" "list_all ipv6_char pre"
        by (force dest: read_number_split)
      moreover from 2(1) [OF no_quad Some, of g s'] r gs' obtain pre' where
        "s' = pre' @ rest'" "length pre' \<le> 5 * k + 7" "list_all ipv6_char pre'" "length gs' \<le> k"
        "list_all (\<lambda>g. g \<le> 65535) gs'" by blast
      ultimately show ?thesis using 2(2) no_quad Some r gs' by (intro exI [of _ "pre @ pre'"]) auto
    qed
  qed
qed

lemma read_ipv6_addr_split:
  assumes "read_ipv6_addr s = Some (gs, rest)"
  shows "\<exists>pre. s = pre @ rest \<and> length pre \<le> 91 \<and> list_all ipv6_char pre \<and> length gs = 8"
proof -
  obtain front v4 s1 where f: "read_groups 8 0 s = (front, v4, s1)"
    by (cases "read_groups 8 0 s") auto
  from read_groups_split [OF f] obtain pre where
    pre: "s = pre @ s1" "length pre \<le> 47" "list_all ipv6_char pre" "length front \<le> 8" by auto
  show ?thesis
  proof (cases "length front = 8")
    case True
    with assms f pre show ?thesis by (auto simp: read_ipv6_addr_def)
  next
    case False
    with assms f obtain s2 where s1: "s1 = 58 # 58 # s2"
      by (auto simp: read_ipv6_addr_def read_given_char_Some bind_eq_Some_conv
          split: if_splits option.splits)
    obtain rear v4' s3 where b: "read_groups (7 - length front) 0 s2 = (rear, v4', s3)"
      by (cases "read_groups (7 - length front) 0 s2") auto
    from read_groups_split [OF b] obtain pre' where
      pre': "s2 = pre' @ s3" "length pre' \<le> 42" "list_all ipv6_char pre'"
      "length rear \<le> 7 - length front" by fastforce
    have "ipv6_char 58" by (simp add: ipv6_char_def)
    with assms f False s1 b pre pre' show ?thesis
      by (intro exI [of _ "pre @ [58, 58] @ pre'"])
        (auto simp: read_ipv6_addr_def split: if_splits)
  qed
qed

lemma read_number_Nil: "read_number r m z v [] = None"
  by (simp add: read_number_def)

lemma read_ipv4_groups_Nil: "0 < k \<Longrightarrow> read_ipv4_groups k 0 [] = None"
  by (cases k) (simp_all add: read_separator_def read_number_Nil)

lemma read_groups_Nil: "read_groups k 0 [] = ([], False, [])"
proof (cases k)
  case (Suc n)
  then show ?thesis
    by (simp add: read_separator_def read_number_Nil read_ipv4_addr_def read_ipv4_groups_Nil)
qed simp

text \<open>A parsed address has sixteen octets, and its text holds hexadecimal digits, colons and dots
  only, far below any length bound of the sources.\<close>

lemma parse_ipv6_SomeD:
  assumes "parse_ipv6 s = Some a"
  shows "length a = 16" and "list_all ipv6_char s" and "length s \<le> 91" and "s \<noteq> []"
proof -
  from assms obtain gs where gs: "read_ipv6_addr s = Some (gs, [])" and a: "a = groups_octets gs"
    by (auto simp: parse_ipv6_def split: option.splits list.splits)
  from read_ipv6_addr_split [OF gs] have l: "length gs = 8" and *: "list_all ipv6_char s"
    "length s \<le> 91" by auto
  have "length (groups_octets gs) = 2 * length gs"
    by (induction gs) (auto simp: groups_octets_def)
  with a l show "length a = 16" by simp
  show "list_all ipv6_char s" "length s \<le> 91" by fact+
  show "s \<noteq> []"
  proof
    assume "s = []"
    with gs show False by (simp add: read_ipv6_addr_def read_groups_Nil)
  qed
qed

lemma length_ipv6_localhost [simp]: "length ipv6_localhost = 16"
  by (simp add: ipv6_localhost_def)

end
