(* ===== verification/Proto.thy ===== *)
theory Proto
  imports Std_Net
begin

text \<open>
  The bounded data types of \<open>eggtunnel-proto\<close> (\<open>crates/eggtunnel-proto/src/lib.rs\<close>): protocol
  constants, identifiers, validated names, hosts, targets, capabilities and diagnostics, the
  message vocabulary and the protocol errors. A validating constructor \<open>T::new\<close> is a function
  into \<open>protocol_error + T\<close>; the predicate \<open>wf_message\<close> collects what the private fields of the
  Rust types guarantee about every value that a program can hold.
\<close>

section \<open>Constants and errors\<close>

definition MAGIC :: bytes where "MAGIC = [69, 84, 85, 78]"
definition HEADER_LEN :: nat where [const_defs]: "HEADER_LEN = 14"
definition MAX_FRAME_BYTES :: nat where [const_defs]: "MAX_FRAME_BYTES = 1024 * 1024"
definition MAX_NAME_BYTES :: nat where [const_defs]: "MAX_NAME_BYTES = 128"
definition MAX_DIAGNOSTIC_BYTES :: nat where [const_defs]: "MAX_DIAGNOSTIC_BYTES = 256"
definition MAX_CAPABILITIES :: nat where [const_defs]: "MAX_CAPABILITIES = 32"
definition MAX_TARGET_HOST_BYTES :: nat where [const_defs]: "MAX_TARGET_HOST_BYTES = 253"
definition MAX_AUTH_TOKEN_BYTES :: nat where [const_defs]: "MAX_AUTH_TOKEN_BYTES = 4096"
definition PROTOCOL_MAJOR :: u16 where [const_defs]: "PROTOCOL_MAJOR = 1"
definition PROTOCOL_MINOR :: u16 where [const_defs]: "PROTOCOL_MINOR = 1"
definition CAPABILITY_REGISTER_REJECT :: u16 where
  [const_defs]: "CAPABILITY_REGISTER_REJECT = 1"
definition CAPABILITY_DRAIN_DEADLINE :: u16 where
  [const_defs]: "CAPABILITY_DRAIN_DEADLINE = 2"

datatype protocol_error =
    InvalidMagic
  | UnsupportedVersion u16 u16
  | UnknownMessage u16
  | TruncatedFrame
  | FrameTooLarge
  | InvalidPayload
  | InvalidName
  | InvalidBind
  | InvalidTarget
  | UnexpectedMessage

record protocol_version =
  pv_major :: u16
  pv_minor :: u16

definition CURRENT :: protocol_version where
  "CURRENT = \<lparr>pv_major = PROTOCOL_MAJOR, pv_minor = PROTOCOL_MINOR\<rparr>"

section \<open>Identifiers\<close>

datatype session_id = SessionId bytes
datatype service_id = ServiceId u64
datatype connection_id = ConnectionId bytes

fun session_id_bytes :: "session_id \<Rightarrow> bytes" where
  "session_id_bytes (SessionId b) = b"

fun connection_id_bytes :: "connection_id \<Rightarrow> bytes" where
  "connection_id_bytes (ConnectionId b) = b"

text \<open>The constant-time comparison folds the exclusive-or of the byte pairs.\<close>

fun constant_time_eq :: "connection_id \<Rightarrow> connection_id \<Rightarrow> bool" where
  "constant_time_eq (ConnectionId a) (ConnectionId b) =
     (foldl (\<lambda>diff (x, y). diff OR (x XOR y)) 0 (zip a b) = 0)"

section \<open>Validated text\<close>

datatype service_name = ServiceName rstr

fun name_str :: "service_name \<Rightarrow> rstr" where
  "name_str (ServiceName s) = s"

definition name_byte :: "nat \<Rightarrow> bool" where
  "name_byte b \<longleftrightarrow> is_ascii_alphanumeric b \<or> b = 45 \<or> b = 95 \<or> b = 46"

definition service_name_new :: "rstr \<Rightarrow> protocol_error + service_name" where
  "service_name_new value =
     (if value = [] \<or> MAX_NAME_BYTES < str_len value \<or> \<not> list_all name_byte (str_bytes value)
      then Err InvalidName
      else Ok (ServiceName value))"

definition is_format_char :: "rchar \<Rightarrow> bool" where
  "is_format_char c \<longleftrightarrow>
     c = 0xAD \<or> (0x200B \<le> c \<and> c \<le> 0x200F) \<or> (0x2028 \<le> c \<and> c \<le> 0x202E) \<or>
     (0x2060 \<le> c \<and> c \<le> 0x2064) \<or> c = 0xFEFF"

text \<open>The characters of the literal \<open>/?#@[]\<close>, backslash, double quote, single quote and the angle
  brackets, as code points.\<close>

definition ambiguous_chars :: "rchar list" where
  "ambiguous_chars = [47, 63, 35, 64, 91, 93, 92, 34, 39, 60, 62]"

definition bad_host_char :: "rchar \<Rightarrow> bool" where
  "bad_host_char c \<longleftrightarrow>
     is_whitespace c \<or> is_control c \<or> is_format_char c \<or> c \<in> set ambiguous_chars"

definition validate_target_host :: "rstr \<Rightarrow> protocol_error + unit" where
  "validate_target_host host =
     (if host = [] \<or> MAX_TARGET_HOST_BYTES < str_len host \<or> list_ex bad_host_char host
      then Err InvalidTarget
      else if 58 \<in> set host \<and> parse_ipv6 host = None
      then Err InvalidTarget
      else Ok ())"

record tcp_target =
  tt_host :: rstr
  tt_port :: u16

definition tcp_target_new :: "rstr \<Rightarrow> u16 \<Rightarrow> protocol_error + tcp_target" where
  "tcp_target_new h p =
     and_then (validate_target_host h) (\<lambda>_.
       if p = 0 then Err InvalidTarget else Ok \<lparr>tt_host = h, tt_port = p\<rparr>)"

datatype bounded_diagnostic = BoundedDiagnostic rstr

fun diagnostic_str :: "bounded_diagnostic \<Rightarrow> rstr" where
  "diagnostic_str (BoundedDiagnostic s) = s"

definition bounded_diagnostic_new :: "rstr \<Rightarrow> protocol_error + bounded_diagnostic" where
  "bounded_diagnostic_new text =
     (if MAX_DIAGNOSTIC_BYTES < str_len text then Err InvalidPayload
      else if list_ex (\<lambda>c. is_control c \<or> is_format_char c) text then Err InvalidPayload
      else Ok (BoundedDiagnostic text))"

section \<open>Bind requests\<close>

datatype requested_bind = Loopback u16 | Ip octets u16

record effective_bind =
  eb_address :: octets
  eb_port :: u16

section \<open>Capabilities\<close>

datatype capabilities = Capabilities "u16 list"

fun caps_slice :: "capabilities \<Rightarrow> u16 list" where
  "caps_slice (Capabilities ids) = ids"

text \<open>\<open>sort_unstable\<close> on integers is sorting, \<open>dedup\<close> removes adjacent repetitions.\<close>

definition capabilities_new :: "u16 list \<Rightarrow> protocol_error + capabilities" where
  "capabilities_new ids =
     (if MAX_CAPABILITIES < length ids then Err InvalidPayload
      else Ok (Capabilities (remdups_adj (sort ids))))"

definition capabilities_supported :: capabilities where
  "capabilities_supported =
     Capabilities [CAPABILITY_REGISTER_REJECT, CAPABILITY_DRAIN_DEADLINE]"

fun intersect :: "capabilities \<Rightarrow> capabilities \<Rightarrow> capabilities" where
  "intersect (Capabilities xs) (Capabilities ys) =
     Capabilities (remdups_adj (sort (filter (\<lambda>c. c \<in> set ys) xs)))"

fun has_cap :: "capabilities \<Rightarrow> u16 \<Rightarrow> bool" where
  "has_cap (Capabilities ids) c = (c \<in> set ids)"

section \<open>Messages\<close>

text \<open>The payload structures of the message variants are the arguments of the constructors, in
  field order; the two that handlers pass around on their own are records.\<close>

record register_service =
  rs_service_id :: service_id
  rs_name :: service_name
  rs_requested_bind :: requested_bind
  rs_target :: tcp_target

record data_hello =
  dh_session_id :: session_id
  dh_service_id :: service_id
  dh_connection_id :: connection_id

datatype message =
    ClientHello protocol_version capabilities
  | ServerHello protocol_version capabilities
  | Auth bytes
  | AuthOk session_id
  | RegisterService register_service
  | RegisterAck service_id effective_bind
  | UnregisterService service_id
  | Open service_id connection_id
  | OpenReject connection_id u16
  | Ping u64
  | Pong u64
  | Drain u32
  | Error u16 bounded_diagnostic
  | DataHello data_hello
  | RegisterReject service_id u16 bounded_diagnostic

datatype message_type =
    MtClientHello | MtServerHello | MtAuth | MtAuthOk | MtRegisterService | MtRegisterAck
  | MtUnregisterService | MtOpen | MtOpenReject | MtPing | MtPong | MtDrain | MtError
  | MtDataHello | MtRegisterReject

fun message_id :: "message_type \<Rightarrow> u16" where
  "message_id MtClientHello = 1"
| "message_id MtServerHello = 2"
| "message_id MtAuth = 3"
| "message_id MtAuthOk = 4"
| "message_id MtRegisterService = 5"
| "message_id MtRegisterAck = 6"
| "message_id MtUnregisterService = 7"
| "message_id MtOpen = 8"
| "message_id MtOpenReject = 9"
| "message_id MtPing = 10"
| "message_id MtPong = 11"
| "message_id MtDrain = 12"
| "message_id MtError = 13"
| "message_id MtDataHello = 14"
| "message_id MtRegisterReject = 15"

definition message_type_try_from :: "u16 \<Rightarrow> protocol_error + message_type" where
  "message_type_try_from value =
     (if value = 1 then Ok MtClientHello
      else if value = 2 then Ok MtServerHello
      else if value = 3 then Ok MtAuth
      else if value = 4 then Ok MtAuthOk
      else if value = 5 then Ok MtRegisterService
      else if value = 6 then Ok MtRegisterAck
      else if value = 7 then Ok MtUnregisterService
      else if value = 8 then Ok MtOpen
      else if value = 9 then Ok MtOpenReject
      else if value = 10 then Ok MtPing
      else if value = 11 then Ok MtPong
      else if value = 12 then Ok MtDrain
      else if value = 13 then Ok MtError
      else if value = 14 then Ok MtDataHello
      else if value = 15 then Ok MtRegisterReject
      else Err (UnknownMessage value))"

fun kind :: "message \<Rightarrow> message_type" where
  "kind (ClientHello _ _) = MtClientHello"
| "kind (ServerHello _ _) = MtServerHello"
| "kind (Auth _) = MtAuth"
| "kind (AuthOk _) = MtAuthOk"
| "kind (RegisterService _) = MtRegisterService"
| "kind (RegisterAck _ _) = MtRegisterAck"
| "kind (UnregisterService _) = MtUnregisterService"
| "kind (Open _ _) = MtOpen"
| "kind (OpenReject _ _) = MtOpenReject"
| "kind (Ping _) = MtPing"
| "kind (Pong _) = MtPong"
| "kind (Drain _) = MtDrain"
| "kind (Error _ _) = MtError"
| "kind (DataHello _) = MtDataHello"
| "kind (RegisterReject _ _ _) = MtRegisterReject"

definition auth_new :: "bytes \<Rightarrow> protocol_error + message" where
  "auth_new token = (if MAX_AUTH_TOKEN_BYTES < length token then Err InvalidPayload else Ok (Auth token))"

section \<open>What every value of the private-field types satisfies\<close>

definition wf_name :: "service_name \<Rightarrow> bool" where
  "wf_name n \<longleftrightarrow> service_name_new (name_str n) = Ok n"

definition wf_target :: "tcp_target \<Rightarrow> bool" where
  "wf_target t \<longleftrightarrow> wf_str (tt_host t) \<and> tcp_target_new (tt_host t) (tt_port t) = Ok t"

definition wf_caps :: "capabilities \<Rightarrow> bool" where
  "wf_caps c \<longleftrightarrow>
     sorted (caps_slice c) \<and> distinct (caps_slice c) \<and> length (caps_slice c) \<le> MAX_CAPABILITIES"

definition wf_diagnostic :: "bounded_diagnostic \<Rightarrow> bool" where
  "wf_diagnostic d \<longleftrightarrow> wf_str (diagnostic_str d) \<and> bounded_diagnostic_new (diagnostic_str d) = Ok d"

fun wf_bind :: "requested_bind \<Rightarrow> bool" where
  "wf_bind (Loopback p) = True"
| "wf_bind (Ip a p) = (length a = 16)"

fun wf_message :: "message \<Rightarrow> bool" where
  "wf_message (ClientHello _ c) = wf_caps c"
| "wf_message (ServerHello _ c) = wf_caps c"
| "wf_message (Auth t) = (length t \<le> MAX_AUTH_TOKEN_BYTES)"
| "wf_message (AuthOk s) = (length (session_id_bytes s) = 16)"
| "wf_message (RegisterService r) =
     (wf_name (rs_name r) \<and> wf_bind (rs_requested_bind r) \<and> wf_target (rs_target r))"
| "wf_message (RegisterAck _ b) = (length (eb_address b) = 16)"
| "wf_message (UnregisterService _) = True"
| "wf_message (Open _ c) = (length (connection_id_bytes c) = 16)"
| "wf_message (OpenReject c _) = (length (connection_id_bytes c) = 16)"
| "wf_message (Ping _) = True"
| "wf_message (Pong _) = True"
| "wf_message (Drain _) = True"
| "wf_message (Error _ d) = wf_diagnostic d"
| "wf_message (DataHello h) =
     (length (session_id_bytes (dh_session_id h)) = 16 \<and>
      length (connection_id_bytes (dh_connection_id h)) = 16)"
| "wf_message (RegisterReject _ _ d) = wf_diagnostic d"

section \<open>Identifier comparison\<close>

lemma or_xor_eq_0: "(d OR (x XOR y) = (0::u8)) \<longleftrightarrow> d = 0 \<and> x = y"
  by (auto simp: bit_eq_iff bit_simps)

lemma foldl_or_xor_eq_0:
  "foldl (\<lambda>d (x, y). d OR (x XOR y)) (d::u8) ps = 0 \<longleftrightarrow> d = 0 \<and> (\<forall>(x, y) \<in> set ps. x = y)"
  by (induction ps arbitrary: d) (auto simp: or_xor_eq_0)

lemma zip_all_eq: "length a = length b \<Longrightarrow> (\<forall>(x, y) \<in> set (zip a b). x = y) \<longleftrightarrow> a = b"
  by (induction a b rule: list_induct2) auto

lemma constant_time_eq_iff:
  assumes "length (connection_id_bytes a) = length (connection_id_bytes b)"
  shows "constant_time_eq a b \<longleftrightarrow> a = b"
  using assms by (cases a; cases b) (simp add: foldl_or_xor_eq_0 zip_all_eq)

section \<open>Capability sets\<close>

text \<open>Sorting followed by removing adjacent repetitions is the canonical list of a set.\<close>

lemma distinct_remdups_adj_sorted: "sorted xs \<Longrightarrow> distinct (remdups_adj xs)"
  by (induction xs rule: remdups_adj.induct) (auto simp: less_le)

lemma canonical_list:
  "sorted (remdups_adj (sort xs))" "distinct (remdups_adj (sort xs))"
  "set (remdups_adj (sort xs)) = set xs" "length (remdups_adj (sort xs)) \<le> length xs"
  using remdups_adj_length [of "sort xs"]
  by (simp_all add: sorted_remdups_adj distinct_remdups_adj_sorted)

lemma canonical_list_id: "sorted xs \<Longrightarrow> distinct xs \<Longrightarrow> remdups_adj (sort xs) = xs"
  by (simp add: sorted_sort_id remdups_adj_distinct)

lemma capabilities_new_Ok:
  "capabilities_new ids = Ok c \<longleftrightarrow>
     length ids \<le> MAX_CAPABILITIES \<and> c = Capabilities (remdups_adj (sort ids))"
  by (auto simp: capabilities_new_def)

lemma capabilities_new_wf: "capabilities_new ids = Ok c \<Longrightarrow> wf_caps c \<and> set (caps_slice c) = set ids"
  using canonical_list [of ids] by (auto simp: capabilities_new_Ok wf_caps_def)

lemma capabilities_new_slice: "wf_caps c \<Longrightarrow> capabilities_new (caps_slice c) = Ok c"
  by (cases c) (simp add: capabilities_new_Ok wf_caps_def canonical_list_id)

lemma wf_caps_eqI: "wf_caps a \<Longrightarrow> wf_caps b \<Longrightarrow> set (caps_slice a) = set (caps_slice b) \<Longrightarrow> a = b"
  by (cases a; cases b) (auto simp: wf_caps_def intro: sorted_distinct_set_unique)

lemma capabilities_supported_wf [simp]: "wf_caps capabilities_supported"
  by (simp add: wf_caps_def capabilities_supported_def const_defs)

lemma has_cap_slice: "has_cap c i \<longleftrightarrow> i \<in> set (caps_slice c)"
  by (cases c) simp

lemma set_intersect [simp]:
  "set (caps_slice (intersect a b)) = set (caps_slice a) \<inter> set (caps_slice b)"
  by (cases a; cases b) (auto simp: canonical_list)

lemma length_intersect_le: "length (caps_slice (intersect a b)) \<le> length (caps_slice a)"
  by (cases a; cases b) (auto intro: order_trans [OF canonical_list(4) length_filter_le])

lemma intersect_wf [simp]: "wf_caps a \<Longrightarrow> wf_caps (intersect a b)"
  using length_intersect_le [of a b]
  by (cases a; cases b) (auto simp: wf_caps_def canonical_list)

lemma has_cap_intersect [simp]: "has_cap (intersect a b) i \<longleftrightarrow> has_cap a i \<and> has_cap b i"
  by (simp add: has_cap_slice)

section \<open>What the validators accept\<close>

lemma wf_name_facts:
  assumes "wf_name n"
  shows "name_str n \<noteq> []" "length (name_str n) \<le> MAX_NAME_BYTES"
    "str_len (name_str n) = length (name_str n)" "list_all (\<lambda>c. c < 128) (name_str n)"
proof -
  have ok: "name_str n \<noteq> []" "str_len (name_str n) \<le> MAX_NAME_BYTES"
      "list_all name_byte (str_bytes (name_str n))"
    using assms by (auto simp: wf_name_def service_name_new_def not_less split: if_splits)
  then have "list_all (\<lambda>c. c < 128) (name_str n)"
    by (subst (asm) list_all_str_bytes)
       (auto simp: name_byte_def list_all_iff dest: ascii_alnum_lt_128)
  with ok show "name_str n \<noteq> []" "length (name_str n) \<le> MAX_NAME_BYTES"
    "str_len (name_str n) = length (name_str n)" "list_all (\<lambda>c. c < 128) (name_str n)"
    using length_le_str_len [of "name_str n"] by (auto simp: str_len_ascii)
qed

lemma wf_name_str: "wf_name n \<Longrightarrow> wf_str (name_str n)"
  using wf_name_facts(4) [of n] by (fastforce simp: wf_str_def is_scalar_def list_all_iff)

lemma service_name_new_wf: "service_name_new s = Ok n \<Longrightarrow> wf_name n \<and> name_str n = s"
  by (auto simp: wf_name_def service_name_new_def split: if_splits)

lemma validate_target_host_Ok:
  "validate_target_host h = Ok u \<longleftrightarrow>
     h \<noteq> [] \<and> str_len h \<le> MAX_TARGET_HOST_BYTES \<and> list_all (\<lambda>c. \<not> bad_host_char c) h \<and>
     (58 \<in> set h \<longrightarrow> parse_ipv6 h \<noteq> None)"
  by (auto simp: validate_target_host_def list_ex_iff list_all_iff)

lemma tcp_target_new_Ok:
  "tcp_target_new h p = Ok t \<longleftrightarrow>
     validate_target_host h = Ok () \<and> p \<noteq> 0 \<and> t = \<lparr>tt_host = h, tt_port = p\<rparr>"
  by (auto simp: tcp_target_new_def and_then_eq_Ok)

lemma tcp_target_new_error: "tcp_target_new h p = Err e \<Longrightarrow> e = InvalidTarget"
  by (auto simp: tcp_target_new_def validate_target_host_def and_then_def split: if_splits)

lemma tcp_target_new_wf: "wf_str h \<Longrightarrow> tcp_target_new h p = Ok t \<Longrightarrow> wf_target t"
  by (auto simp: wf_target_def tcp_target_new_Ok)

lemma wf_target_facts:
  "wf_target t \<Longrightarrow> wf_str (tt_host t) \<and> str_len (tt_host t) \<le> MAX_TARGET_HOST_BYTES \<and> tt_port t \<noteq> 0"
  by (auto simp: wf_target_def tcp_target_new_Ok validate_target_host_Ok)

lemma bounded_diagnostic_new_wf:
  "wf_str s \<Longrightarrow> bounded_diagnostic_new s = Ok d \<Longrightarrow> wf_diagnostic d \<and> diagnostic_str d = s"
  by (auto simp: wf_diagnostic_def bounded_diagnostic_new_def split: if_splits)

lemma wf_diagnostic_facts:
  "wf_diagnostic d \<Longrightarrow> wf_str (diagnostic_str d) \<and> str_len (diagnostic_str d) \<le> MAX_DIAGNOSTIC_BYTES"
  by (auto simp: wf_diagnostic_def bounded_diagnostic_new_def split: if_splits)

section \<open>Message types\<close>

lemma message_type_round_trip [simp]: "message_type_try_from (message_id k) = Ok k"
  by (cases k) (simp_all add: message_type_try_from_def)

lemma message_type_try_from_Ok: "message_type_try_from v = Ok k \<longleftrightarrow> v = message_id k"
  by (cases k) (auto simp: message_type_try_from_def)

lemma message_id_inj: "message_id a = message_id b \<longleftrightarrow> a = b"
  by (metis message_type_round_trip sum.inject(2))

section \<open>Properties\<close>

text \<open>C23: capability lists are canonical set representations. Construction yields a sorted,
  duplicate-free list of at most \<open>MAX_CAPABILITIES\<close> identifiers with exactly the identifiers
  given, two constructions agree exactly when their inputs have the same members, and the
  bilateral intersection is set intersection, well-formed and symmetric.\<close>

theorem capabilities_canonical:
  assumes "capabilities_new xs = Ok a" and "capabilities_new ys = Ok b"
  shows "wf_caps a \<and> set (caps_slice a) = set xs \<and> (a = b \<longleftrightarrow> set xs = set ys) \<and>
    wf_caps (intersect a b) \<and> set (caps_slice (intersect a b)) = set xs \<inter> set ys \<and>
    intersect a b = intersect b a"
proof -
  note a = capabilities_new_wf [OF assms(1)] and b = capabilities_new_wf [OF assms(2)]
  have "intersect a b = intersect b a"
    using a b by (intro wf_caps_eqI) auto
  with a b show ?thesis
    by (auto intro: wf_caps_eqI)
qed

theorem capabilities_canonical_witness:
  "intersect (Capabilities [1, 2, 9]) (Capabilities [2, 9, 40]) =
     intersect (Capabilities [2, 9, 40]) (Capabilities [1, 2, 9])"
proof -
  have "capabilities_new [9, 2, 1, 2] = Ok (Capabilities [1, 2, 9])"
       "capabilities_new [40, 9, 2] = Ok (Capabilities [2, 9, 40])"
    by (simp_all add: capabilities_new_def const_defs word_le_nat_alt)
  from capabilities_canonical [OF this] show ?thesis by blast
qed



end
