(* ===== verification/Frame.thy ===== *)
theory Frame
  imports Proto
begin

text \<open>
  Frames of the control and data-association protocol (\<open>encode_frame\<close> and \<open>decode_frame\<close> of
  \<open>crates/eggtunnel-proto/src/lib.rs\<close>). The payload codec is the third-party crate \<open>postcard\<close>:
  it is a parameter of the model, a serialiser and a deserialiser on the serde data model, and
  its documented behaviour is the locale \<open>postcard_codec\<close>. The derived and hand-written serde
  implementations of the message structures are \<open>message_sval\<close> and \<open>message_of_sval\<close>; the
  second one runs the validating constructors again, as \<open>#[serde(try_from)]\<close> does.
\<close>

section \<open>The serde data model and the payload codec\<close>

datatype shape =
    SU8 | SU16 | SU32 | SU64 | SStr
  | SSeq shape
  | STuple "shape list"
  | SEnum "shape list"

datatype sval =
    VU8 u8 | VU16 u16 | VU32 u32 | VU64 u64 | VStr rstr
  | VSeq "sval list"
  | VTuple "sval list"
  | VVariant nat sval

text \<open>The values a Rust type of a given shape has. Lengths fit \<open>usize\<close>, variant indices fit
  \<open>u32\<close>, strings hold scalar values.\<close>

fun has_shape :: "shape \<Rightarrow> sval \<Rightarrow> bool" and has_shapes :: "shape list \<Rightarrow> sval list \<Rightarrow> bool" where
  "has_shape SU8 (VU8 _) = True"
| "has_shape SU16 (VU16 _) = True"
| "has_shape SU32 (VU32 _) = True"
| "has_shape SU64 (VU64 _) = True"
| "has_shape SStr (VStr s) = (wf_str s \<and> str_len s < 2 ^ 64)"
| "has_shape (SSeq s) (VSeq vs) = (list_all (has_shape s) vs \<and> length vs < 2 ^ 64)"
| "has_shape (STuple ss) (VTuple vs) = has_shapes ss vs"
| "has_shape (SEnum ss) (VVariant i v) =
     (i < length ss \<and> length ss \<le> 2 ^ 32 \<and> has_shape (ss ! i) v)"
| "has_shape _ _ = False"
| "has_shapes [] [] = True"
| "has_shapes (s # ss) (v # vs) = (has_shape s v \<and> has_shapes ss vs)"
| "has_shapes _ _ = False"

text \<open>An upper bound on the size of a value: a byte is one byte, the wider integers are variable
  length groups of seven bits, strings and sequences carry a length, an enumeration its index.\<close>

fun max_size :: "sval \<Rightarrow> nat" where
  "max_size (VU8 _) = 1"
| "max_size (VU16 _) = 3"
| "max_size (VU32 _) = 5"
| "max_size (VU64 _) = 10"
| "max_size (VStr s) = 10 + str_len s"
| "max_size (VSeq vs) = 10 + sum_list (map max_size vs)"
| "max_size (VTuple vs) = sum_list (map max_size vs)"
| "max_size (VVariant _ v) = 5 + max_size v"

record postcard =
  to_allocvec :: "sval \<Rightarrow> bytes option"
  take_from_bytes :: "shape \<Rightarrow> bytes \<Rightarrow> (sval \<times> bytes) option"

section \<open>Serde images of the protocol types\<close>

abbreviation array16_shape :: shape where
  "array16_shape \<equiv> STuple (replicate 16 SU8)"

definition array16_sval :: "bytes \<Rightarrow> sval" where
  "array16_sval b = VTuple (map VU8 b)"

fun version_sval :: "protocol_version \<Rightarrow> sval" where
  "version_sval v = VTuple [VU16 (pv_major v), VU16 (pv_minor v)]"

fun caps_sval :: "capabilities \<Rightarrow> sval" where
  "caps_sval (Capabilities ids) = VSeq (map VU16 ids)"

fun bind_sval :: "requested_bind \<Rightarrow> sval" where
  "bind_sval (Loopback p) = VVariant 0 (VTuple [VU16 p])"
| "bind_sval (Ip a p) = VVariant 1 (VTuple [array16_sval a, VU16 p])"

fun service_id_sval :: "service_id \<Rightarrow> sval" where
  "service_id_sval (ServiceId n) = VU64 n"

fun message_sval :: "message \<Rightarrow> sval" where
  "message_sval (ClientHello v c) = VTuple [version_sval v, caps_sval c]"
| "message_sval (ServerHello v c) = VTuple [version_sval v, caps_sval c]"
| "message_sval (Auth t) = VTuple [VSeq (map VU8 t)]"
| "message_sval (AuthOk s) = VTuple [array16_sval (session_id_bytes s)]"
| "message_sval (RegisterService r) =
     VTuple [service_id_sval (rs_service_id r), VStr (name_str (rs_name r)),
       bind_sval (rs_requested_bind r),
       VTuple [VStr (tt_host (rs_target r)), VU16 (tt_port (rs_target r))]]"
| "message_sval (RegisterAck i b) =
     VTuple [service_id_sval i, VTuple [array16_sval (eb_address b), VU16 (eb_port b)]]"
| "message_sval (UnregisterService i) = VTuple [service_id_sval i]"
| "message_sval (Open i c) = VTuple [service_id_sval i, array16_sval (connection_id_bytes c)]"
| "message_sval (OpenReject c n) = VTuple [array16_sval (connection_id_bytes c), VU16 n]"
| "message_sval (Ping n) = VTuple [VU64 n]"
| "message_sval (Pong n) = VTuple [VU64 n]"
| "message_sval (Drain d) = VTuple [VU32 d]"
| "message_sval (Error n d) = VTuple [VU16 n, VStr (diagnostic_str d)]"
| "message_sval (DataHello h) =
     VTuple [array16_sval (session_id_bytes (dh_session_id h)), service_id_sval (dh_service_id h),
       array16_sval (connection_id_bytes (dh_connection_id h))]"
| "message_sval (RegisterReject i n d) =
     VTuple [service_id_sval i, VU16 n, VStr (diagnostic_str d)]"

fun message_shape :: "message_type \<Rightarrow> shape" where
  "message_shape MtClientHello = STuple [STuple [SU16, SU16], SSeq SU16]"
| "message_shape MtServerHello = STuple [STuple [SU16, SU16], SSeq SU16]"
| "message_shape MtAuth = STuple [SSeq SU8]"
| "message_shape MtAuthOk = STuple [array16_shape]"
| "message_shape MtRegisterService =
     STuple [SU64, SStr, SEnum [STuple [SU16], STuple [array16_shape, SU16]], STuple [SStr, SU16]]"
| "message_shape MtRegisterAck = STuple [SU64, STuple [array16_shape, SU16]]"
| "message_shape MtUnregisterService = STuple [SU64]"
| "message_shape MtOpen = STuple [SU64, array16_shape]"
| "message_shape MtOpenReject = STuple [array16_shape, SU16]"
| "message_shape MtPing = STuple [SU64]"
| "message_shape MtPong = STuple [SU64]"
| "message_shape MtDrain = STuple [SU32]"
| "message_shape MtError = STuple [SU16, SStr]"
| "message_shape MtDataHello = STuple [array16_shape, SU64, array16_shape]"
| "message_shape MtRegisterReject = STuple [SU64, SU16, SStr]"

text \<open>Accessors of the components of a value, total; the deserialiser only hands out values of
  the shape asked for, on which the defaults play no role.\<close>

fun fld :: "sval \<Rightarrow> nat \<Rightarrow> sval" where
  "fld (VTuple vs) i = (if i < length vs then vs ! i else VU8 0)"
| "fld _ i = VU8 0"

fun u8_of_sval :: "sval \<Rightarrow> u8" where
  "u8_of_sval (VU8 b) = b"
| "u8_of_sval _ = 0"

fun u16_of_sval :: "sval \<Rightarrow> u16" where
  "u16_of_sval (VU16 w) = w"
| "u16_of_sval _ = 0"

fun u32_of_sval :: "sval \<Rightarrow> u32" where
  "u32_of_sval (VU32 w) = w"
| "u32_of_sval _ = 0"

fun u64_of_sval :: "sval \<Rightarrow> u64" where
  "u64_of_sval (VU64 w) = w"
| "u64_of_sval _ = 0"

fun str_of_sval :: "sval \<Rightarrow> rstr" where
  "str_of_sval (VStr s) = s"
| "str_of_sval _ = []"

fun seq_of_sval :: "sval \<Rightarrow> sval list" where
  "seq_of_sval (VSeq vs) = vs"
| "seq_of_sval _ = []"

fun array16_of_sval :: "sval \<Rightarrow> bytes" where
  "array16_of_sval (VTuple vs) = map u8_of_sval vs"
| "array16_of_sval _ = []"

definition version_of_sval :: "sval \<Rightarrow> protocol_version" where
  "version_of_sval v = \<lparr>pv_major = u16_of_sval (fld v 0), pv_minor = u16_of_sval (fld v 1)\<rparr>"

definition caps_of_sval :: "sval \<Rightarrow> protocol_error + capabilities" where
  "caps_of_sval v = capabilities_new (map u16_of_sval (seq_of_sval v))"

fun bind_of_sval :: "sval \<Rightarrow> requested_bind" where
  "bind_of_sval (VVariant i v) =
     (if i = 0 then Loopback (u16_of_sval (fld v 0))
      else Ip (array16_of_sval (fld v 0)) (u16_of_sval (fld v 1)))"
| "bind_of_sval _ = Loopback 0"

definition target_of_sval :: "sval \<Rightarrow> protocol_error + tcp_target" where
  "target_of_sval v = tcp_target_new (str_of_sval (fld v 0)) (u16_of_sval (fld v 1))"

text \<open>\<open>bounded_bytes\<close>: the token is deserialised as a vector and its length checked.\<close>

definition bounded_bytes :: "sval \<Rightarrow> protocol_error + bytes" where
  "bounded_bytes v =
     (let value = map u8_of_sval (seq_of_sval v)
      in if MAX_AUTH_TOKEN_BYTES < length value then Err InvalidPayload else Ok value)"

fun message_of_sval :: "message_type \<Rightarrow> sval \<Rightarrow> protocol_error + message" where
  "message_of_sval MtClientHello v =
     and_then (caps_of_sval (fld v 1)) (\<lambda>caps. Ok (ClientHello (version_of_sval (fld v 0)) caps))"
| "message_of_sval MtServerHello v =
     and_then (caps_of_sval (fld v 1)) (\<lambda>caps. Ok (ServerHello (version_of_sval (fld v 0)) caps))"
| "message_of_sval MtAuth v = and_then (bounded_bytes (fld v 0)) (\<lambda>token. Ok (Auth token))"
| "message_of_sval MtAuthOk v = Ok (AuthOk (SessionId (array16_of_sval (fld v 0))))"
| "message_of_sval MtRegisterService v =
     and_then (service_name_new (str_of_sval (fld v 1))) (\<lambda>name.
     and_then (target_of_sval (fld v 3)) (\<lambda>target.
       Ok (RegisterService \<lparr>rs_service_id = ServiceId (u64_of_sval (fld v 0)), rs_name = name,
         rs_requested_bind = bind_of_sval (fld v 2), rs_target = target\<rparr>)))"
| "message_of_sval MtRegisterAck v =
     Ok (RegisterAck (ServiceId (u64_of_sval (fld v 0)))
       \<lparr>eb_address = array16_of_sval (fld (fld v 1) 0), eb_port = u16_of_sval (fld (fld v 1) 1)\<rparr>)"
| "message_of_sval MtUnregisterService v =
     Ok (UnregisterService (ServiceId (u64_of_sval (fld v 0))))"
| "message_of_sval MtOpen v =
     Ok (Open (ServiceId (u64_of_sval (fld v 0))) (ConnectionId (array16_of_sval (fld v 1))))"
| "message_of_sval MtOpenReject v =
     Ok (OpenReject (ConnectionId (array16_of_sval (fld v 0))) (u16_of_sval (fld v 1)))"
| "message_of_sval MtPing v = Ok (Ping (u64_of_sval (fld v 0)))"
| "message_of_sval MtPong v = Ok (Pong (u64_of_sval (fld v 0)))"
| "message_of_sval MtDrain v = Ok (Drain (u32_of_sval (fld v 0)))"
| "message_of_sval MtError v =
     and_then (bounded_diagnostic_new (str_of_sval (fld v 1))) (\<lambda>d.
       Ok (Error (u16_of_sval (fld v 0)) d))"
| "message_of_sval MtDataHello v =
     Ok (DataHello \<lparr>dh_session_id = SessionId (array16_of_sval (fld v 0)),
       dh_service_id = ServiceId (u64_of_sval (fld v 1)),
       dh_connection_id = ConnectionId (array16_of_sval (fld v 2))\<rparr>)"
| "message_of_sval MtRegisterReject v =
     and_then (bounded_diagnostic_new (str_of_sval (fld v 2))) (\<lambda>d.
       Ok (RegisterReject (ServiceId (u64_of_sval (fld v 0))) (u16_of_sval (fld v 1)) d))"

section \<open>Frames\<close>

definition encode_payload :: "postcard \<Rightarrow> message \<Rightarrow> protocol_error + bytes" where
  "encode_payload pc m = ok_or InvalidPayload (to_allocvec pc (message_sval m))"

definition u32_try_from :: "nat \<Rightarrow> u32 option" where
  "u32_try_from n = (if n < 2 ^ 32 then Some (of_nat n) else None)"

definition encode_frame :: "postcard \<Rightarrow> message \<Rightarrow> protocol_error + bytes" where
  "encode_frame pc m =
     and_then (encode_payload pc m) (\<lambda>payload.
       if MAX_FRAME_BYTES < length payload then Err FrameTooLarge
       else and_then (ok_or FrameTooLarge (u32_try_from (length payload))) (\<lambda>payload_len.
         Ok (MAGIC @ be16 PROTOCOL_MAJOR @ be16 PROTOCOL_MINOR @ be16 (message_id (kind m)) @
             be32 payload_len @ payload)))"

text \<open>The macro \<open>dec!\<close>. Deserialisation validates while it reads; both its failure and trailing
  bytes are \<open>InvalidPayload\<close>.\<close>

definition decode_payload :: "postcard \<Rightarrow> message_type \<Rightarrow> bytes \<Rightarrow> protocol_error + message" where
  "decode_payload pc k payload =
     (case take_from_bytes pc (message_shape k) payload of
        None \<Rightarrow> Err InvalidPayload
      | Some (v, trailing) \<Rightarrow>
          and_then (map_err (\<lambda>_. InvalidPayload) (message_of_sval k v)) (\<lambda>m.
            if trailing \<noteq> [] then Err InvalidPayload else Ok m))"

definition usize_checked_add :: "nat \<Rightarrow> nat \<Rightarrow> nat option" where
  "usize_checked_add a b = (if a + b < 2 ^ 64 then Some (a + b) else None)"

definition decode_frame :: "postcard \<Rightarrow> bytes \<Rightarrow> protocol_error + (message \<times> nat)" where
  "decode_frame pc input =
     (if length input < HEADER_LEN then Err TruncatedFrame
      else if take 4 input \<noteq> MAGIC then Err InvalidMagic
      else
        let major = of_be16 (input ! 4) (input ! 5);
            minor = of_be16 (input ! 6) (input ! 7)
        in if major \<noteq> PROTOCOL_MAJOR then Err (UnsupportedVersion major minor)
        else and_then (message_type_try_from (of_be16 (input ! 8) (input ! 9))) (\<lambda>k.
          let len = unat (of_be32 (input ! 10) (input ! 11) (input ! 12) (input ! 13))
          in if MAX_FRAME_BYTES < len then Err FrameTooLarge
          else and_then (ok_or FrameTooLarge (usize_checked_add HEADER_LEN len)) (\<lambda>total.
            if length input < total then Err TruncatedFrame
            else and_then (decode_payload pc k (drop HEADER_LEN (take total input))) (\<lambda>m.
              Ok (m, total)))))"

text \<open>The header of a frame with any minor version.\<close>

definition header :: "u16 \<Rightarrow> u16 \<Rightarrow> nat \<Rightarrow> bytes" where
  "header v k n = MAGIC @ be16 PROTOCOL_MAJOR @ be16 v @ be16 k @ be32 (of_nat n)"

section \<open>The contract of the payload codec\<close>

text \<open>What the protocol relies on: values of a type serialise, the image is self-delimiting and
  reads back, and a successful read yields a value of the type and the unread rest.\<close>

locale postcard_codec =
  fixes pc :: postcard
  assumes serialises: "has_shape s v \<Longrightarrow> \<exists>b. to_allocvec pc v = Some b"
    and reads_back: "has_shape s v \<Longrightarrow> to_allocvec pc v = Some b \<Longrightarrow>
      take_from_bytes pc s (b @ rest) = Some (v, rest)"
    and reads_shape: "take_from_bytes pc s b = Some (v, rest) \<Longrightarrow> has_shape s v"

locale postcard_bounded = postcard_codec +
  assumes size_le: "has_shape s v \<Longrightarrow> to_allocvec pc v = Some b \<Longrightarrow> length b \<le> max_size v"

section \<open>Serde images\<close>

lemma has_shapes_replicate [simp]:
  "has_shapes (replicate n s) vs \<longleftrightarrow> length vs = n \<and> list_all (has_shape s) vs"
proof (induction n arbitrary: vs)
  case (Suc n)
  then show ?case by (cases vs) auto
qed (auto elim: has_shapes.elims)

lemma has_shape_u8_map: "list_all (has_shape SU8) vs \<Longrightarrow> map VU8 (map u8_of_sval vs) = vs"
  by (induction vs) (auto elim: has_shape.elims)

lemma id_bytes_eta [simp]:
  "SessionId (session_id_bytes s) = s" "ConnectionId (connection_id_bytes c) = c"
  by (cases s, simp) (cases c, simp)

lemma array16_round_trip [simp]: "array16_of_sval (array16_sval b) = b"
  by (simp add: array16_sval_def o_def)

lemma array16_of_sval_length: "has_shape array16_shape v \<Longrightarrow> length (array16_of_sval v) = 16"
  by (cases v) (simp_all add: has_shapes_replicate)

lemma tuple_shapeE:
  "has_shape (STuple ss) v \<Longrightarrow> (\<And>vs. v = VTuple vs \<Longrightarrow> has_shapes ss vs \<Longrightarrow> P) \<Longrightarrow> P"
  by (cases v) auto

lemma has_shapes_Cons: "has_shapes (s # ss) vs \<longleftrightarrow> (\<exists>v us. vs = v # us \<and> has_shape s v \<and> has_shapes ss us)"
  by (cases vs) auto

lemma has_shapes_Nil: "has_shapes [] vs \<longleftrightarrow> vs = []"
  by (cases vs) auto

lemma str_shape: "has_shape SStr v \<longleftrightarrow> (\<exists>s. v = VStr s \<and> wf_str s \<and> str_len s < 2 ^ 64)"
  by (cases v) auto

lemma wf_bind_of_sval:
  assumes "has_shape (SEnum [STuple [SU16], STuple [array16_shape, SU16]]) v"
  shows "wf_bind (bind_of_sval v)"
proof -
  obtain i w where v: "v = VVariant i w" and i: "i < 2"
    and w: "has_shape ([STuple [SU16], STuple [array16_shape, SU16]] ! i) w"
    using assms by (cases v) auto
  then show ?thesis
    by (cases "i = 0") (auto simp: less_2_cases_iff has_shapes_Cons has_shapes_Nil
        array16_of_sval_length elim!: tuple_shapeE)
qed

lemma bind_round_trip [simp]: "bind_of_sval (bind_sval b) = b"
  by (cases b) simp_all

lemma service_id_sval_simps [simp]:
  "has_shape SU64 (service_id_sval i)" "ServiceId (u64_of_sval (service_id_sval i)) = i"
  "max_size (service_id_sval i) = 10"
  by (cases i; simp)+

lemma caps_round_trip [simp]: "wf_caps c \<Longrightarrow> caps_of_sval (caps_sval c) = Ok c"
  using capabilities_new_slice [of c] by (cases c) (simp add: caps_of_sval_def o_def)

lemma caps_sval_shape [simp]: "wf_caps c \<Longrightarrow> has_shape (SSeq SU16) (caps_sval c)"
  by (cases c) (auto simp: wf_caps_def const_defs list_all_iff)

lemma wf_name_shape [simp]: "wf_name n \<Longrightarrow> wf_str (name_str n)" "wf_name n \<Longrightarrow> str_len (name_str n) < 18446744073709551616"
  using wf_name_facts [of n] wf_name_str [of n] by (simp_all add: const_defs)

lemma bind_sval_shape:
  "wf_bind b \<Longrightarrow> has_shape (SEnum [STuple [SU16], STuple [array16_shape, SU16]]) (bind_sval b)"
  by (cases b) (simp_all add: array16_sval_def list_all_iff)

lemma message_sval_shape:
  "wf_message m \<Longrightarrow> has_shape (message_shape (kind m)) (message_sval m)"
  by (cases m) (auto simp: array16_sval_def bind_sval_shape const_defs list_all_iff
      dest: wf_target_facts wf_diagnostic_facts)

lemma wf_target_round_trip: "wf_target t \<Longrightarrow> tcp_target_new (tt_host t) (tt_port t) = Ok t"
  by (simp add: wf_target_def)

lemma message_round_trip: "wf_message m \<Longrightarrow> message_of_sval (kind m) (message_sval m) = Ok m"
  by (cases m) (auto simp: version_of_sval_def bounded_bytes_def target_of_sval_def wf_name_def
      wf_target_def wf_diagnostic_def o_def Let_def)

lemma register_of_sval_wf:
  assumes "has_shape (message_shape MtRegisterService) v"
    and "message_of_sval MtRegisterService v = Ok m"
  shows "wf_message m \<and> kind m = MtRegisterService"
proof -
  obtain i n b h p where v: "v = VTuple [i, VStr n, b, VTuple [VStr h, p]]" and h: "wf_str h"
    and b: "wf_bind (bind_of_sval b)"
    using assms(1) by (auto simp: has_shapes_Cons has_shapes_Nil str_shape wf_bind_of_sval
        elim!: tuple_shapeE simp del: has_shape.simps(5,8))
  with assms(2) obtain name target where m: "m = RegisterService \<lparr>rs_service_id = ServiceId (u64_of_sval i),
      rs_name = name, rs_requested_bind = bind_of_sval b, rs_target = target\<rparr>"
    and "service_name_new n = Ok name" "tcp_target_new h (u16_of_sval p) = Ok target"
    by (auto simp: and_then_eq_Ok target_of_sval_def)
  with h b show ?thesis
    by (simp add: service_name_new_wf tcp_target_new_wf)
qed

lemma message_of_sval_wf:
  assumes "has_shape (message_shape k) v" and "message_of_sval k v = Ok m"
  shows "wf_message m \<and> kind m = k"
proof (cases "k = MtRegisterService")
  case True
  with assms show ?thesis by (metis register_of_sval_wf)
next
  case False
  with assms show ?thesis
    by (cases k) (auto simp: and_then_eq_Ok has_shapes_Cons has_shapes_Nil str_shape
      caps_of_sval_def bounded_bytes_def Let_def split: if_splits elim!: tuple_shapeE
      simp del: has_shape.simps(5,8) dest: capabilities_new_wf bounded_diagnostic_new_wf)
qed

section \<open>Payloads\<close>

text \<open>A list is no longer than its UTF-8 image, and a sequence of bounded values is bounded.\<close>

lemma max_size_maps [simp]:
  "max_size (array16_sval b) = length b" "max_size (VSeq (map VU8 t)) = 10 + length t"
  "max_size (caps_sval c) = 10 + 3 * length (caps_slice c)"
  by (simp_all add: array16_sval_def o_def sum_list_triv) (cases c, simp add: o_def sum_list_triv)

lemma max_size_bind: "wf_bind b \<Longrightarrow> max_size (bind_sval b) \<le> 24"
  by (cases b) simp_all

lemma register_size_le: "wf_message (RegisterService r) \<Longrightarrow> max_size (message_sval (RegisterService r)) \<le> 1000"
  using wf_name_facts [of "rs_name r"] max_size_bind [of "rs_requested_bind r"]
    wf_target_facts [of "rs_target r"]
  by (simp add: const_defs)

lemma message_size_le:
  assumes "wf_message m"
  shows "max_size (message_sval m) \<le> MAX_FRAME_BYTES"
proof (cases m)
  case (RegisterService r)
  with assms show ?thesis
    using register_size_le [of r] by (simp add: const_defs del: message_sval.simps)
next
  case (Error n d)
  with assms show ?thesis using wf_diagnostic_facts [of d] by (simp add: const_defs)
next
  case (RegisterReject i n d)
  with assms show ?thesis using wf_diagnostic_facts [of d] by (simp add: const_defs)
qed (use assms in \<open>auto simp: const_defs wf_caps_def o_def sum_list_triv\<close>)

context postcard_codec
begin

lemma payload_round_trip:
  assumes "wf_message m"
  shows "\<exists>b. encode_payload pc m = Ok b \<and> to_allocvec pc (message_sval m) = Some b \<and>
    decode_payload pc (kind m) b = Ok m"
proof -
  note sh = message_sval_shape [OF assms]
  obtain b where b: "to_allocvec pc (message_sval m) = Some b"
    using serialises [OF sh] by blast
  with reads_back [OF sh b, of "[]"] show ?thesis
    by (simp add: encode_payload_def decode_payload_def message_round_trip [OF assms])
qed

lemma decode_payload_wf: "decode_payload pc k b = Ok m \<Longrightarrow> wf_message m \<and> kind m = k"
  by (auto simp: decode_payload_def and_then_eq_Ok map_err_eq_Ok split: option.splits if_splits
      dest!: reads_shape dest: message_of_sval_wf)

end

context postcard_bounded
begin

lemma payload_fits:
  assumes "wf_message m"
  shows "\<exists>b. encode_payload pc m = Ok b \<and> length b \<le> MAX_FRAME_BYTES \<and>
    decode_payload pc (kind m) b = Ok m"
  using payload_round_trip [OF assms] size_le [OF message_sval_shape [OF assms]] message_size_le [OF assms] order_trans by blast

end

section \<open>Frames\<close>

lemma u32_try_from_Some: "u32_try_from n = Some w \<longleftrightarrow> n < 2 ^ 32 \<and> w = of_nat n"
  by (auto simp: u32_try_from_def)

lemma total_length [simp]:
  "len \<le> MAX_FRAME_BYTES \<Longrightarrow> usize_checked_add HEADER_LEN len = Some (HEADER_LEN + len)"
  by (simp add: usize_checked_add_def const_defs)

lemma header_facts [simp]:
  "length (header v k n) = HEADER_LEN" "take 4 (header v k n) = MAGIC"
  "of_be16 (header v k n ! 4) (header v k n ! 5) = PROTOCOL_MAJOR"
  "of_be16 (header v k n ! 6) (header v k n ! 7) = v"
  "of_be16 (header v k n ! 8) (header v k n ! 9) = k"
  "n \<le> MAX_FRAME_BYTES \<Longrightarrow> unat (of_be32 (header v k n ! 10) (header v k n ! 11)
     (header v k n ! 12) (header v k n ! 13)) = n"
  by (simp_all add: header_def MAGIC_def be16_def be32_def HEADER_LEN_def MAX_FRAME_BYTES_def
      unat_of_nat)

lemma encode_frame_Ok:
  "encode_frame pc m = Ok f \<longleftrightarrow>
     (\<exists>b. encode_payload pc m = Ok b \<and> length b \<le> MAX_FRAME_BYTES \<and>
       f = header PROTOCOL_MINOR (message_id (kind m)) (length b) @ b)"
proof -
  have "length b \<le> MAX_FRAME_BYTES \<Longrightarrow> length b < 2 ^ 32" for b :: bytes
    by (simp add: const_defs)
  then show ?thesis
    by (cases "encode_payload pc m")
       (auto simp: encode_frame_def header_def u32_try_from_def not_less)
qed

lemma encode_frame_length:
  "encode_frame pc m = Ok f \<Longrightarrow> HEADER_LEN \<le> length f \<and> length f \<le> HEADER_LEN + MAX_FRAME_BYTES"
  by (auto simp: encode_frame_Ok)

text \<open>Decoding looks at the fourteen header bytes, then at as many bytes as they announce.\<close>

lemma decode_frame_split:
  assumes "length h = HEADER_LEN"
  shows "decode_frame pc (h @ b) =
     (if take 4 h \<noteq> MAGIC then Err InvalidMagic
      else if of_be16 (h ! 4) (h ! 5) \<noteq> PROTOCOL_MAJOR
      then Err (UnsupportedVersion (of_be16 (h ! 4) (h ! 5)) (of_be16 (h ! 6) (h ! 7)))
      else and_then (message_type_try_from (of_be16 (h ! 8) (h ! 9))) (\<lambda>k.
        let len = unat (of_be32 (h ! 10) (h ! 11) (h ! 12) (h ! 13))
        in if MAX_FRAME_BYTES < len then Err FrameTooLarge
        else if length b < len then Err TruncatedFrame
        else and_then (decode_payload pc k (take len b)) (\<lambda>m. Ok (m, HEADER_LEN + len))))"
proof -
  have nth: "(h @ b) ! i = h ! i" if "i < 14" for i
    using that assms by (simp add: nth_append HEADER_LEN_def)
  have take: "take 4 (h @ b) = take 4 h"
    using assms by (simp add: HEADER_LEN_def)
  show ?thesis
    unfolding decode_frame_def take
    by (simp add: assms nth Let_def not_less cong: if_cong)
qed

lemma decode_frame_short: "length h < HEADER_LEN \<Longrightarrow> decode_frame pc h = Err TruncatedFrame"
  by (simp add: decode_frame_def)

lemma split_header:
  assumes "HEADER_LEN \<le> length input"
  obtains h b where "input = h @ b" and "length h = HEADER_LEN"
  using assms by (metis append_take_drop_id length_take min.absorb2)

lemma decode_frame_assembled:
  assumes "length b \<le> MAX_FRAME_BYTES"
  shows "decode_frame pc (header v (message_id k) (length b) @ b @ rest) =
    and_then (decode_payload pc k b) (\<lambda>m. Ok (m, HEADER_LEN + length b))"
  using assms by (simp add: decode_frame_split)

lemma decode_frame_Ok_bounds:
  "decode_frame pc input = Ok (m, n) \<Longrightarrow>
     HEADER_LEN \<le> n \<and> n \<le> length input \<and> n \<le> HEADER_LEN + MAX_FRAME_BYTES"
proof (cases "HEADER_LEN \<le> length input")
  case True
  assume ok: "decode_frame pc input = Ok (m, n)"
  from True obtain h b where "input = h @ b" "length h = HEADER_LEN" by (rule split_header)
  with ok show ?thesis
    by (auto simp: decode_frame_split and_then_eq_Ok Let_def split: if_splits)
qed (simp add: decode_frame_short)

text \<open>Only the header and the announced payload matter.\<close>

lemma decode_frame_extend:
  assumes "decode_frame pc input \<noteq> Err TruncatedFrame"
  shows "decode_frame pc (input @ rest) = decode_frame pc input"
proof (cases "HEADER_LEN \<le> length input")
  case True
  then obtain h b where "input = h @ b" "length h = HEADER_LEN" by (rule split_header)
  with assms show ?thesis
    by (simp add: decode_frame_split and_then_def Let_def not_less split: if_splits sum.splits)
qed (use assms in \<open>simp add: decode_frame_short\<close>)

lemma decode_frame_cut:
  assumes "decode_frame pc input = Ok (m, n)" and "j < n"
  shows "decode_frame pc (take j input) = Err TruncatedFrame"
proof (cases "j < HEADER_LEN")
  case False
  note bounds = decode_frame_Ok_bounds [OF assms(1)]
  then obtain h b where hb: "input = h @ b" "length h = HEADER_LEN"
    using split_header [of input] by auto
  with False have "take j input = h @ take (j - HEADER_LEN) b" by simp
  with assms hb False show ?thesis
    by (auto simp: decode_frame_split and_then_eq_Ok Let_def split: if_splits)
qed (simp add: decode_frame_short)

end
