(* ===== verification/Postcard_Format.thy ===== *)
theory Postcard_Format
  imports Frame
begin

text \<open>
  A payload codec in the published wire format of \<open>postcard\<close>: bytes as themselves, wider
  integers, lengths and variant indices as little-endian groups of seven bits, strings and
  sequences behind their length, structures as the concatenation of their fields. It satisfies
  the contract \<open>postcard_bounded\<close>, so the theorems that rest on the contract are not empty, and
  it evaluates, so they can be applied to concrete messages.
\<close>

section \<open>Variable-length integers\<close>

fun varint :: "nat \<Rightarrow> bytes" where
  "varint n = (if n < 128 then [of_nat n] else of_nat (n mod 128 + 128) # varint (n div 128))"

declare varint.simps [simp del]

fun read_groups7 :: "nat \<Rightarrow> bytes \<Rightarrow> (nat \<times> bytes) option" where
  "read_groups7 0 bs = None"
| "read_groups7 (Suc k) [] = None"
| "read_groups7 (Suc k) (b # bs) =
     (if unat b < 128 then Some (unat b, bs)
      else case read_groups7 k bs of
        None \<Rightarrow> None
      | Some (n, r) \<Rightarrow> Some (unat b - 128 + 128 * n, r))"

definition read_varint :: "nat \<Rightarrow> nat \<Rightarrow> bytes \<Rightarrow> (nat \<times> bytes) option" where
  "read_varint groups width bs =
     (case read_groups7 groups bs of
        None \<Rightarrow> None
      | Some (n, r) \<Rightarrow> if n < 2 ^ width then Some (n, r) else None)"

section \<open>UTF-8\<close>

fun utf8_value :: "nat list \<Rightarrow> nat" where
  "utf8_value [a] = a"
| "utf8_value [a, b] = (a - 0xC0) * 64 + (b - 0x80)"
| "utf8_value [a, b, c] = (a - 0xE0) * 4096 + (b - 0x80) * 64 + (c - 0x80)"
| "utf8_value [a, b, c, d] =
     (a - 0xF0) * 262144 + (b - 0x80) * 4096 + (c - 0x80) * 64 + (d - 0x80)"
| "utf8_value _ = 0"

definition utf8_width :: "nat \<Rightarrow> nat" where
  "utf8_width b = (if b < 0x80 then 1 else if b < 0xE0 then 2 else if b < 0xF0 then 3 else 4)"

lemma utf8_width_pos [simp]: "0 < utf8_width b"
  by (simp add: utf8_width_def)

function utf8_decode :: "nat list \<Rightarrow> rstr option" where
  "utf8_decode [] = Some []"
| "utf8_decode (b # bs) =
     (let n = utf8_width b; c = utf8_value (take n (b # bs))
      in if is_scalar c \<and> utf8_char c = take n (b # bs)
         then map_option (Cons c) (utf8_decode (drop n (b # bs)))
         else None)"
  by pat_completeness auto
termination by (relation "measure length") (auto simp: Let_def)

section \<open>The codec\<close>

fun enc :: "sval \<Rightarrow> bytes" where
  "enc (VU8 b) = [b]"
| "enc (VU16 w) = varint (unat w)"
| "enc (VU32 w) = varint (unat w)"
| "enc (VU64 w) = varint (unat w)"
| "enc (VStr s) = varint (str_len s) @ map of_nat (str_bytes s)"
| "enc (VSeq vs) = varint (length vs) @ concat (map enc vs)"
| "enc (VTuple vs) = concat (map enc vs)"
| "enc (VVariant i v) = varint i @ enc v"

type_synonym 'a reader7 = "bytes \<Rightarrow> ('a \<times> bytes) option"

primrec repeat_read :: "nat \<Rightarrow> 'a reader7 \<Rightarrow> 'a list reader7" where
  "repeat_read 0 f bs = Some ([], bs)"
| "repeat_read (Suc n) f bs =
     (case f bs of
        None \<Rightarrow> None
      | Some (v, r) \<Rightarrow>
          (case repeat_read n f r of None \<Rightarrow> None | Some (vs, r') \<Rightarrow> Some (v # vs, r')))"

primrec read_all :: "'a reader7 list \<Rightarrow> 'a list reader7" where
  "read_all [] bs = Some ([], bs)"
| "read_all (f # fs) bs =
     (case f bs of
        None \<Rightarrow> None
      | Some (v, r) \<Rightarrow>
          (case read_all fs r of None \<Rightarrow> None | Some (vs, r') \<Rightarrow> Some (v # vs, r')))"

definition map_read :: "('a \<Rightarrow> 'b option) \<Rightarrow> ('a \<times> bytes) option \<Rightarrow> ('b \<times> bytes) option" where
  "map_read f x = (case x of None \<Rightarrow> None | Some (v, r) \<Rightarrow> map_option (\<lambda>w. (w, r)) (f v))"

definition read_u8 :: "sval reader7" where
  "read_u8 bs = (case bs of [] \<Rightarrow> None | b # r \<Rightarrow> Some (VU8 b, r))"

definition read_str :: "sval reader7" where
  "read_str bs =
     (case read_varint 10 64 bs of
        None \<Rightarrow> None
      | Some (n, r) \<Rightarrow>
          if length r < n then None
          else case utf8_decode (map unat (take n r)) of
            None \<Rightarrow> None
          | Some s \<Rightarrow> Some (VStr s, drop n r))"

primrec dec :: "shape \<Rightarrow> sval reader7" where
  "dec SU8 = read_u8"
| "dec SU16 = (\<lambda>bs. map_read (\<lambda>n. Some (VU16 (of_nat n))) (read_varint 3 16 bs))"
| "dec SU32 = (\<lambda>bs. map_read (\<lambda>n. Some (VU32 (of_nat n))) (read_varint 5 32 bs))"
| "dec SU64 = (\<lambda>bs. map_read (\<lambda>n. Some (VU64 (of_nat n))) (read_varint 10 64 bs))"
| "dec SStr = read_str"
| "dec (SSeq s) =
     (\<lambda>bs. case read_varint 10 64 bs of
        None \<Rightarrow> None
      | Some (n, r) \<Rightarrow> map_read (\<lambda>vs. Some (VSeq vs)) (repeat_read n (dec s) r))"
| "dec (STuple ss) = (\<lambda>bs. map_read (\<lambda>vs. Some (VTuple vs)) (read_all (map dec ss) bs))"
| "dec (SEnum ss) =
     (\<lambda>bs. case read_varint 5 32 bs of
        None \<Rightarrow> None
      | Some (i, r) \<Rightarrow>
          if i < length ss \<and> length ss \<le> 2 ^ 32
          then map_read (\<lambda>v. Some (VVariant i v)) ((map dec ss ! i) r)
          else None)"

definition wire_codec :: postcard where
  "wire_codec = \<lparr>to_allocvec = (\<lambda>v. Some (enc v)), take_from_bytes = dec\<rparr>"

section \<open>Laws\<close>

lemma unat_group: "unat (of_nat (n mod 128 + 128) :: u8) = n mod 128 + 128"
  using mod_less_divisor [of 128 n] by (simp add: unat_of_nat del: of_nat_add)

lemma varint_read:
  assumes "n < 128 ^ k" and "0 < k"
  shows "read_groups7 k (varint n @ rest) = Some (n, rest)"
  using assms
proof (induction k arbitrary: n)
  case (Suc k)
  show ?case
  proof (cases "n < 128")
    case True
    then show ?thesis by (simp add: varint.simps [of n] unat_of_nat)
  next
    case False
    then have "n div 128 < 128 ^ k" and "0 < k"
      using Suc.prems by (auto simp: div_less_iff_less_mult mult.commute intro: gr0I)
    then have "read_groups7 k (varint (n div 128) @ rest) = Some (n div 128, rest)"
      using Suc.IH by blast
    moreover have "varint n = of_nat (n mod 128 + 128) # varint (n div 128)"
      using varint.simps [of n] False by argo
    then obtain b where "varint n = b # varint (n div 128)" and "unat b = n mod 128 + 128"
      using unat_group [of n] by blast
    ultimately show ?thesis by simp
  qed
qed simp

lemma varint_length: "n < 128 ^ Suc k \<Longrightarrow> length (varint n) \<le> Suc k"
proof (induction k arbitrary: n)
  case (Suc k)
  then have "n div 128 < 128 ^ Suc k"
    by (simp add: div_less_iff_less_mult mult.commute)
  with Suc.IH show ?case by (subst varint.simps) simp
qed (simp add: varint.simps)

lemma read_varint_enc:
  assumes "n < 2 ^ w" and "w \<le> 7 * g" and "0 < g"
  shows "read_varint g w (varint n @ rest) = Some (n, rest)"
proof -
  have "(2::nat) ^ w \<le> 128 ^ g"
    using power_increasing [OF assms(2), of "2::nat"] by (simp add: power_mult)
  with assms(1) have "n < 128 ^ g" by linarith
  with assms show ?thesis by (simp add: read_varint_def varint_read)
qed

lemma read_varint_bound: "read_varint g w bs = Some (n, r) \<Longrightarrow> n < 2 ^ w"
  by (auto simp: read_varint_def split: option.splits if_splits)

lemma varint_sizes:
  "n < 2 ^ 16 \<Longrightarrow> length (varint n) \<le> 3" "n < 2 ^ 32 \<Longrightarrow> length (varint n) \<le> 5"
  "n < 2 ^ 64 \<Longrightarrow> length (varint n) \<le> 10"
  using varint_length [of n 2] varint_length [of n 4] varint_length [of n 9] by simp_all

lemma word_bounds [simp]:
  "unat (a :: u16) < 65536" "unat (b :: u32) < 4294967296" "unat (c :: u64) < 18446744073709551616"
  using unsigned_less [of a] unsigned_less [of b] unsigned_less [of c] by simp_all

lemma utf8_char_parts:
  assumes "is_scalar c"
  shows "utf8_width (hd (utf8_char c)) = length (utf8_char c)" "utf8_value (utf8_char c) = c"
    "list_all (\<lambda>b. b < 256) (utf8_char c)"
proof -
  define q1 q2 q3 where "q1 = c div 64" and "q2 = c div 4096" and "q3 = c div 262144"
  have q: "q2 = q1 div 64" "q3 = q2 div 64"
    by (simp_all add: q1_def q2_def q3_def div_mult2_eq [symmetric])
  have c: "c = 64 * q1 + c mod 64" "q1 = 64 * q2 + q1 mod 64" "q2 = 64 * q3 + q2 mod 64"
    "c mod 64 < 64" "q1 mod 64 < 64" "q2 mod 64 < 64"
    unfolding q by (simp_all add: q1_def)
  consider "c < 0x80" | "0x80 \<le> c" "c < 0x800" | "0x800 \<le> c" "c < 0x10000"
    | "0x10000 \<le> c" "c < 0x110000"
    using assms unfolding is_scalar_def by linarith
  then have "utf8_width (hd (utf8_char c)) = length (utf8_char c) \<and> utf8_value (utf8_char c) = c \<and>
    list_all (\<lambda>b. b < 256) (utf8_char c)"
    unfolding utf8_char_def q1_def [symmetric] q2_def [symmetric] q3_def [symmetric]
    by cases (use c in \<open>simp add: utf8_width_def; linarith?\<close>)+
  then show "utf8_width (hd (utf8_char c)) = length (utf8_char c)" "utf8_value (utf8_char c) = c"
    "list_all (\<lambda>b. b < 256) (utf8_char c)" by simp_all
qed

lemma utf8_decode_str_bytes: "wf_str s \<Longrightarrow> utf8_decode (str_bytes s) = Some s"
proof (induction s)
  case (Cons c s)
  then have c: "is_scalar c" by simp
  obtain b bs where bs: "utf8_char c = b # bs"
    using utf8_char_nonempty by (cases "utf8_char c") blast+
  note parts = utf8_char_parts [OF c, unfolded bs]
  have "take (utf8_width b) (b # bs @ str_bytes s) = b # bs"
    "drop (utf8_width b) (b # bs @ str_bytes s) = str_bytes s"
    using parts(1) by simp_all
  with Cons parts(2) c bs show ?case by (simp add: Let_def)
qed simp

lemma utf8_decode_wf: "utf8_decode b = Some s \<Longrightarrow> wf_str s \<and> str_len s = length b"
proof (induction b arbitrary: s rule: utf8_decode.induct)
  case (2 b bs)
  define n where "n = utf8_width b"
  define c where "c = utf8_value (take n (b # bs))"
  from 2(2) obtain t where "is_scalar c" and c: "utf8_char c = take n (b # bs)"
    and t: "utf8_decode (drop n (b # bs)) = Some t" and s: "s = c # t"
    by (auto simp: Let_def n_def c_def split: if_splits)
  moreover have "wf_str t \<and> str_len t = length (drop n (b # bs))"
    using 2(1) [of n c t] \<open>is_scalar c\<close> c t by (simp add: n_def c_def)
  moreover have "length (utf8_char c) + length (drop n (b # bs)) = length (b # bs)"
    unfolding c by (metis append_take_drop_id length_append)
  ultimately show ?case by simp
qed simp

lemma str_bytes_words: "wf_str s \<Longrightarrow> map unat (map of_nat (str_bytes s) :: bytes) = str_bytes s"
proof (induction s)
  case (Cons c s)
  then have "list_all (\<lambda>b. b < 256) (utf8_char c)"
    using utf8_char_parts(3) by simp
  then have "map unat (map of_nat (utf8_char c) :: bytes) = utf8_char c"
    by (auto simp: list_all_iff unat_of_nat intro: map_idI)
  with Cons show ?case by simp
qed simp

lemma read_str_enc:
  assumes "wf_str s" and "str_len s < 2 ^ 64"
  shows "read_str (enc (VStr s) @ rest) = Some (VStr s, rest)"
proof -
  have "length (map of_nat (str_bytes s) :: bytes) = str_len s"
    by (simp add: str_len_def)
  moreover have "utf8_decode (map unat (map of_nat (str_bytes s) :: bytes)) = Some s"
    using assms(1) by (simp only: str_bytes_words utf8_decode_str_bytes)
  ultimately show ?thesis
    using assms(2) by (simp add: read_str_def read_varint_enc)
qed

lemma repeat_read_enc:
  assumes "\<And>v r. v \<in> set vs \<Longrightarrow> f (enc v @ r) = Some (v, r)"
  shows "repeat_read (length vs) f (concat (map enc vs) @ rest) = Some (vs, rest)"
  using assms by (induction vs) auto

lemma dec_enc:
  "has_shape s v \<Longrightarrow> dec s (enc v @ rest) = Some (v, rest)"
  "has_shapes ss vs \<Longrightarrow> read_all (map dec ss) (concat (map enc vs) @ rest) = Some (vs, rest)"
proof (induction s v and ss vs arbitrary: rest and rest rule: has_shape_has_shapes.induct)
  case (5 s)
  then show ?case using read_str_enc [of s rest] by simp
next
  case (6 s vs)
  then have "repeat_read (length vs) (dec s) (concat (map enc vs) @ rest) = Some (vs, rest)"
    by (intro repeat_read_enc) (auto simp: list_all_iff)
  with 6 show ?case by (simp add: map_read_def read_varint_enc)
next
  case (8 ss i v)
  then have "i < 2 ^ 32" by auto
  with 8 show ?case by (simp add: map_read_def read_varint_enc)
qed (simp_all add: read_u8_def map_read_def read_varint_enc)

lemma repeat_read_all:
  assumes "\<And>b v r. f b = Some (v, r) \<Longrightarrow> P v"
  shows "repeat_read n f bs = Some (vs, r) \<Longrightarrow> length vs = n \<and> list_all P vs"
  using assms by (induction n arbitrary: bs vs r) (auto split: option.splits)

lemma read_all_shapes:
  assumes "\<And>s b v r. s \<in> set ss \<Longrightarrow> dec s b = Some (v, r) \<Longrightarrow> has_shape s v"
  shows "read_all (map dec ss) bs = Some (vs, r) \<Longrightarrow> has_shapes ss vs"
  using assms by (induction ss arbitrary: bs vs r) (auto split: option.splits)

lemma dec_shape: "dec s bs = Some (v, r) \<Longrightarrow> has_shape s v"
proof (induction s arbitrary: bs v r)
  case SStr
  then obtain n q s where "read_varint 10 64 bs = Some (n, q)" "\<not> length q < n" "v = VStr s"
    "utf8_decode (map unat (take n q)) = Some s"
    by (auto simp: read_str_def split: option.splits if_splits)
  then show ?case
    using read_varint_bound [of 10 64 bs n q] utf8_decode_wf [of "map unat (take n q)" s] by auto
next
  case (SSeq s)
  then obtain n q vs where "read_varint 10 64 bs = Some (n, q)" "v = VSeq vs"
    "repeat_read n (dec s) q = Some (vs, r)"
    by (auto simp: map_read_def split: option.splits)
  with SSeq.IH show ?case
    using read_varint_bound [of 10 64 bs n q] repeat_read_all [of "dec s" "has_shape s" n q vs r]
    by auto
next
  case (STuple ss)
  then show ?case
    using read_all_shapes [of ss] by (auto simp: map_read_def split: option.splits)
next
  case (SEnum ss)
  then show ?case by (auto simp: map_read_def split: option.splits if_splits)
qed (auto simp: read_u8_def map_read_def split: option.splits list.splits)

lemma enc_size:
  "has_shape s v \<Longrightarrow> length (enc v) \<le> max_size v"
  "has_shapes ss vs \<Longrightarrow> length (concat (map enc vs)) \<le> sum_list (map max_size vs)"
proof (induction s v and ss vs rule: has_shape_has_shapes.induct)
  case (5 s)
  then show ?case using varint_sizes(3) [of "str_len s"] by (simp add: str_len_def)
next
  case (6 s vs)
  then have "length (concat (map enc vs)) \<le> sum_list (map max_size vs)"
    by (simp add: length_concat o_def list_all_iff sum_list_mono)
  with 6 show ?case using varint_sizes(3) [of "length vs"] by simp
next
  case (8 ss i v)
  then show ?case using varint_sizes(2) [of i] by fastforce
qed (use varint_sizes in simp_all)

interpretation wire: postcard_bounded wire_codec
  by unfold_locales (auto simp: wire_codec_def intro: dec_enc(1) dec_shape enc_size(1))

end
