(* ===== verification/Frame_Correct.thy ===== *)
theory Frame_Correct
  imports Postcard_Format
begin

text \<open>
  Correctness of the frame codec: encoding never exceeds the frame ceiling and decoding inverts
  it, decoding is stable on a growing buffer, and whatever decodes is a valid message.
\<close>

lemma decode_frame_wf:
  assumes "postcard_codec pc" and "decode_frame pc input = Ok (m, n)"
  shows "wf_message m"
proof -
  have "HEADER_LEN \<le> length input"
    using assms(2) decode_frame_short [of input pc] by (cases "length input < HEADER_LEN") auto
  then obtain h b where "input = h @ b" "length h = HEADER_LEN" by (rule split_header)
  with assms(2) obtain k where "decode_payload pc k (take (n - HEADER_LEN) b) = Ok m"
    by (auto simp: decode_frame_split and_then_eq_Ok Let_def split: if_splits)
  with postcard_codec.decode_payload_wf [OF assms(1)] show ?thesis by blast
qed

lemma frame_round_trip_ex:
  assumes "postcard_bounded pc" and "wf_message m"
  shows "\<exists>f. encode_frame pc m = Ok f \<and> (\<forall>rest. decode_frame pc (f @ rest) = Ok (m, length f))"
proof -
  obtain b where "encode_payload pc m = Ok b" "length b \<le> MAX_FRAME_BYTES"
    and "decode_payload pc (kind m) b = Ok m"
    using postcard_bounded.payload_fits [OF assms] by blast
  then show ?thesis
    by (auto simp: encode_frame_Ok decode_frame_assembled)
qed

lemma sample_message_wf:
  "wf_message (RegisterService \<lparr>rs_service_id = ServiceId 7, rs_name = ServiceName (lit ''web''),
     rs_requested_bind = Loopback 8080, rs_target = \<lparr>tt_host = lit ''localhost'', tt_port = 80\<rparr>\<rparr>)"
  by (simp add: wf_name_def service_name_new_def name_byte_def is_ascii_alphanumeric_def
      is_ascii_digit_def wf_target_def tcp_target_new_def validate_target_host_def
      bad_host_char_def is_whitespace_def is_control_def is_format_char_def ambiguous_chars_def
      is_scalar_def lit_def const_defs)

section \<open>Properties\<close>

text \<open>C1: frames round-trip. Every valid message encodes to a frame, never to \<open>FrameTooLarge\<close>,
  of at most the header and \<open>MAX_FRAME_BYTES\<close>; and decoding that frame, whatever bytes follow
  it in the buffer, returns the message and consumes exactly the frame.\<close>

theorem frame_round_trip:
  assumes "postcard_bounded pc" and "wf_message m"
  shows "\<exists>f. encode_frame pc m = Ok f \<and> length f \<le> HEADER_LEN + MAX_FRAME_BYTES \<and>
    (\<forall>rest. decode_frame pc (f @ rest) = Ok (m, length f))"
  using frame_round_trip_ex [OF assms] encode_frame_length by blast

theorem frame_round_trip_witness:
  "\<exists>f. encode_frame wire_codec (RegisterService \<lparr>rs_service_id = ServiceId 7,
      rs_name = ServiceName (lit ''web''), rs_requested_bind = Loopback 8080,
      rs_target = \<lparr>tt_host = lit ''localhost'', tt_port = 80\<rparr>\<rparr>) = Ok f \<and>
    length f \<le> HEADER_LEN + MAX_FRAME_BYTES"
  using frame_round_trip [OF wire.postcard_bounded_axioms sample_message_wf] by blast

text \<open>C2: decoding is stable on a growing buffer. Once the verdict on a buffer is anything but
  \<open>TruncatedFrame\<close>, bytes appended to the buffer never change it; and a buffer that decodes has
  only truncated verdicts on its proper prefixes of the frame, so \<open>TruncatedFrame\<close> does mean
  that more bytes are needed.\<close>

theorem decode_frame_streaming:
  assumes "decode_frame pc input \<noteq> Err TruncatedFrame"
  shows "decode_frame pc (input @ rest) = decode_frame pc input \<and>
    (\<forall>m n. decode_frame pc input = Ok (m, n) \<longrightarrow>
       n \<le> length input \<and> (\<forall>j < n. decode_frame pc (take j input) = Err TruncatedFrame))"
  using decode_frame_extend [OF assms] decode_frame_Ok_bounds decode_frame_cut by blast

theorem decode_frame_streaming_witness:
  "decode_frame wire_codec ([0, 0, 0, 0, 0, 0, 0, 0, 0, 0, 0, 0, 0, 0] @ [1, 2, 3]) =
     decode_frame wire_codec [0, 0, 0, 0, 0, 0, 0, 0, 0, 0, 0, 0, 0, 0]"
proof -
  have "decode_frame wire_codec [0, 0, 0, 0, 0, 0, 0, 0, 0, 0, 0, 0, 0, 0] \<noteq> Err TruncatedFrame"
    by (simp add: decode_frame_def const_defs MAGIC_def)
  from decode_frame_streaming [OF this] show ?thesis by blast
qed

text \<open>C3: only valid messages come out of the decoder. Every message \<open>decode_frame\<close> returns
  satisfies all bounds its constructors enforce (names, hosts, ports, diagnostics, capability
  lists, token and identifier lengths), it consumed at least a header and at most one maximal
  frame of the input, and it re-encodes to a frame that decodes to the same message.\<close>

theorem decode_frame_sound:
  assumes "postcard_bounded pc" and "decode_frame pc input = Ok (m, n)"
  shows "wf_message m \<and> HEADER_LEN \<le> n \<and> n \<le> length input \<and> n \<le> HEADER_LEN + MAX_FRAME_BYTES \<and>
    (\<exists>f. encode_frame pc m = Ok f \<and> decode_frame pc f = Ok (m, length f))"
proof -
  have "postcard_codec pc"
    using assms(1) by (simp add: postcard_bounded_def)
  then have "wf_message m"
    using assms(2) by (rule decode_frame_wf)
  with frame_round_trip_ex [OF assms(1)] decode_frame_Ok_bounds [OF assms(2)] show ?thesis
    by (metis append_Nil2)
qed

theorem decode_frame_sound_witness:
  "wf_message (Ping 5) \<and>
   (\<exists>f. encode_frame wire_codec (Ping 5) = Ok f \<and> decode_frame wire_codec f = Ok (Ping 5, length f))"
proof -
  obtain f where "decode_frame wire_codec (f @ []) = Ok (Ping 5, length f)"
    using frame_round_trip_ex [OF wire.postcard_bounded_axioms, of "Ping 5"] unfolding wf_message.simps by blast
  from decode_frame_sound [OF wire.postcard_bounded_axioms this] show ?thesis by blast
qed

text \<open>The minor version is not part of the verdict. A frame of the supported major version
  decodes the same whatever its two minor version bytes are, so peers of any minor version
  interoperate at the frame level.\<close>

lemma decode_frame_minor_tolerant:
  assumes "HEADER_LEN \<le> length input" and "of_be16 (input ! 4) (input ! 5) = PROTOCOL_MAJOR"
  shows "decode_frame pc (input[6 := a, 7 := b]) = decode_frame pc input"
proof -
  obtain h p where i: "input = h @ p" "length h = HEADER_LEN"
    using split_header [OF assms(1)] .
  then have "of_be16 (h ! 4) (h ! 5) = PROTOCOL_MAJOR"
    using assms(2) by (simp add: nth_append HEADER_LEN_def)
  moreover have "input[6 := a, 7 := b] = h[6 := a, 7 := b] @ p"
    using i by (simp add: list_update_append HEADER_LEN_def)
  ultimately show ?thesis
    using i by (simp add: decode_frame_split)
qed

end
