(* ===== verification/Policy.thy ===== *)
theory Policy
  imports Proto
begin

text \<open>
  Runtime policy and admission (\<open>crates/eggtunnel/src/common.rs\<close>): the error type of the crate
  with its termination categories, credentials and their comparison, bind admission, resource
  limits and timeouts. Limits are natural numbers, since the code only compares them; durations
  are in nanoseconds.
\<close>

section \<open>Errors and termination categories\<close>

text \<open>An I/O error is its kind; only \<open>UnexpectedEof\<close> is told apart by the code.\<close>

datatype io_kind =
    UnexpectedEof | ConnectionReset | ConnectionRefused | BrokenPipe | NotFound | InvalidData
  | OtherIo nat

datatype tunnel_error =
    Configuration string
  | Io io_kind
  | Tls
  | Protocol protocol_error
  | Authentication
  | Authorization
  | Disconnected
  | Cancelled
  | Timeout
  | Target
  | ResourceExhausted
  | ServiceAlreadyExists
  | PeerClosed

datatype term_category =
    TcClean | TcCancelled | TcTimeout | TcAuthentication | TcAuthorization | TcProtocol
  | TcTransport | TcTarget | TcResourceExhausted | TcPeerClosed | TcInternal

fun termination_category :: "tunnel_error \<Rightarrow> term_category" where
  "termination_category Cancelled = TcCancelled"
| "termination_category Timeout = TcTimeout"
| "termination_category Target = TcTarget"
| "termination_category ResourceExhausted = TcResourceExhausted"
| "termination_category PeerClosed = TcPeerClosed"
| "termination_category Authentication = TcAuthentication"
| "termination_category Authorization = TcAuthorization"
| "termination_category ServiceAlreadyExists = TcAuthorization"
| "termination_category (Protocol _) = TcProtocol"
| "termination_category (Io _) = TcTransport"
| "termination_category Tls = TcTransport"
| "termination_category Disconnected = TcTransport"
| "termination_category (Configuration _) = TcInternal"

section \<open>Credentials\<close>

datatype secret_token = SecretToken bytes

fun expose :: "secret_token \<Rightarrow> bytes" where
  "expose (SecretToken b) = b"

definition secret_token_new :: "bytes \<Rightarrow> tunnel_error + secret_token" where
  "secret_token_new b =
     (if b = [] \<or> MAX_AUTH_TOKEN_BYTES < length b
      then Err (Configuration ''token must contain 1..=4096 bytes'')
      else Ok (SecretToken b))"

text \<open>The padded comparison image: the token from the start of a zeroed array, its length as a
  \<open>u16\<close> in the last two bytes.\<close>

definition token_field :: "bytes \<Rightarrow> bytes" where
  "token_field b =
     b @ replicate (MAX_AUTH_TOKEN_BYTES - length b) 0 @ be16 (of_nat (length b))"

text \<open>\<open>ct_eq\<close> is the constant-time comparison of the crate \<open>subtle\<close>.\<close>

definition verify_token :: "(bytes \<Rightarrow> bytes \<Rightarrow> bool) \<Rightarrow> secret_token \<Rightarrow> bytes \<Rightarrow> bool" where
  "verify_token ct_eq expected received =
     (let expected_bytes = expose expected
      in if MAX_AUTH_TOKEN_BYTES < length expected_bytes \<or> MAX_AUTH_TOKEN_BYTES < length received
         then False
         else ct_eq (token_field expected_bytes) (token_field received))"

section \<open>Services and bind admission\<close>

record client_service =
  cs_id :: service_id
  cs_name :: service_name
  cs_requested_bind :: requested_bind
  cs_target :: tcp_target

record bind_policy =
  allow_public_addresses :: bool
  allowed_addresses :: "octets list"
  allowed_port_ranges :: "(u16 \<times> u16) list"
  allow_ephemeral_ports :: bool
  max_services_per_session :: nat

definition bind_policy_default :: bind_policy where
  "bind_policy_default =
     \<lparr>allow_public_addresses = False, allowed_addresses = [], allowed_port_ranges = [],
      allow_ephemeral_ports = True, max_services_per_session = 64\<rparr>"

definition bind_policy_validate :: "bind_policy \<Rightarrow> tunnel_error + unit" where
  "bind_policy_validate p =
     (if max_services_per_session p = 0 \<or> 65536 < max_services_per_session p \<or>
         1024 < length (allowed_addresses p) \<or>
         list_ex (\<lambda>(start, finish). start = 0 \<or> finish < start) (allowed_port_ranges p)
      then Err (Configuration ''bind policy is invalid'')
      else Ok ())"

definition permits_address :: "bind_policy \<Rightarrow> octets \<Rightarrow> bool \<Rightarrow> bool" where
  "permits_address p a is_loopback \<longleftrightarrow>
     (is_loopback \<or> allow_public_addresses p) \<and>
     (allowed_addresses p = [] \<or> a \<in> set (allowed_addresses p))"

definition permits_port :: "bind_policy \<Rightarrow> u16 \<Rightarrow> bool" where
  "permits_port p port \<longleftrightarrow>
     (if port = 0 then allow_ephemeral_ports p
      else allowed_port_ranges p = [] \<or>
           list_ex (\<lambda>(start, finish). start \<le> port \<and> port \<le> finish) (allowed_port_ranges p))"

definition is_loopback_octets :: "octets \<Rightarrow> bool" where
  "is_loopback_octets a \<longleftrightarrow>
     ipv6_is_loopback a \<or> (case to_ipv4_mapped a of Some m \<Rightarrow> m ! 0 = 127 | None \<Rightarrow> False)"

fun bind_to_socket :: "requested_bind \<Rightarrow> bind_policy \<Rightarrow> tunnel_error + socket_addr" where
  "bind_to_socket (Loopback port) p =
     (if \<not> permits_address p ipv6_localhost True \<or> \<not> permits_port p port then Err Authorization
      else Ok (SocketV6 ipv6_localhost port))"
| "bind_to_socket (Ip a port) p =
     (if \<not> permits_address p a (is_loopback_octets a) \<or> \<not> permits_port p port
      then Err Authorization
      else Ok (SocketV6 a port))"

section \<open>Limits and timeouts\<close>

record resource_limits =
  rl_sessions :: nat
  rl_services_per_session :: nat
  rl_pending_per_session :: nat
  rl_active_connections_per_session :: nat
  rl_accepted_handshakes :: nat
  rl_client_open_tasks :: nat
  rl_control_queue :: nat
  rl_client_command_queue :: nat

definition resource_values :: "resource_limits \<Rightarrow> nat list" where
  "resource_values l =
     [rl_sessions l, rl_services_per_session l, rl_pending_per_session l,
      rl_active_connections_per_session l, rl_accepted_handshakes l, rl_client_open_tasks l,
      rl_control_queue l, rl_client_command_queue l]"

definition resource_limits_validate :: "resource_limits \<Rightarrow> tunnel_error + unit" where
  "resource_limits_validate l =
     (if list_ex (\<lambda>v. v = 0 \<or> 65536 < v) (resource_values l)
      then Err (Configuration ''resource limits must be in 1..=65536'')
      else Ok ())"

definition resource_limits_default :: resource_limits where
  "resource_limits_default =
     \<lparr>rl_sessions = 128, rl_services_per_session = 64, rl_pending_per_session = 128,
      rl_active_connections_per_session = 128, rl_accepted_handshakes = 64,
      rl_client_open_tasks = 128, rl_control_queue = 128, rl_client_command_queue = 32\<rparr>"

record timeout_policy =
  to_connect :: duration
  to_handshake :: duration
  to_control_idle :: duration
  to_pending_connection :: duration
  to_relay_drain :: duration
  to_shutdown_grace :: duration
  to_reconnect_initial :: duration
  to_reconnect_max :: duration
  to_heartbeat_interval :: duration

definition timeout_values :: "timeout_policy \<Rightarrow> duration list" where
  "timeout_values t =
     [to_connect t, to_handshake t, to_control_idle t, to_pending_connection t, to_relay_drain t,
      to_shutdown_grace t, to_reconnect_initial t, to_reconnect_max t, to_heartbeat_interval t]"

definition timeout_policy_validate :: "timeout_policy \<Rightarrow> tunnel_error + unit" where
  "timeout_policy_validate t =
     (if list_ex (\<lambda>v. v = 0 \<or> from_secs 86400 < v) (timeout_values t) \<or>
         to_reconnect_max t < to_reconnect_initial t \<or>
         to_control_idle t \<le> to_heartbeat_interval t
      then Err (Configuration ''timeout policy is invalid'')
      else Ok ())"

definition timeout_policy_default :: timeout_policy where
  "timeout_policy_default =
     \<lparr>to_connect = from_secs 10, to_handshake = from_secs 10, to_control_idle = from_secs 90,
      to_pending_connection = from_secs 30, to_relay_drain = from_secs 15,
      to_shutdown_grace = from_secs 1, to_reconnect_initial = from_millis 500,
      to_reconnect_max = from_secs 30, to_heartbeat_interval = from_secs 20\<rparr>"

record runtime_policy =
  rp_limits :: resource_limits
  rp_timeouts :: timeout_policy

definition runtime_policy_validate :: "runtime_policy \<Rightarrow> tunnel_error + unit" where
  "runtime_policy_validate p =
     and_then (resource_limits_validate (rp_limits p)) (\<lambda>_. timeout_policy_validate (rp_timeouts p))"

definition runtime_policy_default :: runtime_policy where
  "runtime_policy_default =
     \<lparr>rp_limits = resource_limits_default, rp_timeouts = timeout_policy_default\<rparr>"

section \<open>Lemmas\<close>

lemma secret_token_new_Ok:
  "secret_token_new b = Ok t \<longleftrightarrow> t = SecretToken b \<and> 0 < length b \<and> length b \<le> MAX_AUTH_TOKEN_BYTES"
  by (auto simp: secret_token_new_def)

text \<open>The padded images are as injective as the pair of length and content.\<close>

lemma token_field_length [simp]:
  "length b \<le> MAX_AUTH_TOKEN_BYTES \<Longrightarrow> length (token_field b) = MAX_AUTH_TOKEN_BYTES + 2"
  by (simp add: token_field_def)

lemma be16_inj: "be16 v = be16 w \<longleftrightarrow> v = w"
  unfolding be16_def by (metis list.inject of_be16_be16)

lemma token_field_inj:
  assumes "length a \<le> MAX_AUTH_TOKEN_BYTES" and "length b \<le> MAX_AUTH_TOKEN_BYTES"
  shows "token_field a = token_field b \<longleftrightarrow> a = b"
proof
  assume eq: "token_field a = token_field b"
  have len: "length (a @ replicate (MAX_AUTH_TOKEN_BYTES - length a) 0) =
      length (b @ replicate (MAX_AUTH_TOKEN_BYTES - length b) 0)"
    using assms by simp
  from eq have "(a @ replicate (MAX_AUTH_TOKEN_BYTES - length a) 0) @ be16 (of_nat (length a)) =
      (b @ replicate (MAX_AUTH_TOKEN_BYTES - length b) 0) @ be16 (of_nat (length b))"
    by (simp add: token_field_def)
  with len have content: "a @ replicate (MAX_AUTH_TOKEN_BYTES - length a) 0 =
      b @ replicate (MAX_AUTH_TOKEN_BYTES - length b) 0"
    and "(of_nat (length a) :: u16) = of_nat (length b)"
    by (auto simp: append_eq_append_conv be16_inj simp del: append_assoc)
  then have "unat (of_nat (length a) :: u16) = unat (of_nat (length b) :: u16)" by simp
  with assms have "length a = length b"
    by (simp add: unat_of_nat const_defs)
  with content show "a = b" by simp
qed simp

lemma bind_to_socket_Ok:
  "bind_to_socket r p = Ok addr \<longleftrightarrow>
     (\<exists>a port. addr = SocketV6 a port \<and> permits_port p port \<and>
       (case r of Loopback q \<Rightarrow> a = ipv6_localhost \<and> port = q \<and> permits_address p a True
        | Ip b q \<Rightarrow> a = b \<and> port = q \<and> permits_address p a (is_loopback_octets a)))"
  by (cases r) auto

lemma ipv6_localhost_loopback [simp]: "is_loopback_octets ipv6_localhost"
  by (simp add: is_loopback_octets_def ipv6_is_loopback_def)

lemma runtime_policy_validate_Ok:
  "runtime_policy_validate p = Ok () \<longleftrightarrow>
     resource_limits_validate (rp_limits p) = Ok () \<and> timeout_policy_validate (rp_timeouts p) = Ok ()"
  by (auto simp: runtime_policy_validate_def and_then_eq_Ok)

lemma limits_bounds:
  assumes "resource_limits_validate l = Ok ()"
  shows "v \<in> set (resource_values l) \<Longrightarrow> 0 < v \<and> v \<le> 65536"
  using assms by (auto simp: resource_limits_validate_def list_ex_iff split: if_splits)

lemma timeout_bounds:
  assumes "timeout_policy_validate t = Ok ()"
  shows "v \<in> set (timeout_values t) \<Longrightarrow> 0 < v \<and> v \<le> from_secs 86400"
    "to_reconnect_initial t \<le> to_reconnect_max t" "to_heartbeat_interval t < to_control_idle t"
  using assms by (auto simp: timeout_policy_validate_def list_ex_iff split: if_splits)

section \<open>Properties\<close>

text \<open>C19: token verification is equality of tokens. With a comparison that decides equality of
  byte arrays of the same length, as \<open>subtle\<close> documents, a configured token accepts exactly the
  received bytes equal to it: padding never makes two different tokens agree, and no length
  check short-circuits the comparison of legal tokens.\<close>

theorem verify_token_correct:
  assumes "\<And>a b. length a = length b \<Longrightarrow> ct_eq a b \<longleftrightarrow> a = b"
    and "secret_token_new secret = Ok expected"
  shows "verify_token ct_eq expected received \<longleftrightarrow> received = secret"
proof -
  note new = assms(2) [unfolded secret_token_new_Ok]
  show ?thesis
  proof (cases "length received \<le> MAX_AUTH_TOKEN_BYTES")
    case True
    with new assms(1) show ?thesis
      by (auto simp: verify_token_def Let_def token_field_inj)
  qed (use new in \<open>auto simp: verify_token_def Let_def\<close>)
qed

theorem verify_token_correct_witness:
  "\<not> verify_token (=) (SecretToken [1, 2]) [1, 2, 0]"
proof -
  have "secret_token_new [1, 2] = Ok (SecretToken [1, 2])"
    by (simp add: secret_token_new_def const_defs)
  from verify_token_correct [OF _ this, of "(=)" "[1, 2, 0]"] show ?thesis by simp
qed





end
