(* ===== verification/Counters.thy ===== *)
theory Counters
  imports Policy
begin

text \<open>
  Process-wide counters and snapshots (\<open>Counters\<close>, \<open>Snapshot\<close> and the heartbeat state of
  \<open>crates/eggtunnel/src/common.rs\<close>). The atomics are 64-bit words, so a decrement below zero
  would wrap as \<open>fetch_sub\<close> does; the theorems of the server and client components show which
  quantity each counter equals.
\<close>

section \<open>State\<close>

type_synonym bind_entry = "session_id \<times> service_id \<times> effective_bind"

record heartbeat_state =
  hs_last_pong_at :: "instant option"
  hs_latest_rtt_ms :: "u64 option"
  hs_missed_heartbeats :: u64

definition heartbeat_state_default :: heartbeat_state where
  "heartbeat_state_default =
     \<lparr>hs_last_pong_at = None, hs_latest_rtt_ms = None, hs_missed_heartbeats = 0\<rparr>"

record counters =
  ct_policy :: runtime_policy
  ct_connected :: usize
  ct_sessions :: usize
  ct_services :: usize
  ct_pending :: usize
  ct_active_connections :: usize
  ct_open_tasks :: usize
  ct_handshakes :: usize
  ct_high_water_sessions :: usize
  ct_high_water_services :: usize
  ct_high_water_pending :: usize
  ct_high_water_active_connections :: usize
  ct_high_water_open_tasks :: usize
  ct_high_water_handshakes :: usize
  ct_task_panics :: u64
  ct_last_termination :: "term_category option"
  ct_reconnects :: u64
  ct_rejected :: u64
  ct_bytes_upstream :: u64
  ct_bytes_downstream :: u64
  ct_binds :: "bind_entry list"
  ct_session_generation :: u64
  ct_heartbeat :: heartbeat_state

definition with_policy :: "runtime_policy \<Rightarrow> counters" where
  "with_policy p =
     \<lparr>ct_policy = p, ct_connected = 0, ct_sessions = 0, ct_services = 0, ct_pending = 0,
      ct_active_connections = 0, ct_open_tasks = 0, ct_handshakes = 0,
      ct_high_water_sessions = 0, ct_high_water_services = 0, ct_high_water_pending = 0,
      ct_high_water_active_connections = 0, ct_high_water_open_tasks = 0,
      ct_high_water_handshakes = 0, ct_task_panics = 0, ct_last_termination = None,
      ct_reconnects = 0, ct_rejected = 0, ct_bytes_upstream = 0, ct_bytes_downstream = 0,
      ct_binds = [], ct_session_generation = 0, ct_heartbeat = heartbeat_state_default\<rparr>"

record heartbeat_snapshot =
  hb_session_generation :: u64
  hb_last_pong_age_ms :: "u64 option"
  hb_latest_rtt_ms :: "u64 option"
  hb_missed_heartbeats :: u64

record snapshot =
  sn_connected :: bool
  sn_active_sessions :: usize
  sn_registered_services :: usize
  sn_pending_connections :: usize
  sn_active_connections :: usize
  sn_active_client_open_tasks :: usize
  sn_active_handshakes :: usize
  sn_high_water_sessions :: usize
  sn_high_water_services :: usize
  sn_high_water_pending_connections :: usize
  sn_high_water_active_connections :: usize
  sn_high_water_client_open_tasks :: usize
  sn_high_water_handshakes :: usize
  sn_task_panics :: u64
  sn_last_termination :: "term_category option"
  sn_heartbeat :: heartbeat_snapshot
  sn_resource_limits :: resource_limits
  sn_reconnects :: u64
  sn_rejected_connections :: u64
  sn_bytes_upstream :: u64
  sn_bytes_downstream :: u64
  sn_effective_binds :: "bind_entry list"

section \<open>Operations\<close>

text \<open>Milliseconds between two instants as the code stores them.\<close>

definition elapsed_ms :: "instant \<Rightarrow> instant \<Rightarrow> u64" where
  "elapsed_ms now earlier = u64_or_max (as_millis (saturating_duration_since now earlier))"

definition take_snapshot :: "instant \<Rightarrow> counters \<Rightarrow> snapshot" where
  "take_snapshot now c =
     \<lparr>sn_connected = (ct_connected c > 0), sn_active_sessions = ct_sessions c,
      sn_registered_services = ct_services c, sn_pending_connections = ct_pending c,
      sn_active_connections = ct_active_connections c,
      sn_active_client_open_tasks = ct_open_tasks c, sn_active_handshakes = ct_handshakes c,
      sn_high_water_sessions = ct_high_water_sessions c,
      sn_high_water_services = ct_high_water_services c,
      sn_high_water_pending_connections = ct_high_water_pending c,
      sn_high_water_active_connections = ct_high_water_active_connections c,
      sn_high_water_client_open_tasks = ct_high_water_open_tasks c,
      sn_high_water_handshakes = ct_high_water_handshakes c,
      sn_task_panics = ct_task_panics c, sn_last_termination = ct_last_termination c,
      sn_heartbeat =
        \<lparr>hb_session_generation = ct_session_generation c,
         hb_last_pong_age_ms = map_option (elapsed_ms now) (hs_last_pong_at (ct_heartbeat c)),
         hb_latest_rtt_ms = hs_latest_rtt_ms (ct_heartbeat c),
         hb_missed_heartbeats = hs_missed_heartbeats (ct_heartbeat c)\<rparr>,
      sn_resource_limits = rp_limits (ct_policy c), sn_reconnects = ct_reconnects c,
      sn_rejected_connections = ct_rejected c, sn_bytes_upstream = ct_bytes_upstream c,
      sn_bytes_downstream = ct_bytes_downstream c, sn_effective_binds = ct_binds c\<rparr>"

definition record_termination :: "term_category \<Rightarrow> counters \<Rightarrow> counters" where
  "record_termination category c = c\<lparr>ct_last_termination := Some category\<rparr>"

text \<open>The compare-and-exchange loop. Each element of \<open>observed\<close> is the value that one failed
  exchange reports; when the list is used up the exchange finds the expected value and stores
  the successor.\<close>

fun advance_generation :: "u64 \<Rightarrow> u64 list \<Rightarrow> tunnel_error + u64" where
  "advance_generation current observed =
     and_then (ok_or ResourceExhausted (checked_add current 1)) (\<lambda>next_value.
       case observed of
         [] \<Rightarrow> Ok next_value
       | seen # later \<Rightarrow> advance_generation seen later)"

definition begin_session :: "u64 list \<Rightarrow> counters \<Rightarrow> (tunnel_error + u64) \<times> counters" where
  "begin_session observed c =
     (case advance_generation (ct_session_generation c) observed of
        Inl e \<Rightarrow> (Err e, c\<lparr>ct_session_generation := last (ct_session_generation c # observed)\<rparr>)
      | Inr generation \<Rightarrow>
          (Ok generation,
           c\<lparr>ct_session_generation := generation, ct_heartbeat := heartbeat_state_default\<rparr>))"

definition record_heartbeat_missed :: "counters \<Rightarrow> counters" where
  "record_heartbeat_missed c =
     c\<lparr>ct_heartbeat := (ct_heartbeat c)
        \<lparr>hs_missed_heartbeats := saturating_add (hs_missed_heartbeats (ct_heartbeat c)) 1\<rparr>\<rparr>"

definition record_heartbeat_pong :: "instant \<Rightarrow> instant \<Rightarrow> counters \<Rightarrow> counters" where
  "record_heartbeat_pong now sent_at c =
     c\<lparr>ct_heartbeat :=
        \<lparr>hs_last_pong_at = Some now, hs_latest_rtt_ms = Some (elapsed_ms now sent_at),
         hs_missed_heartbeats = 0\<rparr>\<rparr>"

datatype join_result = JoinOk | JoinCancelled | JoinPanic

definition record_join_result :: "join_result \<Rightarrow> counters \<Rightarrow> counters" where
  "record_join_result r c =
     (if r = JoinPanic
      then record_termination TcInternal (c\<lparr>ct_task_panics := ct_task_panics c + 1\<rparr>)
      else c)"

text \<open>A gauge with its high-water mark: \<open>fetch_add\<close> followed by \<open>fetch_max\<close>.\<close>

definition enter_sessions :: "counters \<Rightarrow> counters" where
  "enter_sessions c = c\<lparr>ct_sessions := ct_sessions c + 1,
     ct_high_water_sessions := max (ct_high_water_sessions c) (ct_sessions c + 1)\<rparr>"

definition enter_services :: "counters \<Rightarrow> counters" where
  "enter_services c = c\<lparr>ct_services := ct_services c + 1,
     ct_high_water_services := max (ct_high_water_services c) (ct_services c + 1)\<rparr>"

definition enter_pending :: "counters \<Rightarrow> counters" where
  "enter_pending c = c\<lparr>ct_pending := ct_pending c + 1,
     ct_high_water_pending := max (ct_high_water_pending c) (ct_pending c + 1)\<rparr>"

definition enter_active :: "counters \<Rightarrow> counters" where
  "enter_active c = c\<lparr>ct_active_connections := ct_active_connections c + 1,
     ct_high_water_active_connections :=
       max (ct_high_water_active_connections c) (ct_active_connections c + 1)\<rparr>"

definition enter_open_tasks :: "counters \<Rightarrow> counters" where
  "enter_open_tasks c = c\<lparr>ct_open_tasks := ct_open_tasks c + 1,
     ct_high_water_open_tasks := max (ct_high_water_open_tasks c) (ct_open_tasks c + 1)\<rparr>"

definition enter_handshakes :: "counters \<Rightarrow> counters" where
  "enter_handshakes c = c\<lparr>ct_handshakes := ct_handshakes c + 1,
     ct_high_water_handshakes := max (ct_high_water_handshakes c) (ct_handshakes c + 1)\<rparr>"

definition reject_count :: "counters \<Rightarrow> counters" where
  "reject_count c = c\<lparr>ct_rejected := ct_rejected c + 1\<rparr>"

text \<open>The two uses of the bind table.\<close>

definition push_bind :: "bind_entry \<Rightarrow> counters \<Rightarrow> counters" where
  "push_bind b c = c\<lparr>ct_binds := ct_binds c @ [b]\<rparr>"

definition retain_binds :: "(bind_entry \<Rightarrow> bool) \<Rightarrow> counters \<Rightarrow> counters" where
  "retain_binds P c = c\<lparr>ct_binds := filter P (ct_binds c)\<rparr>"

declare advance_generation.simps [simp del]

section \<open>Lemmas\<close>

lemma elapsed_ms_mono: "now \<le> later \<Longrightarrow> elapsed_ms now e \<le> elapsed_ms later e"
proof -
  assume "now \<le> later"
  then have "as_millis (now - e) \<le> as_millis (later - e)"
    by (intro as_millis_mono diff_le_mono)
  then show ?thesis
    by (auto simp: elapsed_ms_def saturating_duration_since_def u64_or_max_def word_le_nat_alt
        unat_of_nat unsigned_minus_1_eq_mask mask_eq_exp_minus_1)
qed

lemma checked_add_max: "checked_add g 1 = (if g = - 1 then None else Some (g + 1))" for g :: u64
proof -
  have "unat g < 2 ^ 64"
    using unsigned_less [of g] by simp
  then have "unat g + 1 < 2 ^ 64 \<longleftrightarrow> g \<noteq> - 1"
    using word_unat_eq_iff [of g "- 1"] by (auto simp: unsigned_minus_1_eq_mask mask_eq_exp_minus_1)
  then show ?thesis by (auto simp: checked_add_def)
qed

lemma advance_generation_Ok:
  "advance_generation g seen = Ok n \<longleftrightarrow>
     (\<forall>v \<in> set (g # seen). v \<noteq> - 1) \<and> n = last (g # seen) + 1"
  by (induction seen arbitrary: g)
     (auto simp: advance_generation.simps checked_add_max)

lemma advance_generation_Err:
  "advance_generation g seen = Err e \<longleftrightarrow> e = ResourceExhausted \<and> - 1 \<in> set (g # seen)"
  by (induction seen arbitrary: g) (auto simp: advance_generation.simps checked_add_max)

section \<open>Properties\<close>

text \<open>C22: session generations are strictly increasing and fail closed. However many competing
  exchanges the loop observes, a granted generation is the successor of the value it replaced
  (so it is larger and never zero) and the heartbeat state starts afresh; the loop refuses
  exactly when some value it reads is the last one, and then with \<open>ResourceExhausted\<close>, without
  wrapping to zero.\<close>

theorem begin_session_monotone:
  "case begin_session observed c of
     (Inr g, d) \<Rightarrow> unat g = unat (last (ct_session_generation c # observed)) + 1 \<and>
       ct_session_generation d = g \<and> ct_heartbeat d = heartbeat_state_default \<and>
       - 1 \<notin> set (ct_session_generation c # observed)
   | (Inl e, d) \<Rightarrow> e = ResourceExhausted \<and> - 1 \<in> set (ct_session_generation c # observed) \<and>
       ct_heartbeat d = ct_heartbeat c"
proof (cases "advance_generation (ct_session_generation c) observed")
  case (Inr g)
  then have "last (ct_session_generation c # observed) \<noteq> - 1"
    and "g = last (ct_session_generation c # observed) + 1"
    by (auto simp: advance_generation_Ok split: if_splits)
  then have "unat g = unat (last (ct_session_generation c # observed)) + 1"
    using checked_add_max [of "last (ct_session_generation c # observed)"] unat_checked_add by fastforce
  moreover have "- 1 \<notin> set (ct_session_generation c # observed)"
    using Inr by (auto simp: advance_generation_Ok)
  ultimately show ?thesis
    unfolding begin_session_def Inr by simp
next
  case (Inl e)
  then have "e = ResourceExhausted \<and> - 1 \<in> set (ct_session_generation c # observed)"
    by (simp add: advance_generation_Err)
  then show ?thesis
    unfolding begin_session_def Inl by simp
qed

end
