(* ===== verification/Wire_IO.thy ===== *)
theory Wire_IO
  imports Policy Postcard_Format Frame_Correct
begin

text \<open>
  Message I/O on byte streams (\<open>crates/eggtunnel/src/wire_io.rs\<close>). A reader is the bytes that
  will still arrive and how the stream ends after them, at end of file or with an I/O error; a
  writer has accepted some bytes and may fail after a number of further ones. \<open>read_exact\<close>,
  \<open>take\<close> with \<open>read_to_end\<close> and \<open>write_all\<close> are those of the standard asynchronous traits.
\<close>

section \<open>Streams\<close>

record reader =
  rd_bytes :: bytes
  rd_end :: "io_kind option"

definition read_exact :: "nat \<Rightarrow> reader \<Rightarrow> (io_kind + bytes) \<times> reader" where
  "read_exact n r =
     (if n \<le> length (rd_bytes r)
      then (Ok (take n (rd_bytes r)), r\<lparr>rd_bytes := drop n (rd_bytes r)\<rparr>)
      else (Err (case rd_end r of None \<Rightarrow> UnexpectedEof | Some k \<Rightarrow> k), r\<lparr>rd_bytes := []\<rparr>))"

definition take_read_to_end :: "nat \<Rightarrow> reader \<Rightarrow> (io_kind + bytes) \<times> reader" where
  "take_read_to_end n r =
     (if n \<le> length (rd_bytes r)
      then (Ok (take n (rd_bytes r)), r\<lparr>rd_bytes := drop n (rd_bytes r)\<rparr>)
      else (case rd_end r of None \<Rightarrow> Ok (rd_bytes r) | Some k \<Rightarrow> Err k, r\<lparr>rd_bytes := []\<rparr>))"

record writer =
  wr_out :: bytes
  wr_fault :: "(nat \<times> io_kind) option"

definition write_all :: "bytes \<Rightarrow> writer \<Rightarrow> (io_kind + unit) \<times> writer" where
  "write_all b w =
     (case wr_fault w of
        None \<Rightarrow> (Ok (), w\<lparr>wr_out := wr_out w @ b\<rparr>)
      | Some (room, k) \<Rightarrow>
          if length b \<le> room
          then (Ok (), w\<lparr>wr_out := wr_out w @ b, wr_fault := Some (room - length b, k)\<rparr>)
          else (Err k, w\<lparr>wr_out := wr_out w @ take room b, wr_fault := Some (0, k)\<rparr>))"

section \<open>Messages\<close>

definition io_error :: "io_kind \<Rightarrow> tunnel_error" where
  "io_error e = (if e = UnexpectedEof then Protocol TruncatedFrame else Io e)"

definition read_message :: "postcard \<Rightarrow> reader \<Rightarrow> (tunnel_error + message) \<times> reader" where
  "read_message pc r =
     (case read_exact HEADER_LEN r of
        (Inl e, r) \<Rightarrow> (Err (io_error e), r)
      | (Inr hdr, r) \<Rightarrow>
          (if (case decode_frame pc hdr of Inl TruncatedFrame \<Rightarrow> True | _ \<Rightarrow> False)
           then
             let len = unat (of_be32 (hdr ! 10) (hdr ! 11) (hdr ! 12) (hdr ! 13))
             in if MAX_FRAME_BYTES < len then (Err (Protocol FrameTooLarge), r)
             else case take_read_to_end len r of
               (Inl e, r) \<Rightarrow> (Err (io_error e), r)
             | (Inr payload, r) \<Rightarrow>
                 if length payload \<noteq> len then (Err (Protocol TruncatedFrame), r)
                 else
                   let frame = hdr @ payload
                   in case decode_frame pc frame of
                        Inl e \<Rightarrow> (Err (Protocol e), r)
                      | Inr (m, consumed) \<Rightarrow>
                          if consumed \<noteq> length frame then (Err (Protocol InvalidPayload), r)
                          else (Ok m, r)
           else case decode_frame pc hdr of
                  Inl e \<Rightarrow> (Err (Protocol e), r)
                | Inr _ \<Rightarrow> (Err (Protocol InvalidPayload), r)))"

definition write_message :: "postcard \<Rightarrow> message \<Rightarrow> writer \<Rightarrow> (tunnel_error + unit) \<times> writer" where
  "write_message pc m w =
     (case encode_frame pc m of
        Inl e \<Rightarrow> (Err (Protocol e), w)
      | Inr frame \<Rightarrow>
          (case write_all frame w of
             (Inl e, w) \<Rightarrow> (Err (io_error e), w)
           | (Inr _, w) \<Rightarrow> (Ok (), w)))"

text \<open>Several messages one after the other, as the control and data loops exchange them.\<close>

fun write_messages :: "postcard \<Rightarrow> message list \<Rightarrow> writer \<Rightarrow> (tunnel_error + unit) \<times> writer" where
  "write_messages pc [] w = (Ok (), w)"
| "write_messages pc (m # ms) w =
     (case write_message pc m w of
        (Inl e, w) \<Rightarrow> (Err e, w)
      | (Inr _, w) \<Rightarrow> write_messages pc ms w)"

fun read_messages :: "postcard \<Rightarrow> nat \<Rightarrow> reader \<Rightarrow> (tunnel_error + message list) \<times> reader" where
  "read_messages pc 0 r = (Ok [], r)"
| "read_messages pc (Suc n) r =
     (case read_message pc r of
        (Inl e, r) \<Rightarrow> (Err e, r)
      | (Inr m, r) \<Rightarrow>
          (case read_messages pc n r of
             (Inl e, r) \<Rightarrow> (Err e, r)
           | (Inr ms, r) \<Rightarrow> (Ok (m # ms), r)))"

fun sample_message :: "message_type \<Rightarrow> bool \<Rightarrow> message" where
  "sample_message MtClientHello b = ClientHello \<lparr>pv_major = of_bool b, pv_minor = 0\<rparr> (Capabilities [])"
| "sample_message MtServerHello b = ServerHello \<lparr>pv_major = of_bool b, pv_minor = 0\<rparr> (Capabilities [])"
| "sample_message MtAuth b = Auth [of_bool b]"
| "sample_message MtAuthOk b = AuthOk (SessionId (replicate 16 (of_bool b)))"
| "sample_message MtRegisterService b =
     RegisterService \<lparr>rs_service_id = ServiceId (of_bool b), rs_name = ServiceName (lit ''web''),
       rs_requested_bind = Loopback 8080, rs_target = \<lparr>tt_host = lit ''localhost'', tt_port = 80\<rparr>\<rparr>"
| "sample_message MtRegisterAck b =
     RegisterAck (ServiceId (of_bool b)) \<lparr>eb_address = ipv6_localhost, eb_port = 0\<rparr>"
| "sample_message MtUnregisterService b = UnregisterService (ServiceId (of_bool b))"
| "sample_message MtOpen b = Open (ServiceId (of_bool b)) (ConnectionId (replicate 16 0))"
| "sample_message MtOpenReject b = OpenReject (ConnectionId (replicate 16 0)) (of_bool b)"
| "sample_message MtPing b = Ping (of_bool b)"
| "sample_message MtPong b = Pong (of_bool b)"
| "sample_message MtDrain b = Drain (of_bool b)"
| "sample_message MtError b = Error (of_bool b) (BoundedDiagnostic [])"
| "sample_message MtDataHello b =
     DataHello \<lparr>dh_session_id = SessionId (replicate 16 0), dh_service_id = ServiceId (of_bool b),
       dh_connection_id = ConnectionId (replicate 16 0)\<rparr>"
| "sample_message MtRegisterReject b = RegisterReject (ServiceId (of_bool b)) 0 (BoundedDiagnostic [])"

section \<open>Payloads are never empty\<close>

text \<open>Every message type has at least two valid messages, and a self-delimiting code with two
  values has no empty word. So the header of an encoded message never decodes on its own.\<close>

lemma sample_message_wf2: "wf_message (sample_message k b)" and
  kind_sample [simp]: "kind (sample_message k b) = k"
  using sample_message_wf
  by (cases k; simp add: wf_caps_def const_defs wf_diagnostic_def bounded_diagnostic_new_def)+

lemma sample_message_distinct: "message_sval (sample_message k True) \<noteq> message_sval (sample_message k False)"
  by (cases k) (simp_all add: array16_sval_def numeral_eq_Suc)

lemma payload_nonempty:
  assumes "postcard_codec pc" and "wf_message m" and "encode_payload pc m = Ok b"
  shows "b \<noteq> []"
proof
  assume "b = []"
  note codec = postcard_codec.reads_back [OF assms(1)] postcard_codec.serialises [OF assms(1)]
  let ?s = "message_shape (kind m)"
  have m: "has_shape ?s (message_sval m)" and enc: "to_allocvec pc (message_sval m) = Some []"
    using assms \<open>b = []\<close> by (auto simp: message_sval_shape encode_payload_def ok_or_eq_Ok)
  obtain w where w: "has_shape ?s w" and ne: "w \<noteq> message_sval m"
    using message_sval_shape [OF sample_message_wf2, of "kind m"] sample_message_distinct
    by (metis kind_sample)
  obtain c where "to_allocvec pc w = Some c"
    using codec(2) [OF w] by blast
  with codec(1) [OF w this, of "[]"] codec(1) [OF m enc, of c] ne show False by simp
qed

section \<open>Reading\<close>

lemma read_exact_append:
  "read_exact (length a) (r\<lparr>rd_bytes := a @ rest\<rparr>) = (Ok a, r\<lparr>rd_bytes := rest\<rparr>)"
  by (simp add: read_exact_def)

lemma take_read_append:
  "take_read_to_end (length a) (r\<lparr>rd_bytes := a @ rest\<rparr>) = (Ok a, r\<lparr>rd_bytes := rest\<rparr>)"
  by (simp add: take_read_to_end_def)

lemma decode_header_alone:
  "0 < n \<Longrightarrow> n \<le> MAX_FRAME_BYTES \<Longrightarrow> decode_frame pc (header v (message_id k) n) = Err TruncatedFrame"
  using decode_frame_split [of "header v (message_id k) n" pc "[]"] by simp

text \<open>A frame whose payload arrives in full is decoded as a whole.\<close>

lemma read_message_assembled:
  assumes "b \<noteq> []" and "length b \<le> MAX_FRAME_BYTES"
  shows "read_message pc (r\<lparr>rd_bytes := header v (message_id k) (length b) @ b @ rest\<rparr>) =
    (map_err Protocol (decode_payload pc k b), r\<lparr>rd_bytes := rest\<rparr>)"
proof -
  have hdr: "decode_frame pc (header v (message_id k) (length b)) = Err TruncatedFrame"
    using assms by (simp add: decode_header_alone)
  have exact: "read_exact HEADER_LEN (r\<lparr>rd_bytes := header v (message_id k) (length b) @ b @ rest\<rparr>) =
      (Ok (header v (message_id k) (length b)), r\<lparr>rd_bytes := b @ rest\<rparr>)"
    using read_exact_append [of "header v (message_id k) (length b)"] by simp
  have "decode_frame pc (header v (message_id k) (length b) @ b) =
      and_then (decode_payload pc k b) (\<lambda>m. Ok (m, HEADER_LEN + length b))"
    using decode_frame_assembled [OF assms(2), of pc v k "[]"] by simp
  with assms(2) show ?thesis
    unfolding read_message_def exact
    by (simp add: hdr Let_def take_read_append map_err_def and_then_def split: sum.splits)
qed

lemma read_message_encoded:
  assumes "postcard_bounded pc" and "wf_message m" and "encode_frame pc m = Ok f"
  shows "read_message pc (r\<lparr>rd_bytes := f @ rest\<rparr>) = (Ok m, r\<lparr>rd_bytes := rest\<rparr>)"
proof -
  have codec: "postcard_codec pc"
    using assms(1) by (simp add: postcard_bounded_def)
  obtain b where b: "encode_payload pc m = Ok b" "length b \<le> MAX_FRAME_BYTES"
    and f: "f = header PROTOCOL_MINOR (message_id (kind m)) (length b) @ b"
    using assms(3) by (auto simp: encode_frame_Ok)
  have "b \<noteq> []" and "decode_payload pc (kind m) b = Ok m"
    using payload_nonempty [OF codec assms(2) b(1)] postcard_codec.payload_round_trip [OF codec assms(2)] b(1)
    by auto
  with b(2) f show ?thesis by (simp add: read_message_assembled)
qed

lemma write_messages_read_back:
  assumes "postcard_bounded pc" and "list_all wf_message ms"
  shows "\<exists>sent. write_messages pc ms (w\<lparr>wr_fault := None\<rparr>) =
      (Ok (), w\<lparr>wr_out := wr_out w @ sent, wr_fault := None\<rparr>) \<and>
    (\<forall>r rest. read_messages pc (length ms) (r\<lparr>rd_bytes := sent @ rest\<rparr>) = (Ok ms, r\<lparr>rd_bytes := rest\<rparr>))"
  using assms(2)
proof (induction ms arbitrary: w)
  case (Cons m ms)
  then obtain f where f: "encode_frame pc m = Ok f"
    using frame_round_trip_ex [OF assms(1), of m] by auto
  then have read: "read_message pc (r\<lparr>rd_bytes := f @ rest\<rparr>) = (Ok m, r\<lparr>rd_bytes := rest\<rparr>)" for r rest
    using Cons.prems by (simp add: read_message_encoded [OF assms(1)])
  have "write_message pc m (w\<lparr>wr_fault := None\<rparr>) = (Ok (), w\<lparr>wr_out := wr_out w @ f, wr_fault := None\<rparr>)"
    by (simp add: write_message_def f write_all_def)
  moreover obtain sent where "write_messages pc ms (w\<lparr>wr_out := wr_out w @ f, wr_fault := None\<rparr>) =
      (Ok (), w\<lparr>wr_out := wr_out w @ f @ sent, wr_fault := None\<rparr>)"
    and "\<forall>r rest. read_messages pc (length ms) (r\<lparr>rd_bytes := sent @ rest\<rparr>) = (Ok ms, r\<lparr>rd_bytes := rest\<rparr>)"
    using Cons.IH [of "w\<lparr>wr_out := wr_out w @ f\<rparr>"] Cons.prems by auto
  ultimately show ?case
    by (intro exI [of _ "f @ sent"]) (simp add: read)
qed (auto intro!: exI [of _ "[]"])

lemma read_exact_used:
  "read_exact n r = (res, r') \<Longrightarrow>
     \<exists>used. rd_bytes r = used @ rd_bytes r' \<and> length used \<le> n \<and> rd_end r' = rd_end r \<and>
       (\<forall>b. res = Ok b \<longrightarrow> b = used \<and> length b = n)"
  by (auto simp: read_exact_def split: if_splits intro: exI [of _ "take n (rd_bytes r)"])

lemma take_read_used:
  "take_read_to_end n r = (res, r') \<Longrightarrow>
     \<exists>used. rd_bytes r = used @ rd_bytes r' \<and> length used \<le> n \<and> rd_end r' = rd_end r \<and>
       (\<forall>b. res = Ok b \<longrightarrow> b = used)"
  by (auto simp: take_read_to_end_def split: if_splits option.splits
      intro: exI [of _ "take n (rd_bytes r)"])

abbreviation header_len :: "bytes \<Rightarrow> nat" where
  "header_len hdr \<equiv> unat (of_be32 (hdr ! 10) (hdr ! 11) (hdr ! 12) (hdr ! 13))"

lemma read_message_cases:
  assumes "read_message pc r = (res, r')"
  obtains (at_header) h e where "read_exact HEADER_LEN r = (h, r')" and "res = Err e"
  | (at_payload) hdr r1 p where "read_exact HEADER_LEN r = (Ok hdr, r1)"
      and "take_read_to_end (header_len hdr) r1 = (p, r')" and "header_len hdr \<le> MAX_FRAME_BYTES"
      and "\<And>m. res = Ok m \<Longrightarrow> \<exists>b. p = Ok b \<and> decode_frame pc (hdr @ b) = Ok (m, length (hdr @ b))"
proof -
  obtain h r1 where h: "read_exact HEADER_LEN r = (h, r1)" by fastforce
  show thesis
  proof (cases "\<exists>hdr. h = Ok hdr \<and> decode_frame pc hdr = Err TruncatedFrame \<and>
      header_len hdr \<le> MAX_FRAME_BYTES")
    case True
    then obtain hdr where hdr: "h = Ok hdr" "decode_frame pc hdr = Err TruncatedFrame"
      "header_len hdr \<le> MAX_FRAME_BYTES" by blast
    obtain p r2 where p: "take_read_to_end (header_len hdr) r1 = (p, r2)" by fastforce
    show thesis
    proof (rule at_payload)
      show "read_exact HEADER_LEN r = (Ok hdr, r1)" using h hdr by simp
      show "take_read_to_end (header_len hdr) r1 = (p, r')"
        using assms h hdr p by (auto simp: read_message_def Let_def split: sum.splits if_splits)
      show "header_len hdr \<le> MAX_FRAME_BYTES" by (fact hdr)
      show "\<exists>b. p = Ok b \<and> decode_frame pc (hdr @ b) = Ok (m, length (hdr @ b))" if "res = Ok m" for m
        using assms h hdr p that by (auto simp: read_message_def Let_def split: sum.splits if_splits)
    qed
  next
    case False
    then have "r' = r1 \<and> (\<exists>e. res = Err e)"
      using assms h
      by (auto simp: read_message_def Let_def split: sum.splits if_splits protocol_error.splits)
    with at_header h show thesis by blast
  qed
qed

lemma read_message_used:
  assumes "read_message pc r = (res, r')"
  shows "\<exists>used. rd_bytes r = used @ rd_bytes r' \<and> length used \<le> HEADER_LEN + MAX_FRAME_BYTES \<and>
    rd_end r' = rd_end r \<and> (\<forall>m. res = Ok m \<longrightarrow> decode_frame pc used = Ok (m, length used))"
  using assms
proof (cases rule: read_message_cases)
  case (at_header h e)
  then show ?thesis
    using read_exact_used [OF at_header(1)] by (auto intro: le_trans)
next
  case (at_payload hdr r1 p)
  obtain u1 where "rd_bytes r = u1 @ rd_bytes r1" "length u1 \<le> HEADER_LEN" "hdr = u1"
    "rd_end r1 = rd_end r"
    using read_exact_used [OF at_payload(1)] by blast
  moreover obtain u2 where "rd_bytes r1 = u2 @ rd_bytes r'" "length u2 \<le> header_len hdr"
    "\<And>b. p = Ok b \<Longrightarrow> b = u2" "rd_end r' = rd_end r1"
    using take_read_used [OF at_payload(2)] by blast
  ultimately show ?thesis
    using at_payload(3,4) by (intro exI [of _ "u1 @ u2"]) fastforce
qed

lemma decode_payload_error: "decode_payload pc k b = Err e \<Longrightarrow> e = InvalidPayload"
  by (auto simp: decode_payload_def and_then_def map_err_def split: option.splits sum.splits if_splits)

text \<open>An end of stream inside a frame.\<close>

lemma read_message_cut:
  assumes "decode_frame pc input = Ok (m, n)" and "HEADER_LEN < n" and "j < n"
  shows "read_message pc \<lparr>rd_bytes = take j input, rd_end = e\<rparr> =
    (Err (case e of None \<Rightarrow> Protocol TruncatedFrame | Some k \<Rightarrow> io_error k), \<lparr>rd_bytes = [], rd_end = e\<rparr>)"
proof -
  note bounds = decode_frame_Ok_bounds [OF assms(1)]
  obtain h b where hb: "input = h @ b" "length h = HEADER_LEN"
    using bounds split_header [of input] by auto
  with assms(1) have len: "n = HEADER_LEN + header_len h" "header_len h \<le> MAX_FRAME_BYTES"
    by (auto simp: decode_frame_split and_then_eq_Ok Let_def split: if_splits)
  show ?thesis
  proof (cases "j < HEADER_LEN")
    case True
    then have "length (take j input) < HEADER_LEN" by simp
    then show ?thesis
      by (auto simp: read_message_def read_exact_def io_error_def split: option.splits)
  next
    case False
    then have tk: "take j input = h @ take (j - HEADER_LEN) b"
      using hb by simp
    have "decode_frame pc h = Err TruncatedFrame"
      using decode_frame_cut [OF assms(1,2)] hb by simp
    with tk len hb False assms(3) bounds show ?thesis
      by (auto simp: read_message_def read_exact_def take_read_to_end_def Let_def io_error_def
          split: option.splits)
  qed
qed

section \<open>Properties\<close>

text \<open>C15: what is written is read, in order. Writing any sequence of valid messages to a healthy
  stream succeeds, and a peer that receives those bytes, followed by anything, reads exactly the
  same sequence of messages one at a time and leaves the following bytes in the stream.\<close>

theorem messages_in_order:
  assumes "postcard_bounded pc" and "list_all wf_message ms"
  shows "\<exists>sent. write_messages pc ms \<lparr>wr_out = [], wr_fault = None\<rparr> =
      (Ok (), \<lparr>wr_out = sent, wr_fault = None\<rparr>) \<and>
    (\<forall>rest e. read_messages pc (length ms) \<lparr>rd_bytes = sent @ rest, rd_end = e\<rparr> =
      (Ok ms, \<lparr>rd_bytes = rest, rd_end = e\<rparr>))"
proof -
  obtain sent where w: "write_messages pc ms (\<lparr>wr_out = [], wr_fault = None\<rparr>\<lparr>wr_fault := None\<rparr>) =
      (Ok (), \<lparr>wr_out = [], wr_fault = None\<rparr>\<lparr>wr_out := [] @ sent, wr_fault := None\<rparr>)"
    and r: "\<And>r rest. read_messages pc (length ms) (r\<lparr>rd_bytes := sent @ rest\<rparr>) = (Ok ms, r\<lparr>rd_bytes := rest\<rparr>)"
    using write_messages_read_back [OF assms, of "\<lparr>wr_out = [], wr_fault = None\<rparr>"] by auto
  have "read_messages pc (length ms) \<lparr>rd_bytes = sent @ rest, rd_end = e\<rparr> =
      (Ok ms, \<lparr>rd_bytes = rest, rd_end = e\<rparr>)" for rest e
    using r [of rest "\<lparr>rd_bytes = [], rd_end = e\<rparr>"] by simp
  with w show ?thesis by auto
qed

theorem messages_in_order_witness:
  "\<exists>sent. read_messages wire_codec 2 \<lparr>rd_bytes = sent @ [9], rd_end = None\<rparr> =
     (Ok [Ping 7, Drain 250], \<lparr>rd_bytes = [9], rd_end = None\<rparr>)"
  using messages_in_order [OF wire.postcard_bounded_axioms, of "[Ping 7, Drain 250]"]
  by (simp add: numeral_2_eq_2) blast



text \<open>C18: broken frames are classified and never trusted. For every payload codec: a header that
  announces an empty payload is refused as \<open>InvalidPayload\<close>; a stream that reaches its end inside
  a frame is \<open>TruncatedFrame\<close>; a stream that fails there with any other I/O error reports that
  error and not a protocol fault.\<close>

theorem read_message_failures:
  "fst (read_message pc \<lparr>rd_bytes = header v (message_id k) 0 @ rest, rd_end = e\<rparr>) =
     Err (Protocol InvalidPayload) \<and>
   (\<forall>input m n j. decode_frame pc input = Ok (m, n) \<and> HEADER_LEN < n \<and> j < n \<longrightarrow>
     fst (read_message pc \<lparr>rd_bytes = take j input, rd_end = None\<rparr>) = Err (Protocol TruncatedFrame) \<and>
     (\<forall>fault. fault \<noteq> UnexpectedEof \<longrightarrow>
       fst (read_message pc \<lparr>rd_bytes = take j input, rd_end = Some fault\<rparr>) = Err (Io fault)))"
proof -
  have "decode_frame pc (header v (message_id k) 0 @ []) =
      and_then (decode_payload pc k []) (\<lambda>m. Ok (m, HEADER_LEN))"
    by (subst decode_frame_split) simp_all
  moreover have "decode_payload pc k [] = Err InvalidPayload \<or> (\<exists>m. decode_payload pc k [] = Ok m)"
    by (cases "decode_payload pc k []") (auto dest: decode_payload_error)
  ultimately have "fst (read_message pc \<lparr>rd_bytes = header v (message_id k) 0 @ rest, rd_end = e\<rparr>) =
     Err (Protocol InvalidPayload)"
    by (auto simp: read_message_def read_exact_def)
  then show ?thesis
    by (simp add: read_message_cut io_error_def)
qed

theorem read_message_failures_witness:
  "fst (read_message wire_codec \<lparr>rd_bytes = header 1 10 0, rd_end = None\<rparr>) = Err (Protocol InvalidPayload)"
  using read_message_failures [of wire_codec 1 MtPing "[]" None] by simp

end
