(* ===== verification/Endpoint.thy ===== *)
theory Endpoint
  imports Proto
begin

text \<open>
  The canonical \<open>host:port\<close> endpoint (\<open>crates/eggtunnel/src/endpoint.rs\<close>): the text is split at
  the closing bracket of an IPv6 literal or at the last colon, the host goes through the shared
  target validator, and the port is a decimal number in 1 to 65535.
\<close>

datatype endpoint_error = MissingPort | EmptyHost | UnbracketedIpv6 | AmbiguousHost | InvalidPort

record endpoint =
  ep_text :: rstr
  ep_host :: rstr
  ep_port :: u16

text \<open>\<open>strip_prefix\<close> with a character, \<open>find\<close> of a character as a split around its first
  occurrence, and \<open>rsplit_once\<close> as a split around the last one.\<close>

definition strip_char :: "rchar \<Rightarrow> rstr \<Rightarrow> rstr option" where
  "strip_char c s = (case s of [] \<Rightarrow> None | x # r \<Rightarrow> if x = c then Some r else None)"

definition split_first :: "rchar \<Rightarrow> rstr \<Rightarrow> (rstr \<times> rstr) option" where
  "split_first c s =
     (if c \<in> set s then Some (takeWhile (\<lambda>x. x \<noteq> c) s, tl (dropWhile (\<lambda>x. x \<noteq> c) s)) else None)"

definition rsplit_once :: "rchar \<Rightarrow> rstr \<Rightarrow> (rstr \<times> rstr) option" where
  "rsplit_once c s =
     map_option (\<lambda>(post, pre). (rev pre, rev post)) (split_first c (rev s))"

definition ep_validate_host :: "rstr \<Rightarrow> endpoint_error + unit" where
  "ep_validate_host h = map_err (\<lambda>_. AmbiguousHost) (validate_target_host h)"

text \<open>\<open>str::parse::<u16>\<close> on a non-empty run of ASCII digits.\<close>

definition parse_u16 :: "rstr \<Rightarrow> u16 option" where
  "parse_u16 s =
     (let n = digits_value 10 (map (\<lambda>c. c - 48) s) in if n < 2 ^ 16 then Some (of_nat n) else None)"

definition ep_split :: "rstr \<Rightarrow> endpoint_error + (rstr \<times> rstr)" where
  "ep_split value =
     (case strip_char 91 value of
        Some rest \<Rightarrow>
          (case split_first 93 rest of
             None \<Rightarrow> Err MissingPort
           | Some (h, after_bracket) \<Rightarrow>
               (case strip_char 58 after_bracket of
                  None \<Rightarrow> Err MissingPort
                | Some port_text \<Rightarrow>
                    if h = [] then Err EmptyHost
                    else if parse_ipv6 h = None then Err AmbiguousHost
                    else Ok (h, port_text)))
      | None \<Rightarrow>
          (case rsplit_once 58 value of
             None \<Rightarrow> Err MissingPort
           | Some (h, port_text) \<Rightarrow>
               if h = [] then Err EmptyHost
               else if 58 \<in> set h then Err UnbracketedIpv6
               else Ok (h, port_text)))"

definition endpoint_parse :: "rstr \<Rightarrow> endpoint_error + endpoint" where
  "endpoint_parse value =
     and_then (ep_split value) (\<lambda>(h, port_text).
     and_then (ep_validate_host h) (\<lambda>_.
       if port_text = [] \<or> \<not> list_all is_ascii_digit (str_bytes port_text) then Err InvalidPort
       else and_then (ok_or InvalidPort (parse_u16 port_text)) (\<lambda>p.
         if p = 0 then Err InvalidPort
         else Ok \<lparr>ep_text = value, ep_host = h, ep_port = p\<rparr>)))"

definition websocket_url :: "endpoint \<Rightarrow> rstr" where
  "websocket_url e = lit ''wss://'' @ ep_text e @ lit ''/''"

text \<open>The text of a target: brackets around a host with a colon, the port in decimal.\<close>

fun decimal :: "nat \<Rightarrow> rstr" where
  "decimal n = (if n < 10 then [48 + n] else decimal (n div 10) @ [48 + n mod 10])"

declare decimal.simps [simp del]

definition render :: "rstr \<Rightarrow> u16 \<Rightarrow> rstr" where
  "render h p = (if 58 \<in> set h then [91] @ h @ [93] else h) @ [58] @ decimal (unat p)"

section \<open>Lemmas\<close>

lemma split_first_append:
  "c \<notin> set a \<Longrightarrow> split_first c (a @ c # b) = Some (a, b)"
  by (auto simp: split_first_def takeWhile_append dropWhile_append)

lemma split_first_Some: "split_first c s = Some (a, b) \<Longrightarrow> s = a @ c # b \<and> c \<notin> set a"
proof -
  assume "split_first c s = Some (a, b)"
  then have c: "c \<in> set s" and a: "a = takeWhile (\<lambda>x. x \<noteq> c) s" and b: "b = tl (dropWhile (\<lambda>x. x \<noteq> c) s)"
    by (auto simp: split_first_def split: if_splits)
  have ne: "dropWhile (\<lambda>x. x \<noteq> c) s \<noteq> []" using c by (simp add: dropWhile_eq_Nil_conv)
  then have "dropWhile (\<lambda>x. x \<noteq> c) s = c # b"
    using hd_dropWhile [OF ne] b by (cases "dropWhile (\<lambda>x. x \<noteq> c) s") auto
  moreover have "c \<notin> set a" using a by (auto dest: set_takeWhileD)
  ultimately show ?thesis using a by (metis takeWhile_dropWhile_id)
qed

lemma rsplit_once_append: "c \<notin> set b \<Longrightarrow> rsplit_once c (a @ c # b) = Some (a, b)"
  by (simp add: rsplit_once_def split_first_append)

lemma rsplit_once_Some: "rsplit_once c s = Some (a, b) \<Longrightarrow> s = a @ c # b \<and> c \<notin> set b"
proof -
  assume "rsplit_once c s = Some (a, b)"
  then obtain x y where "split_first c (rev s) = Some (x, y)" "a = rev y" "b = rev x"
    by (auto simp: rsplit_once_def)
  then show ?thesis
    using split_first_Some [of c "rev s" x y] by (metis append.assoc append_Cons append_Nil rev.simps(2) rev_append rev_rev_ident set_rev)
qed

lemma digit_char: "d < 10 \<Longrightarrow> is_ascii_digit (48 + d)"
  by (simp add: is_ascii_digit_def)

lemma decimal_digits: "list_all is_ascii_digit (decimal n) \<and> decimal n \<noteq> []"
proof (induction n rule: decimal.induct)
  case (1 n)
  then show ?case
    by (subst (1 2) decimal.simps) (auto simp: digit_char)
qed

lemma digits_value_snoc: "digits_value r (ds @ [d]) = digits_value r ds * r + d"
  by (simp add: digits_value_def)

lemma decimal_value: "digits_value 10 (map (\<lambda>c. c - 48) (decimal n)) = n"
proof (induction n rule: decimal.induct)
  case (1 n)
  then show ?case
    by (subst decimal.simps) (auto simp: digits_value_snoc digits_value_def)
qed

lemma digits_str: "list_all is_ascii_digit (str_bytes s) \<longleftrightarrow> list_all is_ascii_digit s"
  by (rule list_all_str_bytes) (simp add: is_ascii_digit_def)

lemma parse_u16_decimal: "parse_u16 (decimal (unat p)) = Some p" for p :: u16
proof -
  have "unat p < 2 ^ 16" using unsigned_less [of p] by simp
  then show ?thesis by (simp add: parse_u16_def decimal_value Let_def)
qed

lemma ipv6_char_range:
  "ipv6_char c \<Longrightarrow> c = 46 \<or> (48 \<le> c \<and> c \<le> 58) \<or> (65 \<le> c \<and> c \<le> 70) \<or> (97 \<le> c \<and> c \<le> 102)"
  by (auto simp: ipv6_char_def to_digit_def Let_def split: if_splits option.splits)

lemma ipv6_char_not_bad: "ipv6_char c \<Longrightarrow> \<not> bad_host_char c"
  by (auto dest!: ipv6_char_range simp: bad_host_char_def is_whitespace_def is_control_def is_format_char_def
      ambiguous_chars_def)

lemma ipv6_host_valid: "parse_ipv6 h \<noteq> None \<Longrightarrow> validate_target_host h = Ok ()"
proof -
  assume "parse_ipv6 h \<noteq> None"
  then obtain a where a: "parse_ipv6 h = Some a" by auto
  note facts = parse_ipv6_SomeD [OF a]
  have "list_all (\<lambda>c. c < 128) h"
    using facts(2) by (auto simp: list_all_iff dest: ipv6_char_ascii)
  then have "str_len h = length h" by (rule str_len_ascii)
  with facts a show ?thesis
    by (auto simp: validate_target_host_Ok const_defs list_all_iff dest: ipv6_char_not_bad)
qed


text \<open>What a successful split says about the text.\<close>

lemma ep_split_Ok:
  "ep_split value = Ok (h, p) \<Longrightarrow>
     h \<noteq> [] \<and>
     (value = [91] @ h @ [93, 58] @ p \<and> parse_ipv6 h \<noteq> None \<or>
      value = h @ [58] @ p \<and> 58 \<notin> set h \<and> 58 \<notin> set p)"
  by (auto simp: ep_split_def strip_char_def split: option.splits list.splits if_splits
      dest!: split_first_Some rsplit_once_Some)

lemma endpoint_parse_Ok:
  "endpoint_parse value = Ok e \<longleftrightarrow>
     (\<exists>p. ep_split value = Ok (ep_host e, p) \<and> validate_target_host (ep_host e) = Ok () \<and> p \<noteq> [] \<and>
       list_all is_ascii_digit p \<and> parse_u16 p = Some (ep_port e) \<and> ep_port e \<noteq> 0 \<and> ep_text e = value)"
  by (cases e) (auto simp: endpoint_parse_def and_then_eq_Ok ok_or_eq_Ok ep_validate_host_def
      map_err_eq_Ok digits_str split: if_splits)

lemma endpoint_parse_target:
  "endpoint_parse value = Ok e \<Longrightarrow>
     tcp_target_new (ep_host e) (ep_port e) = Ok \<lparr>tt_host = ep_host e, tt_port = ep_port e\<rparr>"
  by (auto simp: endpoint_parse_Ok tcp_target_new_Ok)

lemma bad_host_brackets: "list_all (\<lambda>c. \<not> bad_host_char c) h \<Longrightarrow> 91 \<notin> set h \<and> 93 \<notin> set h"
  by (auto simp: list_all_iff bad_host_char_def ambiguous_chars_def)

lemma ep_split_render:
  assumes "validate_target_host h = Ok ()"
  shows "ep_split (render h p) = Ok (h, decimal (unat p))"
proof -
  note h = assms [unfolded validate_target_host_Ok]
  have nb: "91 \<notin> set h" "93 \<notin> set h"
    using bad_host_brackets h by blast+
  show ?thesis
  proof (cases "58 \<in> set h")
    case True
    with h nb split_first_append [OF nb(2), of "[58] @ decimal (unat p)"] show ?thesis
      by (simp add: ep_split_def render_def strip_char_def)
  next
    case False
    have "58 \<notin> set (decimal (unat p))"
      using decimal_digits [of "unat p"] by (auto simp: list_all_iff is_ascii_digit_def)
    then have "rsplit_once 58 (h @ 58 # decimal (unat p)) = Some (h, decimal (unat p))"
      by (rule rsplit_once_append)
    with False h nb show ?thesis
      by (cases h) (simp_all add: ep_split_def render_def strip_char_def)
  qed
qed

lemma endpoint_render:
  assumes "tcp_target_new h p = Ok t"
  shows "endpoint_parse (render h p) = Ok \<lparr>ep_text = render h p, ep_host = h, ep_port = p\<rparr>"
proof -
  have "validate_target_host h = Ok ()" "p \<noteq> 0"
    using assms by (auto simp: tcp_target_new_Ok)
  then show ?thesis
    using decimal_digits [of "unat p"] by (simp add: endpoint_parse_Ok ep_split_render parse_u16_decimal)
qed

section \<open>Properties\<close>

text \<open>C35: endpoints and wire targets accept the same hosts and ports. For every host and port,
  the endpoint text that renders them parses back to exactly that host and port if and only if
  \<open>TcpTarget::new\<close> accepts them, and every endpoint that parses, from whatever text, is a valid
  target: local configuration and a registering peer are held to one rule.\<close>

theorem endpoint_target_equivalence:
  "((\<exists>e. endpoint_parse (render h p) = Ok e \<and> ep_host e = h \<and> ep_port e = p) \<longleftrightarrow>
     is_ok (tcp_target_new h p)) \<and>
   (case endpoint_parse value of
      Inl _ \<Rightarrow> True
    | Inr e \<Rightarrow> tcp_target_new (ep_host e) (ep_port e) = Ok \<lparr>tt_host = ep_host e, tt_port = ep_port e\<rparr>)"
  using endpoint_render [of h p] endpoint_parse_target
  by (fastforce simp: is_ok_conv split: sum.splits)

end
