(* ===== verification/Auth_Limiter.thy ===== *)
theory Auth_Limiter
  imports Hash_Map Counters Wire_IO
begin

text \<open>
  Authentication throttling (\<open>crates/eggtunnel/src/server/auth.rs\<close>): a sliding window of failure
  instants per peer address, bounded in sources and in instants per source, and the one function
  every refused peer leaves through. Instants are handed in by the caller of \<open>is_blocked_at\<close> and
  \<open>record_failure_at\<close>, as in the source.
\<close>

definition AUTH_FAILURES_PER_SOURCE :: nat where [const_defs]: "AUTH_FAILURES_PER_SOURCE = 10"
definition AUTH_FAILURE_WINDOW :: duration where [const_defs]: "AUTH_FAILURE_WINDOW = from_secs 60"
definition MAX_AUTH_SOURCES :: nat where [const_defs]: "MAX_AUTH_SOURCES = 1024"
definition AUTH_FAILURE_CODE :: u16 where [const_defs]: "AUTH_FAILURE_CODE = 4"

record auth_failure_limiter =
  af_failures :: "(ip_addr, instant list) hashmap"
  af_threshold :: nat
  af_window :: duration
  af_max_sources :: nat

definition auth_failure_limiter_new :: "nat \<Rightarrow> duration \<Rightarrow> nat \<Rightarrow> auth_failure_limiter" where
  "auth_failure_limiter_new threshold window max_sources =
     \<lparr>af_failures = [], af_threshold = threshold, af_window = window, af_max_sources = max_sources\<rparr>"

definition prune :: "auth_failure_limiter \<Rightarrow> instant \<Rightarrow>
    (ip_addr, instant list) hashmap \<Rightarrow> (ip_addr, instant list) hashmap" where
  "prune l now sources =
     hm_retain (\<lambda>_ failures. failures \<noteq> [])
       (hm_map (dropWhile (\<lambda>at. af_window l \<le> saturating_duration_since now at)) sources)"

definition is_blocked_at ::
    "ip_addr \<Rightarrow> instant \<Rightarrow> auth_failure_limiter \<Rightarrow> bool \<times> auth_failure_limiter" where
  "is_blocked_at source now l =
     (let sources = prune l now (af_failures l)
      in (case hm_get sources source of
            None \<Rightarrow> False
          | Some failures \<Rightarrow> af_threshold l \<le> length failures,
          l\<lparr>af_failures := sources\<rparr>))"

text \<open>\<open>while deque.len() > threshold { pop_front }\<close> keeps the last \<open>threshold\<close> entries.\<close>

definition keep_last :: "nat \<Rightarrow> 'a list \<Rightarrow> 'a list" where
  "keep_last n xs = drop (length xs - n) xs"

definition record_failure_at :: "ip_addr \<Rightarrow> instant \<Rightarrow> auth_failure_limiter \<Rightarrow> auth_failure_limiter" where
  "record_failure_at source now l =
     (let sources = prune l now (af_failures l)
      in if \<not> hm_contains sources source \<and> af_max_sources l \<le> hm_len sources
         then l\<lparr>af_failures := sources\<rparr>
         else
           let failures = (case hm_get sources source of None \<Rightarrow> [] | Some f \<Rightarrow> f) @ [now]
           in l\<lparr>af_failures := hm_insert source (keep_last (af_threshold l) failures) sources\<rparr>)"

text \<open>Refusing a peer. The writer stands for the peer's stream within the write budget: a write
  that does not finish is a writer that fails after the bytes it took, and the result of the
  write is ignored.\<close>

definition reject_authentication ::
  "postcard \<Rightarrow> writer \<Rightarrow> ip_addr \<Rightarrow> instant \<Rightarrow> auth_failure_limiter \<Rightarrow> counters \<Rightarrow>
     (tunnel_error + unit) \<times> writer \<times> auth_failure_limiter \<times> counters" where
  "reject_authentication pc w source now l c =
     (let l = record_failure_at source now l; c = reject_count c
      in case bounded_diagnostic_new (lit ''authentication failed'') of
           Inl e \<Rightarrow> (Err (Protocol e), w, l, c)
         | Inr diagnostic \<Rightarrow>
             (case write_message pc (Error AUTH_FAILURE_CODE diagnostic) w of
                (_, w) \<Rightarrow> (Err Authentication, w, l, c)))"

text \<open>A history of the limiter: the queries and failures in the order they happen.\<close>

datatype limiter_event = Queried ip_addr instant | Failed ip_addr instant

fun limiter_step :: "auth_failure_limiter \<Rightarrow> limiter_event \<Rightarrow> auth_failure_limiter" where
  "limiter_step l (Queried s t) = snd (is_blocked_at s t l)"
| "limiter_step l (Failed s t) = record_failure_at s t l"

definition limiter_run :: "auth_failure_limiter \<Rightarrow> limiter_event list \<Rightarrow> auth_failure_limiter" where
  "limiter_run l evs = foldl limiter_step l evs"

fun event_time :: "limiter_event \<Rightarrow> instant" where
  "event_time (Queried s t) = t"
| "event_time (Failed s t) = t"

fun failure_of :: "ip_addr \<Rightarrow> limiter_event \<Rightarrow> bool" where
  "failure_of s (Failed s' t) = (s' = s)"
| "failure_of s (Queried s' t) = False"

definition failure_times :: "ip_addr \<Rightarrow> limiter_event list \<Rightarrow> instant list" where
  "failure_times s evs = map event_time (filter (failure_of s) evs)"

definition failing_sources :: "limiter_event list \<Rightarrow> ip_addr set" where
  "failing_sources evs = {s. failure_times s evs \<noteq> []}"

definition tracked :: "auth_failure_limiter \<Rightarrow> ip_addr \<Rightarrow> instant list" where
  "tracked l s = (case hm_get (af_failures l) s of None \<Rightarrow> [] | Some f \<Rightarrow> f)"

definition limiter_inv :: "auth_failure_limiter \<Rightarrow> bool" where
  "limiter_inv l \<longleftrightarrow> hm_inv (af_failures l) \<and> hm_len (af_failures l) \<le> af_max_sources l \<and>
     (\<forall>s f. hm_get (af_failures l) s = Some f \<longrightarrow> length f \<le> af_threshold l)"

section \<open>Bounds\<close>

lemma prune_inv [simp]: "hm_inv m \<Longrightarrow> hm_inv (prune l now m)"
  by (simp add: prune_def)

lemma prune_len: "hm_inv m \<Longrightarrow> hm_len (prune l now m) \<le> hm_len m"
  using hm.len_retain_le [of "hm_map (dropWhile (\<lambda>at. af_window l \<le> saturating_duration_since now at)) m"]
  by (simp add: prune_def)

lemma prune_get:
  assumes "hm_inv m"
  shows "hm_get (prune l now m) s =
    (case hm_get m s of
       None \<Rightarrow> None
     | Some f \<Rightarrow>
         if dropWhile (\<lambda>at. af_window l \<le> saturating_duration_since now at) f = [] then None
         else Some (dropWhile (\<lambda>at. af_window l \<le> saturating_duration_since now at) f))"
  using assms by (simp add: prune_def hm.get_retain split: option.splits)

lemma prune_get_le: "hm_inv m \<Longrightarrow> hm_get (prune l now m) s = Some f \<Longrightarrow> \<exists>g. hm_get m s = Some g \<and> length f \<le> length g"
  by (auto simp: prune_get length_dropWhile_le split: option.splits if_splits)

lemma keep_last_length: "length (keep_last n xs) = min n (length xs)"
  by (simp add: keep_last_def)

lemma limiter_config [simp]:
  "af_threshold (limiter_step l e) = af_threshold l" "af_window (limiter_step l e) = af_window l"
  "af_max_sources (limiter_step l e) = af_max_sources l"
  by (cases e; simp add: is_blocked_at_def record_failure_at_def Let_def)+

lemma is_blocked_inv: "limiter_inv l \<Longrightarrow> limiter_inv (snd (is_blocked_at s now l))"
  using prune_len [of "af_failures l" l now]
  by (fastforce simp: limiter_inv_def is_blocked_at_def Let_def dest: prune_get_le)

lemma record_failure_inv:
  assumes "limiter_inv l"
  shows "limiter_inv (record_failure_at s now l)"
proof -
  define P where "P = prune l now (af_failures l)"
  have P: "hm_inv P" "hm_len P \<le> af_max_sources l"
    "\<And>s f. hm_get P s = Some f \<Longrightarrow> length f \<le> af_threshold l"
    using assms prune_len [of "af_failures l" l now] prune_get_le [of "af_failures l" l now]
    by (fastforce simp: limiter_inv_def P_def)+
  show ?thesis
  proof (cases "\<not> hm_contains P s \<and> af_max_sources l \<le> hm_len P")
    case True
    with P show ?thesis by (simp add: record_failure_at_def limiter_inv_def Let_def P_def [symmetric])
  next
    case False
    then have "hm_len (hm_insert s v P) \<le> af_max_sources l" for v
      using P hm.len_insert_fresh [of P s v] hm.len_insert_present [of P s v]
      by (cases "hm_get P s") (auto simp: hm_contains_def domIff)
    with P False show ?thesis
      by (auto simp: record_failure_at_def limiter_inv_def Let_def P_def [symmetric]
          keep_last_length split: if_splits)
  qed
qed

lemma limiter_run_inv: "limiter_inv l \<Longrightarrow> limiter_inv (limiter_run l evs)"
proof (induction evs rule: rev_induct)
  case (snoc e evs)
  then show ?case
    by (cases e) (simp_all add: limiter_run_def is_blocked_inv record_failure_inv)
qed (simp add: limiter_run_def)

section \<open>Exactness\<close>

abbreviation expired :: "duration \<Rightarrow> instant \<Rightarrow> instant \<Rightarrow> bool" where
  "expired w now at \<equiv> w \<le> saturating_duration_since now at"

lemma expired_mono: "t \<le> now \<Longrightarrow> expired w t at \<Longrightarrow> expired w now at"
  by (auto simp: saturating_duration_since_def)

lemma expired_antimono: "at \<le> at' \<Longrightarrow> expired w now at' \<Longrightarrow> expired w now at"
  by (auto simp: saturating_duration_since_def)

lemma dropWhile_twice: "(\<And>x. P x \<Longrightarrow> Q x) \<Longrightarrow> dropWhile Q (dropWhile P xs) = dropWhile Q xs"
  by (induction xs) auto

lemma sorted_dropWhile_expired:
  "sorted xs \<Longrightarrow> dropWhile (expired w now) xs = filter (\<lambda>at. \<not> expired w now at) xs"
proof (induction xs)
  case (Cons x xs)
  show ?case
  proof (cases "expired w now x")
    case False
    then have "\<forall>a \<in> set xs. \<not> expired w now a"
      using Cons.prems expired_antimono [of x _ w now] by auto
    with False show ?thesis by simp
  qed (use Cons in simp)
qed simp

lemma keep_last_filter:
  assumes "sorted xs"
  shows "filter (\<lambda>at. \<not> expired w now at) (keep_last n xs) =
    keep_last n (filter (\<lambda>at. \<not> expired w now at) xs)"
  using assms
proof (induction xs)
  case (Cons x xs)
  let ?f = "filter (\<lambda>at. \<not> expired w now at)"
  show ?case
  proof (cases "expired w now x")
    case True
    then have "?f (keep_last n (x # xs)) = ?f (keep_last n xs)"
      by (cases "length xs < n") (auto simp: keep_last_def Suc_diff_le not_less)
    with Cons True show ?thesis by simp
  next
    case False
    then have all: "\<forall>a \<in> set (x # xs). \<not> expired w now a"
      using Cons.prems expired_antimono [of x _ w now] by auto
    moreover have "set (keep_last n (x # xs)) \<subseteq> set (x # xs)"
      unfolding keep_last_def by (rule set_drop_subset)
    ultimately have "?f (keep_last n (x # xs)) = keep_last n (x # xs)"
      by (intro filter_True) (metis subsetD)
    moreover have "?f (x # xs) = x # xs"
      using all by (rule filter_True)
    ultimately show ?thesis by (simp only:)
  qed
qed (simp add: keep_last_def)

lemma sorted_keep_last: "sorted xs \<Longrightarrow> sorted (keep_last n xs)"
  by (simp add: keep_last_def sorted_wrt_drop)

lemma keep_last_snoc: "keep_last n (keep_last n xs @ [x]) = keep_last n (xs @ [x])"
  by (cases "length xs \<le> n") (auto simp: keep_last_def Suc_diff_le)

lemma failure_times_simps [simp]:
  "failure_times s [] = []"
  "failure_times s (evs @ [Queried s' t]) = failure_times s evs"
  "failure_times s (evs @ [Failed s' t]) = (if s' = s then failure_times s evs @ [t] else failure_times s evs)"
  by (simp_all add: failure_times_def)

lemma sorted_failure_times: "sorted (map event_time evs) \<Longrightarrow> sorted (failure_times s evs)"
  by (simp add: failure_times_def sorted_filter)

lemma failure_times_le: "(\<forall>e \<in> set evs. event_time e \<le> t) \<Longrightarrow> x \<in> set (failure_times s evs) \<Longrightarrow> x \<le> t"
  by (auto simp: failure_times_def)

lemma tracked_prune:
  "hm_inv (af_failures l) \<Longrightarrow>
     tracked (l\<lparr>af_failures := prune l now (af_failures l)\<rparr>) s = dropWhile (expired (af_window l) now) (tracked l s)"
  by (cases "hm_get (af_failures l) s") (simp_all add: tracked_def prune_get del: dropWhile_eq_Nil_conv)

lemma limiter_run_config [simp]:
  "af_threshold (limiter_run l evs) = af_threshold l" "af_window (limiter_run l evs) = af_window l"
  "af_max_sources (limiter_run l evs) = af_max_sources l"
  by (induction evs rule: rev_induct; simp add: limiter_run_def)+

lemma limiter_run_snoc [simp]: "limiter_run l (evs @ [e]) = limiter_step (limiter_run l evs) e"
  by (simp add: limiter_run_def)

lemma failing_sources_finite [simp]: "finite (failing_sources evs)"
proof (rule finite_subset)
  show "failing_sources evs \<subseteq> (\<lambda>e. case e of Failed s t \<Rightarrow> s | Queried s t \<Rightarrow> s) ` set evs"
    by (force simp: failing_sources_def failure_times_def filter_empty_conv elim: failure_of.elims)
qed simp

lemma failing_sources_snoc:
  "failing_sources (evs @ [Queried s t]) = failing_sources evs"
  "failing_sources (evs @ [Failed s t]) = insert s (failing_sources evs)"
  by (auto simp: failing_sources_def)

lemma limiter_run_dom:
  assumes "limiter_inv l" and "af_failures l = []"
  shows "hm_get (af_failures (limiter_run l evs)) s \<noteq> None \<Longrightarrow> s \<in> failing_sources evs"
proof (induction evs arbitrary: s rule: rev_induct)
  case Nil
  then show ?case using assms by (simp add: limiter_run_def)
next
  case (snoc e evs)
  have inv: "hm_inv (af_failures (limiter_run l evs))"
    using limiter_run_inv [OF assms(1)] by (simp add: limiter_inv_def)
  have "hm_get (prune k t (af_failures (limiter_run l evs))) s \<noteq> None \<Longrightarrow> s \<in> failing_sources evs" for k t s
    using snoc.IH inv by (auto simp: prune_get split: option.splits if_splits)
  with snoc.prems show ?case
    by (cases e) (auto simp: is_blocked_at_def record_failure_at_def Let_def failing_sources_snoc split: if_splits)
qed

text \<open>With no more failing sources than the table holds, no failure is left out.\<close>

lemma record_admitted:
  assumes "limiter_inv l" and "af_failures l = []"
    and "card (failing_sources (evs @ [Failed s t])) \<le> af_max_sources l"
  shows "let P = prune (limiter_run l evs) t (af_failures (limiter_run l evs))
    in hm_contains P s \<or> hm_len P < af_max_sources l"
proof -
  define P where "P = prune (limiter_run l evs) t (af_failures (limiter_run l evs))"
  have inv: "hm_inv (af_failures (limiter_run l evs))"
    using limiter_run_inv [OF assms(1)] by (simp add: limiter_inv_def)
  then have P: "hm_inv P" by (simp add: P_def)
  have sub: "dom (hm_get P) \<subseteq> failing_sources evs"
    using limiter_run_dom [OF assms(1,2)] inv
    by (fastforce simp: P_def prune_get split: option.splits if_splits)
  have "hm_len P < af_max_sources l" if "\<not> hm_contains P s"
  proof -
    have "s \<notin> dom (hm_get P)" using that by (simp add: hm_contains_def domIff)
    then have "Suc (hm_len P) = card (insert s (dom (hm_get P)))"
      using P by (simp add: hm.len_card hm.finite_keys)
    also have "\<dots> \<le> card (failing_sources (evs @ [Failed s t]))"
      using sub by (intro card_mono) (auto simp: failing_sources_snoc)
    finally show ?thesis using assms(3) by simp
  qed
  then show ?thesis by (auto simp: Let_def P_def [symmetric])
qed

lemma tracked_record:
  assumes "hm_inv (af_failures l)"
    and "let P = prune l t (af_failures l) in hm_contains P s \<or> hm_len P < af_max_sources l"
  shows "tracked (record_failure_at s t l) s' =
    (if s' = s then keep_last (af_threshold l) (dropWhile (expired (af_window l) t) (tracked l s) @ [t])
     else dropWhile (expired (af_window l) t) (tracked l s'))"
  using assms tracked_prune [OF assms(1), of t s] tracked_prune [OF assms(1), of t s']
  by (auto simp: record_failure_at_def Let_def tracked_def not_le)

lemma failing_sources_mono: "failing_sources evs \<subseteq> failing_sources (evs @ [e])"
  by (cases e) (auto simp: failing_sources_snoc)

lemma tracked_exact:
  assumes "limiter_inv l" and "af_failures l = []" and "0 < af_window l"
  shows "sorted (map event_time evs) \<Longrightarrow> card (failing_sources evs) \<le> af_max_sources l \<Longrightarrow>
    \<forall>e \<in> set evs. event_time e \<le> now \<Longrightarrow>
    dropWhile (expired (af_window l) now) (tracked (limiter_run l evs) s) =
      keep_last (af_threshold l) (filter (\<lambda>at. \<not> expired (af_window l) now at) (failure_times s evs))"
proof (induction evs arbitrary: now s rule: rev_induct)
  case Nil
  then show ?case using assms by (simp add: limiter_run_def tracked_def keep_last_def)
next
  case (snoc e evs)
  let ?r = "limiter_run l evs" and ?w = "af_window l" and ?n = "af_threshold l"
  have inv: "hm_inv (af_failures ?r)"
    using limiter_run_inv [OF assms(1)] by (simp add: limiter_inv_def)
  have t: "\<forall>d \<in> set evs. event_time d \<le> event_time e" "sorted (map event_time evs)" "event_time e \<le> now"
    using snoc.prems by (auto simp: sorted_append)
  have now: "\<forall>d \<in> set evs. event_time d \<le> now" using t by fastforce
  have card: "card (failing_sources evs) \<le> af_max_sources l"
    using snoc.prems(2) card_mono [OF failing_sources_finite failing_sources_mono] by (rule le_trans [rotated])
  have sorted: "sorted (failure_times s (evs @ [e]))" "sorted (failure_times s evs)" for s
    using snoc.prems(1) t(2) by (auto intro: sorted_failure_times)
  have later: "dropWhile (expired ?w now) (dropWhile (expired ?w (event_time e)) (tracked ?r s)) =
      keep_last ?n (filter (\<lambda>at. \<not> expired ?w now at) (failure_times s evs))" for s
    using snoc.IH [OF t(2) card now] dropWhile_twice [of "expired ?w (event_time e)" "expired ?w now"]
      expired_mono [OF t(3)] by metis
  show ?case
  proof (cases e)
    case (Queried s' t)
    then show ?thesis
      using later [of s] tracked_prune [OF inv, of t s] by (simp add: is_blocked_at_def Let_def)
  next
    case (Failed s' t')
    have rec: "tracked (limiter_run l (evs @ [e])) s =
        (if s = s' then keep_last ?n (dropWhile (expired ?w t') (tracked ?r s') @ [t'])
         else dropWhile (expired ?w t') (tracked ?r s))"
      using tracked_record [OF inv, of t' s' s] record_admitted [OF assms(1,2), of evs s' t']
        snoc.prems(2) Failed by simp
    show ?thesis
    proof (cases "s = s'")
      case False
      with later [of s] rec Failed show ?thesis by simp
    next
      case True
      have fresh: "\<not> expired ?w t' t'" using assms(3) by (simp add: saturating_duration_since_def)
      have "dropWhile (expired ?w t') (tracked ?r s') =
          keep_last ?n (filter (\<lambda>at. \<not> expired ?w t' at) (failure_times s evs))"
        using snoc.IH [OF t(2) card t(1)] Failed True by simp
      then have "tracked (limiter_run l (evs @ [e])) s =
          keep_last ?n (filter (\<lambda>at. \<not> expired ?w t' at) (failure_times s (evs @ [e])))"
        using rec True Failed fresh by (simp add: keep_last_snoc)
      moreover have "filter (\<lambda>at. \<not> expired ?w now at) (filter (\<lambda>at. \<not> expired ?w t' at) xs) =
          filter (\<lambda>at. \<not> expired ?w now at) xs" for xs
        using expired_mono [OF t(3)] Failed by (auto intro: filter_cong)
      ultimately show ?thesis
        using sorted(1) [of s] by (simp add: sorted_dropWhile_expired sorted_keep_last sorted_wrt_filter keep_last_filter
            del: failure_times_simps filter_filter)
    qed
  qed
qed

lemma tracked_subset:
  assumes "limiter_inv l" and "af_failures l = []"
  shows "set (tracked (limiter_run l evs) s) \<subseteq> set (failure_times s evs)"
proof (induction evs arbitrary: s rule: rev_induct)
  case Nil
  then show ?case using assms by (simp add: limiter_run_def tracked_def)
next
  case (snoc e evs)
  let ?r = "limiter_run l evs"
  have inv: "hm_inv (af_failures ?r)"
    using limiter_run_inv [OF assms(1)] by (simp add: limiter_inv_def)
  have pr: "set (dropWhile P (tracked ?r s)) \<subseteq> set (failure_times s evs)" for P s
    using snoc.IH [of s] set_dropWhileD by fast
  show ?case
  proof (cases e)
    case (Queried s' t)
    then show ?thesis
      using tracked_prune [OF inv, of t s] pr [of _ s] by (simp add: is_blocked_at_def Let_def)
  next
    case (Failed s' t)
    show ?thesis
    proof (cases "let P = prune ?r t (af_failures ?r) in hm_contains P s' \<or> hm_len P < af_max_sources ?r")
      case True
      have "set (keep_last n xs) \<subseteq> set xs" for n and xs :: "nat list"
        by (simp add: keep_last_def set_drop_subset)
      with True Failed pr [of _ s] show ?thesis
        by (fastforce simp: tracked_record [OF inv True])
    next
      case False
      then have "record_failure_at s' t ?r = ?r\<lparr>af_failures := prune ?r t (af_failures ?r)\<rparr>"
        by (auto simp: record_failure_at_def Let_def)
      with Failed tracked_prune [OF inv, of t s] pr [of _ s] show ?thesis by auto
    qed
  qed
qed

lemma new_inv [simp]:
  "limiter_inv (auth_failure_limiter_new n w m)" "af_failures (auth_failure_limiter_new n w m) = []"
  "af_threshold (auth_failure_limiter_new n w m) = n" "af_window (auth_failure_limiter_new n w m) = w"
  "af_max_sources (auth_failure_limiter_new n w m) = m"
  by (simp_all add: auth_failure_limiter_new_def limiter_inv_def)

lemma is_blocked_tracked:
  assumes "hm_inv (af_failures l)" and "0 < af_threshold l"
  shows "fst (is_blocked_at s now l) \<longleftrightarrow>
    af_threshold l \<le> length (dropWhile (expired (af_window l) now) (tracked l s))"
  using assms
  by (cases "hm_get (af_failures l) s")
     (auto simp: is_blocked_at_def tracked_def prune_get Let_def dropWhile_eq_Nil_conv [symmetric]
       simp del: dropWhile_eq_Nil_conv)

section \<open>Properties\<close>

text \<open>C30: the limiter blocks exactly the sources with too many recent failures. For any history
  of queries and failures in time order whose failing sources fit the table, a source is blocked
  at a later instant if and only if at least \<open>threshold\<close> of its failures are younger than the
  window: pruning and the per-source cut lose nothing that matters to the verdict.\<close>

theorem limiter_exact:
  assumes "0 < threshold" and "0 < window" and "sorted (map event_time evs)"
    and "\<forall>e \<in> set evs. event_time e \<le> now" and "card (failing_sources evs) \<le> max_sources"
  shows "fst (is_blocked_at s now (limiter_run (auth_failure_limiter_new threshold window max_sources) evs)) \<longleftrightarrow>
    threshold \<le> length (filter (\<lambda>at. now - at < window) (failure_times s evs))"
proof -
  let ?l = "auth_failure_limiter_new threshold window max_sources"
  have "hm_inv (af_failures (limiter_run ?l evs))"
    using limiter_run_inv [of ?l evs] by (simp add: limiter_inv_def)
  then have "fst (is_blocked_at s now (limiter_run ?l evs)) \<longleftrightarrow>
      threshold \<le> length (keep_last threshold (filter (\<lambda>at. \<not> expired window now at) (failure_times s evs)))"
    using is_blocked_tracked [of "limiter_run ?l evs" s now] tracked_exact [of ?l evs now s] assms by simp
  then show ?thesis
    by (simp add: keep_last_length saturating_duration_since_def not_le)
qed

theorem limiter_exact_witness:
  "fst (is_blocked_at (IpV4 [10, 0, 0, 1]) 30 (limiter_run (auth_failure_limiter_new 2 20 4)
     [Failed (IpV4 [10, 0, 0, 1]) 5, Failed (IpV4 [10, 0, 0, 1]) 15, Queried (IpV4 [10, 0, 0, 2]) 18,
      Failed (IpV4 [10, 0, 0, 1]) 25]))"
proof -
  let ?evs = "[Failed (IpV4 [10, 0, 0, 1]) 5, Failed (IpV4 [10, 0, 0, 1]) 15,
    Queried (IpV4 [10, 0, 0, 2]) 18, Failed (IpV4 [10, 0, 0, 1]) 25]"
  have "failing_sources ?evs \<subseteq> {IpV4 [10, 0, 0, 1]}"
    by (auto simp: failing_sources_def failure_times_def split: if_splits)
  then have "card (failing_sources ?evs) \<le> 4"
    using card_mono [of "{IpV4 [10, 0, 0, 1]}" "failing_sources ?evs"] by simp
  then show ?thesis
    by (subst limiter_exact) (simp_all add: failure_times_def)
qed

text \<open>C31: the limiter is bounded and never blocks a stranger. After any history whatsoever, in any
  time order, the table holds at most \<open>max_sources\<close> sources and at most \<open>threshold\<close> instants for
  each; a source with no failure in the history is not blocked, and a source all of whose failures
  are older than the window is not blocked either.\<close>

theorem limiter_bounded:
  "let l = limiter_run (auth_failure_limiter_new threshold window max_sources) evs in
     hm_len (af_failures l) \<le> max_sources \<and>
     (\<forall>s f. hm_get (af_failures l) s = Some f \<longrightarrow> length f \<le> threshold) \<and>
     (\<forall>s now. fst (is_blocked_at s now l) \<longrightarrow>
        (\<exists>at \<in> set (failure_times s evs). now - at < window))"
proof -
  let ?l = "limiter_run (auth_failure_limiter_new threshold window max_sources) evs"
  have inv: "limiter_inv ?l" by (rule limiter_run_inv) simp
  have "\<exists>at \<in> set (failure_times s evs). now - at < window" if "fst (is_blocked_at s now ?l)" for s now
  proof -
    from that inv obtain f where f: "hm_get (af_failures ?l) s = Some f"
      and "dropWhile (expired window now) f \<noteq> []"
      by (auto simp: is_blocked_at_def Let_def prune_get limiter_inv_def
          simp del: dropWhile_eq_Nil_conv split: option.splits if_splits)
    then obtain at where "at \<in> set f" "\<not> expired window now at"
      by auto
    moreover have "set f \<subseteq> set (failure_times s evs)"
      using tracked_subset [of "auth_failure_limiter_new threshold window max_sources" evs s] f
      by (simp add: tracked_def)
    ultimately show ?thesis by (auto simp: saturating_duration_since_def not_le)
  qed
  with inv show ?thesis by (simp add: limiter_inv_def Let_def)
qed

theorem limiter_bounded_witness:
  "hm_len (af_failures (limiter_run (auth_failure_limiter_new 2 20 1)
     [Failed (IpV4 [10, 0, 0, 1]) 5, Failed (IpV4 [10, 0, 0, 2]) 6])) \<le> 1"
  using limiter_bounded [of 2 20 1 "[Failed (IpV4 [10, 0, 0, 1]) 5, Failed (IpV4 [10, 0, 0, 2]) 6]"]
  by (simp add: Let_def)

text \<open>Every refused peer leaves the same way. Refusing an authentication always reports
  \<open>Authentication\<close>, records exactly one failure for the source, counts one rejection and changes
  no other counter, and on a healthy stream sends the one fixed error frame.\<close>

lemma reject_authentication_uniform:
  "\<exists>w'. reject_authentication pc w source now l c =
     (Err Authentication, w', record_failure_at source now l, c\<lparr>ct_rejected := ct_rejected c + 1\<rparr>) \<and>
   w' = snd (write_message pc (Error AUTH_FAILURE_CODE (BoundedDiagnostic (lit ''authentication failed''))) w)"
proof -
  have "bounded_diagnostic_new (lit ''authentication failed'') =
      Ok (BoundedDiagnostic (lit ''authentication failed''))"
    by (simp add: bounded_diagnostic_new_def lit_def const_defs is_control_def is_format_char_def)
  then show ?thesis
    by (simp add: reject_authentication_def Let_def reject_count_def case_prod_beta)
qed

end
