(* ===== verification/Service_State.thy ===== *)
theory Service_State
  imports Hash_Map Policy "HOL-Library.Multiset"
begin

text \<open>
  Session-local registration state of the client (\<open>crates/eggtunnel/src/client/service_state.rs\<close>).
  A oneshot reply sender is an identifier; sending consumes it, so every operation returns the
  answers it sends as pairs of a reply and a result. Whether the caller has dropped its receiver
  (\<open>is_closed\<close>) is an argument where the code asks.
\<close>

section \<open>State\<close>

type_synonym reply = nat
type_synonym answer = "reply \<times> (tunnel_error + effective_bind)"

record pending_registration =
  pr_service :: client_service
  pr_generation :: u64
  pr_reply :: "reply option"
  pr_deadline :: "instant option"

datatype ack_disposition =
    AckCommit client_service "reply option"
  | AckAbandoned
  | AckStale "reply option"
  | AckUnexpected

datatype reject_disposition =
    RejReject "reply option"
  | RejStale "reply option"
  | RejUnknown

datatype expiry = ExpNone | ExpLegacy | ExpCorrelated nat

datatype registration_mode = LegacySerial | CorrelatedBounded nat

record service_state =
  ss_desired :: "client_service list"
  ss_active :: "(service_id, client_service) hashmap"
  ss_pending :: "pending_registration option"
  ss_in_flight :: "(service_id, pending_registration) hashmap"
  ss_abandoned :: "(service_id, u64) hashmap"
  ss_mode :: registration_mode

datatype transaction_home = HomeLegacy | HomeCorrelated

datatype transaction_take =
    TxFound pending_registration transaction_home
  | TxMismatched
  | TxMissing

section \<open>Operations\<close>

definition service_state_new :: "client_service list \<Rightarrow> service_state" where
  "service_state_new desired =
     \<lparr>ss_desired = desired, ss_active = [], ss_pending = None, ss_in_flight = [],
      ss_abandoned = [], ss_mode = LegacySerial\<rparr>"

fun duplicate_error :: "tunnel_error \<Rightarrow> tunnel_error" where
  "duplicate_error (Configuration message) = Configuration message"
| "duplicate_error (Io _) = Disconnected"
| "duplicate_error (Protocol _) = Disconnected"
| "duplicate_error e = e"

text \<open>The answers to the replies that a transaction, or all of several, still hold.\<close>

definition answer_all :: "tunnel_error \<Rightarrow> pending_registration list \<Rightarrow> answer list" where
  "answer_all e txns = map (\<lambda>r. (r, Err e)) (List.map_filter pr_reply txns)"

definition opt_list :: "'a option \<Rightarrow> 'a list" where
  "opt_list x = (case x of None \<Rightarrow> [] | Some v \<Rightarrow> [v])"

definition finish_pending :: "tunnel_error \<Rightarrow> service_state \<Rightarrow> answer list \<times> service_state" where
  "finish_pending e st =
     (answer_all (duplicate_error e) (opt_list (ss_pending st)) @
      answer_all (duplicate_error e) (hm_values (ss_in_flight st)),
      st\<lparr>ss_pending := None, ss_in_flight := [], ss_abandoned := []\<rparr>)"

definition set_mode :: "registration_mode \<Rightarrow> service_state \<Rightarrow> answer list \<times> service_state" where
  "set_mode mode st =
     (case finish_pending Disconnected st of
        (sent, st) \<Rightarrow> (sent, st\<lparr>ss_abandoned := [], ss_mode := mode\<rparr>))"

definition activate_initial :: "service_state \<Rightarrow> service_state" where
  "activate_initial st =
     st\<lparr>ss_active := foldl (\<lambda>m s. hm_insert (cs_id s) s m) [] (ss_desired st)\<rparr>"

definition unacknowledged :: "service_state \<Rightarrow> nat" where
  "unacknowledged st = (if ss_pending st = None then 0 else 1) + hm_len (ss_in_flight st)"

definition list_min :: "instant list \<Rightarrow> instant option" where
  "list_min xs = (case xs of [] \<Rightarrow> None | x # ys \<Rightarrow> Some (foldl min x ys))"

definition next_deadline :: "service_state \<Rightarrow> instant option" where
  "next_deadline st =
     list_min (List.map_filter pr_deadline (opt_list (ss_pending st) @ hm_values (ss_in_flight st)))"

definition overdue :: "instant \<Rightarrow> pending_registration \<Rightarrow> bool" where
  "overdue now txn = (case pr_deadline txn of None \<Rightarrow> False | Some deadline \<Rightarrow> deadline \<le> now)"

definition expire_overdue :: "instant \<Rightarrow> service_state \<Rightarrow> expiry \<times> answer list \<times> service_state" where
  "expire_overdue now st =
     (let expired = filter (overdue now) (hm_values (ss_in_flight st));
          correlated = length expired;
          sent = answer_all Timeout expired;
          st = st\<lparr>ss_in_flight := hm_retain (\<lambda>_ txn. \<not> overdue now txn) (ss_in_flight st)\<rparr>
      in if (case ss_pending st of None \<Rightarrow> False | Some p \<Rightarrow> overdue now p)
         then (ExpLegacy, sent @ answer_all Timeout (opt_list (ss_pending st)), st\<lparr>ss_pending := None\<rparr>)
         else if 0 < correlated then (ExpCorrelated correlated, sent, st)
         else (ExpNone, sent, st))"

definition same_service :: "client_service \<Rightarrow> client_service \<Rightarrow> bool" where
  "same_service a b \<longleftrightarrow> cs_id a = cs_id b \<or> cs_name a = cs_name b"

definition new_transaction :: "client_service \<Rightarrow> u64 \<Rightarrow> reply \<Rightarrow> pending_registration" where
  "new_transaction service generation r =
     \<lparr>pr_service = service, pr_generation = generation, pr_reply = Some r, pr_deadline = None\<rparr>"

definition begin_registration ::
    "client_service \<Rightarrow> u64 \<Rightarrow> reply \<Rightarrow> service_state \<Rightarrow> ((tunnel_error \<times> reply) + unit) \<times> service_state" where
  "begin_registration service generation r st =
     (if list_ex (\<lambda>existing. same_service existing service) (ss_desired st) \<or>
         (case ss_pending st of None \<Rightarrow> False | Some p \<Rightarrow> same_service (pr_service p) service) \<or>
         list_ex (\<lambda>txn. same_service (pr_service txn) service) (hm_values (ss_in_flight st))
      then (Err (ServiceAlreadyExists, r), st)
      else
        let st = st\<lparr>ss_abandoned := hm_remove (cs_id service) (ss_abandoned st)\<rparr>
        in case ss_mode st of
             LegacySerial \<Rightarrow>
               if ss_pending st \<noteq> None then (Err (ResourceExhausted, r), st)
               else (Ok (), st\<lparr>ss_pending := Some (new_transaction service generation r)\<rparr>)
           | CorrelatedBounded max_in_flight \<Rightarrow>
               if max max_in_flight 1 \<le> hm_len (ss_in_flight st) then (Err (ResourceExhausted, r), st)
               else (Ok (), st\<lparr>ss_in_flight :=
                 hm_insert (cs_id service) (new_transaction service generation r) (ss_in_flight st)\<rparr>))"

definition take_transaction :: "service_id \<Rightarrow> service_state \<Rightarrow> transaction_take \<times> service_state" where
  "take_transaction i st =
     (case ss_pending st of
        Some p \<Rightarrow>
          if cs_id (pr_service p) = i then (TxFound p HomeLegacy, st\<lparr>ss_pending := None\<rparr>)
          else (TxMismatched, st)
      | None \<Rightarrow>
          (case hm_get (ss_in_flight st) i of
             Some txn \<Rightarrow>
               (TxFound txn HomeCorrelated, st\<lparr>ss_in_flight := hm_remove i (ss_in_flight st)\<rparr>)
           | None \<Rightarrow> (TxMissing, st)))"

definition take_ack ::
    "(reply \<Rightarrow> bool) \<Rightarrow> service_id \<Rightarrow> u64 \<Rightarrow> service_state \<Rightarrow> ack_disposition \<times> service_state" where
  "take_ack closed i generation st =
     (case take_transaction i st of
        (TxFound p home, st) \<Rightarrow>
          if pr_generation p \<noteq> generation then (AckStale (pr_reply p), st)
          else if (case pr_reply p of None \<Rightarrow> True | Some r \<Rightarrow> closed r) then (AckAbandoned, st)
          else (AckCommit (pr_service p) (pr_reply p), st)
      | (_, st) \<Rightarrow>
          (case hm_get (ss_abandoned st) i of
             Some g \<Rightarrow>
               (if g = generation then AckAbandoned else AckStale None,
                st\<lparr>ss_abandoned := hm_remove i (ss_abandoned st)\<rparr>)
           | None \<Rightarrow> (AckUnexpected, st)))"

definition take_reject :: "service_id \<Rightarrow> u64 \<Rightarrow> service_state \<Rightarrow> reject_disposition \<times> service_state" where
  "take_reject i generation st =
     (case take_transaction i st of
        (TxFound p home, st) \<Rightarrow>
          if pr_generation p \<noteq> generation then (RejStale (pr_reply p), st)
          else (RejReject (pr_reply p), st)
      | (_, st) \<Rightarrow>
          (case hm_get (ss_abandoned st) i of
             Some g \<Rightarrow> (RejStale None, st\<lparr>ss_abandoned := hm_remove i (ss_abandoned st)\<rparr>)
           | None \<Rightarrow> (RejUnknown, st)))"

definition reject :: "service_state \<Rightarrow> reply option option \<times> service_state" where
  "reject st = (map_option pr_reply (ss_pending st), st\<lparr>ss_pending := None\<rparr>)"

text \<open>The bounded tombstone set: it is emptied when full.\<close>

definition tombstone :: "service_id \<Rightarrow> u64 \<Rightarrow> service_state \<Rightarrow> service_state" where
  "tombstone i generation st =
     (let kept = (if 256 \<le> hm_len (ss_abandoned st) then [] else ss_abandoned st)
      in st\<lparr>ss_abandoned := hm_insert i generation kept\<rparr>)"

definition abandon :: "service_id \<Rightarrow> service_state \<Rightarrow> answer list \<times> service_state" where
  "abandon i st =
     (case hm_get (ss_in_flight st) i of
        None \<Rightarrow> ([], st)
      | Some txn \<Rightarrow>
          (answer_all Timeout [txn],
           tombstone i (pr_generation txn) (st\<lparr>ss_in_flight := hm_remove i (ss_in_flight st)\<rparr>)))"

definition unregister :: "service_id \<Rightarrow> service_state \<Rightarrow> bool \<times> answer list \<times> service_state" where
  "unregister i st =
     (let (sent, st) =
            (case ss_pending st of
               Some p \<Rightarrow>
                 if cs_id (pr_service p) = i
                 then (answer_all Cancelled [p], tombstone i (pr_generation p) (st\<lparr>ss_pending := None\<rparr>))
                 else ([], st)
             | None \<Rightarrow> ([], st));
          sent = sent @ answer_all Cancelled (opt_list (hm_get (ss_in_flight st) i));
          was_active = hm_contains (ss_active st) i
      in (was_active, sent,
          st\<lparr>ss_in_flight := hm_remove i (ss_in_flight st),
             ss_desired := filter (\<lambda>s. cs_id s \<noteq> i) (ss_desired st),
             ss_active := hm_remove i (ss_active st)\<rparr>))"

definition commit :: "client_service \<Rightarrow> service_state \<Rightarrow> service_state" where
  "commit service st =
     st\<lparr>ss_active := hm_insert (cs_id service) service (ss_active st),
        ss_desired := ss_desired st @ [service]\<rparr>"

definition clear_active :: "service_state \<Rightarrow> service_state" where
  "clear_active st = st\<lparr>ss_active := []\<rparr>"

text \<open>Arming the acknowledgement deadline through \<open>pending_mut\<close> and \<open>in_flight_mut\<close>, and disarming
  the legacy reply after a write timeout.\<close>

definition arm_deadline :: "service_id \<Rightarrow> instant \<Rightarrow> service_state \<Rightarrow> service_state" where
  "arm_deadline i deadline st =
     (case ss_mode st of
        LegacySerial \<Rightarrow>
          st\<lparr>ss_pending := map_option (\<lambda>p. p\<lparr>pr_deadline := Some deadline\<rparr>) (ss_pending st)\<rparr>
      | CorrelatedBounded _ \<Rightarrow>
          (case hm_get (ss_in_flight st) i of
             None \<Rightarrow> st
           | Some txn \<Rightarrow>
               st\<lparr>ss_in_flight := hm_insert i (txn\<lparr>pr_deadline := Some deadline\<rparr>) (ss_in_flight st)\<rparr>))"

definition pending_write_timeout :: "service_state \<Rightarrow> answer list \<times> service_state" where
  "pending_write_timeout st =
     (answer_all Timeout (opt_list (ss_pending st)),
      st\<lparr>ss_pending := map_option (\<lambda>p. p\<lparr>pr_reply := None\<rparr>) (ss_pending st)\<rparr>)"

section \<open>Operations as the Session performs them\<close>

text \<open>One step of the registration state: each operation with the answers the Session sends for
  its disposition (\<open>crates/eggtunnel/src/client.rs\<close>). \<open>OpAck\<close> carries the replies whose callers
  are gone.\<close>

datatype service_op =
    OpSetMode registration_mode
  | OpActivateInitial
  | OpClearActive
  | OpBegin client_service u64 reply
  | OpArm service_id instant
  | OpWriteTimeout
  | OpAck service_id u64 effective_bind "reply list"
  | OpReject service_id u64 tunnel_error
  | OpError tunnel_error
  | OpAbandon service_id
  | OpUnregister service_id
  | OpExpire instant
  | OpFinish tunnel_error

definition send :: "tunnel_error + effective_bind \<Rightarrow> reply option \<Rightarrow> answer list" where
  "send result r = map (\<lambda>x. (x, result)) (opt_list r)"

fun ss_step :: "service_state \<Rightarrow> service_op \<Rightarrow> answer list \<times> service_state" where
  "ss_step st (OpSetMode mode) = set_mode mode st"
| "ss_step st OpActivateInitial = ([], activate_initial st)"
| "ss_step st OpClearActive = ([], clear_active st)"
| "ss_step st (OpBegin service generation r) =
     (case begin_registration service generation r st of
        (Inl (e, r), st) \<Rightarrow> ([(r, Err e)], st)
      | (Inr _, st) \<Rightarrow> ([], st))"
| "ss_step st (OpArm i deadline) = ([], arm_deadline i deadline st)"
| "ss_step st OpWriteTimeout = pending_write_timeout st"
| "ss_step st (OpAck i generation bound closed) =
     (case take_ack (\<lambda>r. r \<in> set closed) i generation st of
        (AckCommit service r, st) \<Rightarrow> (send (Ok bound) r, commit service st)
      | (AckStale r, st) \<Rightarrow> (send (Err Disconnected) r, st)
      | (_, st) \<Rightarrow> ([], st))"
| "ss_step st (OpReject i generation e) =
     (case take_reject i generation st of
        (RejReject r, st) \<Rightarrow> (send (Err e) r, st)
      | (RejStale r, st) \<Rightarrow> (send (Err Disconnected) r, st)
      | (RejUnknown, st) \<Rightarrow> ([], st))"
| "ss_step st (OpError e) =
     (case reject st of
        (Some r, st) \<Rightarrow> (send (Err e) r, st)
      | (None, st) \<Rightarrow> ([], st))"
| "ss_step st (OpAbandon i) = abandon i st"
| "ss_step st (OpUnregister i) = snd (unregister i st)"
| "ss_step st (OpExpire now) = snd (expire_overdue now st)"
| "ss_step st (OpFinish e) = finish_pending e st"

fun ss_run :: "service_state \<Rightarrow> service_op list \<Rightarrow> answer list \<times> service_state" where
  "ss_run st [] = ([], st)"
| "ss_run st (op # ops) =
     (case ss_step st op of (sent, st) \<Rightarrow>
        (case ss_run st ops of (later, st) \<Rightarrow> (sent @ later, st)))"

section \<open>Invariant\<close>

definition unique_services :: "client_service list \<Rightarrow> bool" where
  "unique_services ss \<longleftrightarrow> distinct (map cs_id ss) \<and> distinct (map cs_name ss)"

definition ss_tables :: "service_state \<Rightarrow> bool" where
  "ss_tables st \<longleftrightarrow> hm_inv (ss_active st) \<and> hm_inv (ss_in_flight st) \<and> hm_inv (ss_abandoned st)"

definition ss_unique :: "service_state \<Rightarrow> bool" where
  "ss_unique st \<longleftrightarrow> unique_services (ss_desired st) \<and>
     (\<forall>p. ss_pending st = Some p \<longrightarrow> (\<forall>s \<in> set (ss_desired st). \<not> same_service s (pr_service p))) \<and>
     (\<forall>i t. hm_get (ss_in_flight st) i = Some t \<longrightarrow>
        cs_id (pr_service t) = i \<and> (\<forall>s \<in> set (ss_desired st). \<not> same_service s (pr_service t))) \<and>
     (\<forall>i j t u. hm_get (ss_in_flight st) i = Some t \<and> hm_get (ss_in_flight st) j = Some u \<and> i \<noteq> j \<longrightarrow>
        cs_name (pr_service t) \<noteq> cs_name (pr_service u))"

definition ss_modal :: "service_state \<Rightarrow> bool" where
  "ss_modal st \<longleftrightarrow>
     (ss_mode st = LegacySerial \<longrightarrow> (\<forall>i. hm_get (ss_in_flight st) i = None)) \<and>
     (\<forall>n. ss_mode st = CorrelatedBounded n \<longrightarrow>
        ss_pending st = None \<and> hm_len (ss_in_flight st) \<le> max n 1)"

definition ss_tombs :: "service_state \<Rightarrow> bool" where
  "ss_tombs st \<longleftrightarrow> hm_len (ss_abandoned st) \<le> 256 \<and>
     (\<forall>p. ss_pending st = Some p \<longrightarrow> hm_get (ss_abandoned st) (cs_id (pr_service p)) = None) \<and>
     (\<forall>i t. hm_get (ss_in_flight st) i = Some t \<longrightarrow> hm_get (ss_abandoned st) i = None)"

definition ss_actives :: "service_state \<Rightarrow> bool" where
  "ss_actives st \<longleftrightarrow>
     (\<forall>i s. hm_get (ss_active st) i = Some s \<longrightarrow> s \<in> set (ss_desired st) \<and> cs_id s = i)"

definition ss_inv :: "service_state \<Rightarrow> bool" where
  "ss_inv st \<longleftrightarrow> ss_tables st \<and> ss_unique st \<and> ss_modal st \<and> ss_tombs st \<and> ss_actives st"

lemmas ss_inv_defs = ss_inv_def ss_tables_def ss_unique_def ss_modal_def ss_tombs_def ss_actives_def

section \<open>Every operation keeps the invariant\<close>

lemma ss_inv_new: "unique_services desired \<Longrightarrow> ss_inv (service_state_new desired)"
  by (simp add: service_state_new_def ss_inv_defs)

lemma finish_pending_inv: "ss_inv st \<Longrightarrow> ss_inv (snd (finish_pending e st))"
  by (auto simp: finish_pending_def ss_inv_defs)

lemma set_mode_inv: "ss_inv st \<Longrightarrow> ss_inv (snd (set_mode m st))"
  by (auto simp: set_mode_def finish_pending_def ss_inv_defs)

lemma clear_active_inv: "ss_inv st \<Longrightarrow> ss_inv (clear_active st)"
  by (simp add: clear_active_def ss_inv_defs)

lemma fold_insert_get:
  "hm_get (foldl (\<lambda>m s. hm_insert (cs_id s) s m) m ss) i = Some s \<Longrightarrow>
     s \<in> set ss \<and> cs_id s = i \<or> hm_get m i = Some s"
proof (induction ss arbitrary: m)
  case (Cons a ss)
  from Cons.IH [of "hm_insert (cs_id a) a m"] Cons.prems show ?case
    by (auto split: if_splits)
qed simp

lemma fold_insert_inv: "hm_inv m \<Longrightarrow> hm_inv (foldl (\<lambda>m s. hm_insert (cs_id s) s m) m ss)"
  by (induction ss arbitrary: m) simp_all

lemma activate_initial_inv: "ss_inv st \<Longrightarrow> ss_inv (activate_initial st)"
  by (auto simp: activate_initial_def ss_inv_defs fold_insert_inv dest: fold_insert_get)

lemma same_service_commute: "same_service a b \<longleftrightarrow> same_service b a"
  by (auto simp: same_service_def)

lemma new_transaction_simps [simp]:
  "pr_service (new_transaction s g r) = s" "pr_generation (new_transaction s g r) = g"
  "pr_reply (new_transaction s g r) = Some r" "pr_deadline (new_transaction s g r) = None"
  by (simp_all add: new_transaction_def)

lemma hm_len_remove_le: "hm_inv m \<Longrightarrow> hm_len m \<le> n \<Longrightarrow> hm_len (hm_remove k m) \<le> n"
  using hm.len_remove_le by (rule le_trans)

lemma begin_registration_inv: "ss_inv st \<Longrightarrow> ss_inv (snd (begin_registration s g r st))"
proof -
  assume inv: "ss_inv st"
  define st' where "st' = st\<lparr>ss_abandoned := hm_remove (cs_id s) (ss_abandoned st)\<rparr>"
  have st': "ss_inv st'"
    using inv by (auto simp: st'_def ss_inv_defs hm_len_remove_le)
  show ?thesis
  proof (cases "list_ex (\<lambda>existing. same_service existing s) (ss_desired st) \<or>
      (case ss_pending st of None \<Rightarrow> False | Some p \<Rightarrow> same_service (pr_service p) s) \<or>
      list_ex (\<lambda>txn. same_service (pr_service txn) s) (hm_values (ss_in_flight st))")
    case False
    then have new: "\<forall>t \<in> set (ss_desired st). \<not> same_service t s"
      "\<forall>i t. hm_get (ss_in_flight st) i = Some t \<longrightarrow> \<not> same_service (pr_service t) s"
      using inv by (auto simp: list_ex_iff hm_values_get ss_inv_def ss_tables_def)
    have fresh: "hm_get (ss_in_flight st) (cs_id s) = None"
      using new(2) inv by (cases "hm_get (ss_in_flight st) (cs_id s)")
        (auto simp: same_service_def ss_inv_def ss_unique_def)
    have eq: "snd (begin_registration s g r st) = (case ss_mode st of
        LegacySerial \<Rightarrow> if ss_pending st \<noteq> None then st'
          else st'\<lparr>ss_pending := Some (new_transaction s g r)\<rparr>
      | CorrelatedBounded n \<Rightarrow> if max n 1 \<le> hm_len (ss_in_flight st) then st'
          else st'\<lparr>ss_in_flight := hm_insert (cs_id s) (new_transaction s g r) (ss_in_flight st)\<rparr>)"
      using False by (auto simp: begin_registration_def st'_def Let_def split: registration_mode.splits)
    show ?thesis
    proof (cases "ss_mode st")
      case LegacySerial
      with inv new st' show ?thesis unfolding eq
        by (auto simp: st'_def ss_inv_defs hm_len_remove_le)
    next
      case (CorrelatedBounded n)
      have "hm_len (hm_insert (cs_id s) t (ss_in_flight st)) = Suc (hm_len (ss_in_flight st))" for t
        using fresh inv by (simp add: hm.len_insert_fresh ss_inv_def ss_tables_def)
      then have len: "hm_len (ss_in_flight st) < max n 1 \<Longrightarrow>
          hm_len (hm_insert (cs_id s) t (ss_in_flight st)) \<le> max n 1" for t
        by simp
      let ?new = "st'\<lparr>ss_in_flight := hm_insert (cs_id s) (new_transaction s g r) (ss_in_flight st)\<rparr>"
      have "ss_tables ?new" "ss_tombs ?new" "ss_actives ?new"
        using inv by (auto simp: st'_def ss_inv_defs hm_len_remove_le)
      moreover have "ss_unique ?new"
        using inv new unfolding ss_inv_def ss_unique_def same_service_def st'_def
        by (fastforce split: if_splits)
      moreover have "ss_modal ?new" if "hm_len (ss_in_flight st) < max n 1"
        using len [OF that] CorrelatedBounded inv by (simp add: st'_def ss_inv_defs)
      ultimately show ?thesis
        unfolding eq using CorrelatedBounded st' by (simp add: ss_inv_def not_le)
    qed
  qed (use inv in \<open>auto simp: begin_registration_def\<close>)
qed

text \<open>A service that clashes with nothing the state knows can be committed.\<close>

definition clash_free :: "client_service \<Rightarrow> service_state \<Rightarrow> bool" where
  "clash_free s st \<longleftrightarrow> (\<forall>t \<in> set (ss_desired st). \<not> same_service t s) \<and>
     (\<forall>p. ss_pending st = Some p \<longrightarrow> \<not> same_service (pr_service p) s) \<and>
     (\<forall>i t. hm_get (ss_in_flight st) i = Some t \<longrightarrow> \<not> same_service (pr_service t) s)"

lemma unique_services_snoc:
  "unique_services ss \<Longrightarrow> \<forall>t \<in> set ss. \<not> same_service t s \<Longrightarrow> unique_services (ss @ [s])"
  by (auto simp: unique_services_def same_service_def)

lemma commit_inv:
  assumes "ss_inv st" and "clash_free s st"
  shows "ss_inv (commit s st)"
proof -
  have "ss_unique (commit s st)"
    using assms unique_services_snoc [of "ss_desired st" s]
    by (auto simp: ss_inv_def ss_unique_def clash_free_def commit_def same_service_commute [of s])
  moreover have "ss_tables (commit s st)" "ss_modal (commit s st)" "ss_tombs (commit s st)"
    "ss_actives (commit s st)"
    using assms(1) by (auto simp: ss_inv_defs commit_def)
  ultimately show ?thesis by (simp add: ss_inv_def)
qed

lemma remove_in_flight_inv:
  assumes "ss_inv st"
  shows "ss_inv (st\<lparr>ss_in_flight := hm_remove i (ss_in_flight st)\<rparr>)"
proof -
  have "ss_modal (st\<lparr>ss_in_flight := hm_remove i (ss_in_flight st)\<rparr>)"
    using assms by (auto simp: ss_inv_defs intro: hm_len_remove_le)
  moreover have "ss_unique (st\<lparr>ss_in_flight := hm_remove i (ss_in_flight st)\<rparr>)"
    using assms by (simp add: ss_inv_def ss_unique_def)
  ultimately show ?thesis
    using assms by (auto simp: ss_inv_def ss_tables_def ss_tombs_def ss_actives_def)
qed

lemma clear_pending_inv: "ss_inv st \<Longrightarrow> ss_inv (st\<lparr>ss_pending := None\<rparr>)"
  by (simp add: ss_inv_defs)

lemma take_transaction_inv: "ss_inv st \<Longrightarrow> ss_inv (snd (take_transaction i st))"
  by (auto simp: take_transaction_def clear_pending_inv remove_in_flight_inv split: option.splits)

lemma take_transaction_found:
  assumes "ss_inv st" and "take_transaction i st = (TxFound p h, st')"
  shows "cs_id (pr_service p) = i" and "clash_free (pr_service p) st'"
    and "hm_get (ss_abandoned st') i = None" and "ss_desired st' = ss_desired st"
proof -
  note inv = assms(1) [unfolded ss_inv_def ss_unique_def ss_modal_def ss_tombs_def]
  show "cs_id (pr_service p) = i" "ss_desired st' = ss_desired st" "hm_get (ss_abandoned st') i = None"
    using assms(2) inv by (auto simp: take_transaction_def split: option.splits if_splits)
  show "clash_free (pr_service p) st'"
  proof (cases "ss_pending st")
    case None
    then have "hm_get (ss_in_flight st) i = Some p" "st' = st\<lparr>ss_in_flight := hm_remove i (ss_in_flight st)\<rparr>"
      using assms(2) by (auto simp: take_transaction_def split: option.splits)
    moreover from this inv have "\<not> same_service (pr_service t) (pr_service p)"
      if "hm_get (ss_in_flight st) j = Some t" "j \<noteq> i" for j t
      using that unfolding same_service_def by metis
    ultimately show ?thesis using inv None by (auto simp: clash_free_def)
  next
    case (Some q)
    then have "q = p" "st' = st\<lparr>ss_pending := None\<rparr>"
      using assms(2) by (auto simp: take_transaction_def split: if_splits)
    moreover have "hm_get (ss_in_flight st) j = None" for j
      using inv Some by (cases "ss_mode st") auto
    ultimately show ?thesis using inv Some by (auto simp: clash_free_def)
  qed
qed

lemma forget_tombstone_inv: "ss_inv st \<Longrightarrow> ss_inv (st\<lparr>ss_abandoned := hm_remove i (ss_abandoned st)\<rparr>)"
  by (auto simp: ss_inv_defs hm_len_remove_le)

lemma take_ack_inv: "ss_inv st \<Longrightarrow> ss_inv (snd (take_ack closed i g st))"
  using take_transaction_inv [of st i]
  by (auto simp: take_ack_def forget_tombstone_inv split: transaction_take.splits prod.splits option.splits)

lemma take_ack_commitD:
  "take_ack closed i g st = (AckCommit s r, st') \<Longrightarrow>
     \<exists>p h. take_transaction i st = (TxFound p h, st') \<and> s = pr_service p \<and> r = pr_reply p \<and>
       pr_generation p = g \<and> (\<exists>x. r = Some x \<and> \<not> closed x)"
  by (cases "take_transaction i st")
     (auto simp: take_ack_def eq_commute [of "Some _" "pr_reply _"]
       split: transaction_take.splits option.splits if_splits)

lemma take_ack_commit:
  assumes "ss_inv st" and "take_ack closed i g st = (AckCommit s r, st')"
  shows "clash_free s st'" and "cs_id s = i"
  using take_ack_commitD [OF assms(2)] take_transaction_found [OF assms(1), of i] by blast+

lemma take_reject_inv: "ss_inv st \<Longrightarrow> ss_inv (snd (take_reject i g st))"
  using take_transaction_inv [of st i]
  by (auto simp: take_reject_def forget_tombstone_inv split: transaction_take.splits prod.splits option.splits)

lemma reject_inv: "ss_inv st \<Longrightarrow> ss_inv (snd (reject st))"
  by (simp add: reject_def clear_pending_inv)

lemma tombstone_simps [simp]:
  "ss_desired (tombstone i g st) = ss_desired st" "ss_active (tombstone i g st) = ss_active st"
  "ss_pending (tombstone i g st) = ss_pending st" "ss_in_flight (tombstone i g st) = ss_in_flight st"
  "ss_mode (tombstone i g st) = ss_mode st"
  by (simp_all add: tombstone_def Let_def)

lemma tombstone_inv:
  assumes "ss_inv st" and "hm_get (ss_in_flight st) i = None"
    and "\<And>p. ss_pending st = Some p \<Longrightarrow> cs_id (pr_service p) \<noteq> i"
  shows "ss_inv (tombstone i g st)"
proof -
  define kept where "kept = (if 256 \<le> hm_len (ss_abandoned st) then [] else ss_abandoned st)"
  have "hm_inv kept" "hm_len kept < 256"
    using assms(1) by (auto simp: kept_def ss_inv_defs)
  then have "hm_inv (hm_insert i g kept)" "hm_len (hm_insert i g kept) \<le> 256"
    using hm.len_insert_le [of kept i g] by auto
  moreover have kept: "hm_get (ss_abandoned st) j = None \<Longrightarrow> hm_get kept j = None" for j
    by (simp add: kept_def)
  moreover have ab: "ss_abandoned (tombstone i g st) = hm_insert i g kept"
    by (simp add: tombstone_def Let_def kept_def)
  ultimately have "ss_tombs (tombstone i g st)"
    using assms(2,3) assms(1) [unfolded ss_inv_def ss_tombs_def]
    unfolding ss_tombs_def ab tombstone_simps by auto
  moreover have "ss_tables (tombstone i g st)"
    using \<open>hm_inv (hm_insert i g kept)\<close> assms(1)
    by (simp add: ss_inv_def ss_tables_def tombstone_def kept_def [symmetric])
  moreover have "ss_unique (tombstone i g st)" "ss_modal (tombstone i g st)" "ss_actives (tombstone i g st)"
    using assms(1) by (simp_all add: ss_inv_def ss_unique_def ss_modal_def ss_actives_def)
  ultimately show ?thesis by (simp add: ss_inv_def)
qed

lemma abandon_inv: "ss_inv st \<Longrightarrow> ss_inv (snd (abandon i st))"
proof (cases "hm_get (ss_in_flight st) i")
  case (Some txn)
  assume inv: "ss_inv st"
  have "ss_pending st = None"
    using inv Some by (cases "ss_mode st") (auto simp: ss_inv_def ss_modal_def)
  then show ?thesis
    using inv Some by (auto simp: abandon_def intro!: tombstone_inv remove_in_flight_inv)
qed (simp add: abandon_def)

lemma forget_service_inv:
  "ss_inv st \<Longrightarrow> ss_inv (st\<lparr>ss_in_flight := hm_remove i (ss_in_flight st),
     ss_desired := filter (\<lambda>s. cs_id s \<noteq> i) (ss_desired st), ss_active := hm_remove i (ss_active st)\<rparr>)"
proof -
  assume "ss_inv st"
  then have inv: "ss_inv (st\<lparr>ss_in_flight := hm_remove i (ss_in_flight st)\<rparr>)" (is "ss_inv ?s")
    by (rule remove_in_flight_inv)
  have "unique_services (filter (\<lambda>s. cs_id s \<noteq> i) (ss_desired st))"
    using inv by (auto simp: ss_inv_def ss_unique_def unique_services_def distinct_map_filter)
  with inv show ?thesis
    by (auto simp: ss_inv_def ss_tables_def ss_unique_def ss_modal_def ss_tombs_def ss_actives_def)
qed

lemma unregister_inv: "ss_inv st \<Longrightarrow> ss_inv (snd (snd (unregister i st)))"
proof -
  assume inv: "ss_inv st"
  have "ss_inv (tombstone i g (st\<lparr>ss_pending := None\<rparr>))"
    if "ss_pending st = Some p" for p g
  proof (rule tombstone_inv)
    show "ss_inv (st\<lparr>ss_pending := None\<rparr>)" using inv by (rule clear_pending_inv)
    show "hm_get (ss_in_flight (st\<lparr>ss_pending := None\<rparr>)) i = None"
      using inv that by (cases "ss_mode st") (auto simp: ss_inv_def ss_modal_def)
  qed simp
  moreover define st1 where "st1 = (case ss_pending st of
      Some p \<Rightarrow> if cs_id (pr_service p) = i then tombstone i (pr_generation p) (st\<lparr>ss_pending := None\<rparr>) else st
    | None \<Rightarrow> st)"
  ultimately have "ss_inv st1"
    using inv by (auto split: option.splits)
  moreover have "snd (snd (unregister i st)) = st1\<lparr>ss_in_flight := hm_remove i (ss_in_flight st1),
      ss_desired := filter (\<lambda>s. cs_id s \<noteq> i) (ss_desired st1), ss_active := hm_remove i (ss_active st1)\<rparr>"
    by (auto simp: unregister_def st1_def Let_def split: option.splits)
  ultimately show ?thesis by (simp only: forget_service_inv)
qed

lemma expire_overdue_inv: "ss_inv st \<Longrightarrow> ss_inv (snd (snd (expire_overdue now st)))"
proof -
  assume inv: "ss_inv st"
  let ?m = "hm_retain (\<lambda>_ txn. \<not> overdue now txn) (ss_in_flight st)"
  have tables: "hm_inv (ss_in_flight st)" using inv by (simp add: ss_inv_defs)
  have get: "hm_get ?m i = Some t \<longleftrightarrow> hm_get (ss_in_flight st) i = Some t \<and> \<not> overdue now t" for i t
    using tables by (simp add: hm.get_retain_Some)
  have "ss_inv (st\<lparr>ss_in_flight := ?m\<rparr>)"
  proof -
    have "ss_modal (st\<lparr>ss_in_flight := ?m\<rparr>)"
      using inv hm.len_retain_le [OF tables, of "\<lambda>_ txn. \<not> overdue now txn"]
      by (fastforce simp: ss_inv_def ss_modal_def get hm.get_retain [OF tables])
    with inv show ?thesis
      by (auto simp: ss_inv_def ss_tables_def ss_unique_def ss_tombs_def ss_actives_def get)
  qed
  then show ?thesis
    by (auto simp: expire_overdue_def Let_def dest: clear_pending_inv)
qed

lemma arm_deadline_inv: "ss_inv st \<Longrightarrow> ss_inv (arm_deadline i d st)"
proof -
  assume inv: "ss_inv st"
  show ?thesis
  proof (cases "ss_mode st")
    case LegacySerial
    with inv show ?thesis
      by (auto simp: arm_deadline_def ss_inv_defs)
  next
    case (CorrelatedBounded n)
    show ?thesis
    proof (cases "hm_get (ss_in_flight st) i")
      case (Some t)
      have "hm_len (hm_insert i u (ss_in_flight st)) = hm_len (ss_in_flight st)" for u
        using inv Some by (intro hm.len_insert_present) (auto simp: ss_inv_defs)
      with inv Some CorrelatedBounded show ?thesis
        by (simp add: arm_deadline_def ss_inv_defs) metis
    qed (use inv CorrelatedBounded in \<open>simp add: arm_deadline_def\<close>)
  qed
qed

lemma pending_write_timeout_inv: "ss_inv st \<Longrightarrow> ss_inv (snd (pending_write_timeout st))"
  by (auto simp: pending_write_timeout_def ss_inv_defs)

lemmas ss_op_invs = set_mode_inv activate_initial_inv clear_active_inv begin_registration_inv
  arm_deadline_inv pending_write_timeout_inv take_ack_inv commit_inv take_reject_inv reject_inv
  abandon_inv unregister_inv expire_overdue_inv finish_pending_inv

lemma ss_step_inv: "ss_inv st \<Longrightarrow> ss_inv (snd (ss_step st op))"
proof (cases op)
  case (OpAck i g b closed)
  assume inv: "ss_inv st"
  obtain d st' where ack: "take_ack (\<lambda>r. r \<in> set closed) i g st = (d, st')" by fastforce
  have "ss_inv st'" using take_ack_inv [OF inv] ack by (metis snd_conv)
  then show ?thesis
    using OpAck ack take_ack_commit [OF inv] by (auto intro: commit_inv split: ack_disposition.splits)
next
  case (OpBegin s g r)
  assume "ss_inv st"
  from begin_registration_inv [OF this, of s g r] OpBegin show ?thesis
    by (auto split: prod.splits sum.splits)
next
  case (OpReject i g e)
  assume "ss_inv st"
  from take_reject_inv [OF this, of i g] OpReject show ?thesis
    by (auto split: prod.splits reject_disposition.splits)
next
  case (OpError e)
  assume "ss_inv st"
  from reject_inv [OF this] OpError show ?thesis by (auto split: prod.splits option.splits)
qed (simp_all add: ss_op_invs)

lemma ss_run_inv: "ss_inv st \<Longrightarrow> ss_inv (snd (ss_run st ops))"
proof (induction ops arbitrary: st)
  case (Cons op ops)
  from Cons.IH [OF ss_step_inv [OF Cons.prems, of op]] show ?case
    by (simp add: case_prod_beta)
qed simp

section \<open>Replies are neither lost nor answered twice\<close>

definition reply_bag :: "pending_registration multiset \<Rightarrow> reply multiset" where
  "reply_bag txns = \<Sum>\<^sub># (image_mset (\<lambda>t. mset (opt_list (pr_reply t))) txns)"

definition transactions :: "service_state \<Rightarrow> pending_registration multiset" where
  "transactions st = mset (opt_list (ss_pending st)) + mset (hm_values (ss_in_flight st))"

abbreviation held :: "service_state \<Rightarrow> reply multiset" where
  "held st \<equiv> reply_bag (transactions st)"

fun begun :: "service_op \<Rightarrow> reply multiset" where
  "begun (OpBegin s g r) = {#r#}"
| "begun _ = {#}"

fun gone :: "service_op \<Rightarrow> reply set" where
  "gone (OpAck i g b closed) = set closed"
| "gone _ = {}"

abbreviation answered :: "answer list \<Rightarrow> reply multiset" where
  "answered sent \<equiv> image_mset fst (mset sent)"

lemma reply_bag_simps [simp]:
  "reply_bag {#} = {#}" "reply_bag (add_mset t M) = mset (opt_list (pr_reply t)) + reply_bag M"
  "reply_bag (M + N) = reply_bag M + reply_bag N"
  by (simp_all add: reply_bag_def)

lemma opt_list_simps [simp]: "opt_list None = []" "opt_list (Some x) = [x]"
  by (simp_all add: opt_list_def)

lemma answered_simps [simp]:
  "send result None = []" "answered (send result r) = mset (opt_list r)"
  "answered (answer_all e txns) = reply_bag (mset txns)"
proof -
  show "send result None = []" by (simp add: send_def)
  show "answered (send result r) = mset (opt_list r)"
    by (cases r) (simp_all add: send_def)
  show "answered (answer_all e txns) = reply_bag (mset txns)"
  proof (induction txns)
    case (Cons t ts)
    then show ?case by (cases "pr_reply t") (simp_all add: answer_all_def List.map_filter_simps)
  qed (simp add: answer_all_def List.map_filter_simps)
qed

lemma hm_values_insert_fresh:
  "hm_get m k = None \<Longrightarrow> mset (hm_values (hm_insert k v m)) = add_mset v (mset (hm_values m))"
  by (induction m) (auto simp: hm_get_def hm_insert_def hm_values_def split: if_splits)

lemma hm_values_remove_absent: "hm_get m k = None \<Longrightarrow> hm_remove k m = m"
  by (induction m) (auto simp: hm_get_def hm_remove_def split: if_splits)

lemma hm_values_remove:
  "hm_inv m \<Longrightarrow> hm_get m k = Some v \<Longrightarrow>
     mset (hm_values m) = add_mset v (mset (hm_values (hm_remove k m)))"
proof (induction m)
  case (Cons kv m)
  obtain a b where kv: "kv = (a, b)" by fastforce
  show ?case
  proof (cases "a = k")
    case True
    then have "hm_get m k = None"
      using Cons.prems(1) kv by (auto simp: hm_inv_def hm_get_def map_of_eq_None_iff)
    then have "hm_remove k (kv # m) = m"
      using True kv hm_values_remove_absent [of m k] by (simp add: hm_remove_def)
    then show ?thesis using Cons.prems(2) True kv by (simp add: hm_get_def hm_values_def)
  next
    case False
    with Cons kv show ?thesis by (auto simp: hm_inv_def hm_get_def hm_remove_def hm_values_def)
  qed
qed (simp add: hm_get_def)

lemma hm_values_insert_present:
  assumes "hm_inv m" and "hm_get m k = Some w"
  shows "mset (hm_values (hm_insert k v m)) = add_mset v (mset (hm_values (hm_remove k m)))"
proof -
  have "hm_remove k (hm_insert k v m) = hm_remove k m"
    by (induction m) (auto simp: hm_remove_def hm_insert_def)
  then show ?thesis
    using hm_values_remove [of "hm_insert k v m" k v] assms by simp
qed

lemma hm_values_retain: "hm_values (hm_retain (\<lambda>_ v. P v) m) = filter P (hm_values m)"
  by (induction m) (auto simp: hm_retain_def hm_values_def)

lemma take_transaction_replies:
  assumes "hm_inv (ss_in_flight st)"
  shows "case take_transaction i st of
      (TxFound p h, st') \<Rightarrow> transactions st = add_mset p (transactions st')
    | (_, st') \<Rightarrow> st' = st"
  using hm_values_remove [OF assms, of i]
  by (auto simp: take_transaction_def transactions_def split: option.splits)

lemma begin_replies:
  assumes "ss_inv st"
  shows "held st + {#r#} = held (snd (ss_step st (OpBegin s g r))) + answered (fst (ss_step st (OpBegin s g r)))"
proof -
  have "hm_get (ss_in_flight st) (cs_id s) = None"
    if "\<not> list_ex (\<lambda>txn. same_service (pr_service txn) s) (hm_values (ss_in_flight st))"
  proof (rule ccontr)
    assume "hm_get (ss_in_flight st) (cs_id s) \<noteq> None"
    then obtain t where t: "hm_get (ss_in_flight st) (cs_id s) = Some t" by blast
    with assms have "t \<in> set (hm_values (ss_in_flight st))" and "cs_id (pr_service t) = cs_id s"
      by (auto simp: hm_values_get ss_inv_def ss_tables_def ss_unique_def)
    with that show False by (auto simp: list_ex_iff same_service_def)
  qed
  then show ?thesis
    using hm_values_insert_fresh [of "ss_in_flight st" "cs_id s" "new_transaction s g r"]
    by (auto simp: begin_registration_def transactions_def Let_def split: registration_mode.splits option.splits)
qed

lemma arm_replies: "ss_inv st \<Longrightarrow> held (arm_deadline i d st) = held st"
proof -
  assume inv: "ss_inv st"
  have "mset (hm_values (hm_insert i (t\<lparr>pr_deadline := Some d\<rparr>) (ss_in_flight st))) =
      add_mset (t\<lparr>pr_deadline := Some d\<rparr>) (mset (hm_values (ss_in_flight st)) - {#t#})"
    if "hm_get (ss_in_flight st) i = Some t" for t
    using that inv hm_values_insert_present [of "ss_in_flight st" i t] hm_values_remove [of "ss_in_flight st" i t]
    by (simp add: ss_inv_def ss_tables_def)
  moreover have "reply_bag (mset (hm_values (ss_in_flight st))) =
      mset (opt_list (pr_reply t)) + reply_bag (mset (hm_values (ss_in_flight st)) - {#t#})"
    if "hm_get (ss_in_flight st) i = Some t" for t
    using that inv hm_values_remove [of "ss_in_flight st" i t] by (simp add: ss_inv_def ss_tables_def)
  ultimately show ?thesis
    by (cases "ss_pending st")
       (auto simp: arm_deadline_def transactions_def split: registration_mode.splits option.splits)
qed

lemma ack_replies:
  assumes "ss_inv st"
  shows "\<exists>dropped. held st = held (snd (ss_step st (OpAck i g b closed))) +
      answered (fst (ss_step st (OpAck i g b closed))) + dropped \<and> set_mset dropped \<subseteq> set closed"
proof -
  have inv: "hm_inv (ss_in_flight st)" using assms by (simp add: ss_inv_def ss_tables_def)
  obtain t st' where t: "take_transaction i st = (t, st')" by fastforce
  note tr = take_transaction_replies [OF inv, of i, unfolded t]
  have same: "transactions (commit x st') = transactions st'"
    "transactions (st'\<lparr>ss_abandoned := m\<rparr>) = transactions st'" for x m
    by (simp_all add: transactions_def commit_def)
  show ?thesis
  proof (cases t)
    case (TxFound p h)
    with tr have "transactions st = add_mset p (transactions st')" by simp
    then show ?thesis
      using t TxFound same
      by (cases "pr_reply p") (auto simp: take_ack_def intro: exI [of _ "{#}"] exI [of _ "{#_#}"])
  qed (use t tr same in \<open>auto simp: take_ack_def split: option.splits\<close>)
qed

lemma reject_replies:
  assumes "ss_inv st"
  shows "held st = held (snd (ss_step st (OpReject i g e))) + answered (fst (ss_step st (OpReject i g e)))"
proof -
  have inv: "hm_inv (ss_in_flight st)" using assms by (simp add: ss_inv_def ss_tables_def)
  obtain t st' where t: "take_transaction i st = (t, st')" by fastforce
  note tr = take_transaction_replies [OF inv, of i, unfolded t]
  have "transactions (st'\<lparr>ss_abandoned := m\<rparr>) = transactions st'" for m
    by (simp add: transactions_def)
  with t tr show ?thesis
    by (cases t) (auto simp: take_reject_def split: option.splits)
qed

lemma filter_replies: "reply_bag (mset (filter P xs)) + reply_bag (mset (filter (\<lambda>x. \<not> P x) xs)) = reply_bag (mset xs)"
  by (induction xs) auto

lemma unregister_replies:
  assumes "ss_inv st"
  shows "held st = held (snd (snd (unregister i st))) + answered (fst (snd (unregister i st)))"
proof -
  have rm: "reply_bag (mset (hm_values (ss_in_flight st))) =
      reply_bag (mset (hm_values (hm_remove i (ss_in_flight st)))) +
      reply_bag (mset (opt_list (hm_get (ss_in_flight st) i)))"
    using assms hm_values_remove [of "ss_in_flight st" i] hm_values_remove_absent [of "ss_in_flight st" i]
    by (cases "hm_get (ss_in_flight st) i") (auto simp: ss_inv_def ss_tables_def)
  then show ?thesis
    by (auto simp: unregister_def transactions_def Let_def split: option.splits)
qed

lemma ss_step_replies:
  assumes "ss_inv st"
  shows "\<exists>dropped. held st + begun op = held (snd (ss_step st op)) + answered (fst (ss_step st op)) + dropped \<and>
    set_mset dropped \<subseteq> gone op"
proof (cases op)
  case (OpBegin s g r)
  then show ?thesis
    using begin_replies [OF assms, of r s g] by (auto simp del: ss_step.simps)
next
  case (OpAck i g b closed)
  then show ?thesis using ack_replies [OF assms, of i g b closed] by simp
next
  case (OpReject i g e)
  then show ?thesis
    using reject_replies [OF assms, of i g e] by (auto simp del: ss_step.simps)
next
  case (OpArm i d)
  then show ?thesis by (simp add: arm_replies [OF assms])
next
  case (OpUnregister i)
  then show ?thesis using unregister_replies [OF assms, of i] by auto
next
  case (OpAbandon i)
  have "hm_inv (ss_in_flight st)" using assms by (simp add: ss_inv_def ss_tables_def)
  then show ?thesis
    using OpAbandon hm_values_remove [of "ss_in_flight st" i]
    by (auto simp: abandon_def transactions_def split: option.splits)
next
  case (OpExpire now)
  have "held st = held (snd (snd (expire_overdue now st))) + answered (fst (snd (expire_overdue now st)))"
    using filter_replies [of "overdue now" "hm_values (ss_in_flight st)", symmetric]
    by (cases "ss_pending st"; cases "filter (overdue now) (hm_values (ss_in_flight st)) = []")
       (auto simp: expire_overdue_def transactions_def Let_def hm_values_retain ac_simps simp del: mset_filter)
  with OpExpire show ?thesis by auto
next
  case OpWriteTimeout
  then show ?thesis
    by (cases "ss_pending st") (auto simp: pending_write_timeout_def transactions_def)
qed (auto simp: set_mode_def finish_pending_def activate_initial_def clear_active_def transactions_def
      reject_def hm_values_def split: option.splits)

lemma ss_run_replies:
  assumes "ss_inv st"
  shows "\<exists>dropped. held st + \<Sum>\<^sub># (mset (map begun ops)) =
      held (snd (ss_run st ops)) + answered (fst (ss_run st ops)) + dropped \<and>
    set_mset dropped \<subseteq> \<Union> (gone ` set ops)"
  using assms
proof (induction ops arbitrary: st)
  case (Cons op ops)
  let ?st = "snd (ss_step st op)"
  obtain d1 where d1: "held st + begun op = held ?st + answered (fst (ss_step st op)) + d1"
    "set_mset d1 \<subseteq> gone op" using ss_step_replies [OF Cons.prems] by blast
  obtain d2 where d2: "held ?st + \<Sum>\<^sub># (mset (map begun ops)) =
      held (snd (ss_run ?st ops)) + answered (fst (ss_run ?st ops)) + d2"
    "set_mset d2 \<subseteq> \<Union> (gone ` set ops)" using Cons.IH [OF ss_step_inv [OF Cons.prems]] by blast
  have "held st + \<Sum>\<^sub># (mset (map begun (op # ops))) =
      held (snd (ss_run st (op # ops))) + answered (fst (ss_run st (op # ops))) + (d1 + d2)"
  proof -
    have "held st + (begun op + \<Sum>\<^sub># (mset (map begun ops))) =
        (held ?st + \<Sum>\<^sub># (mset (map begun ops))) + answered (fst (ss_step st op)) + d1"
      using arg_cong [OF d1(1), of "\<lambda>M. M + \<Sum>\<^sub># (mset (map begun ops))"] by (simp only: ac_simps)
    then show ?thesis unfolding d2(1) by (simp add: case_prod_beta ac_simps)
  qed
  with d1(2) d2(2) show ?case by (intro exI [of _ "d1 + d2"]) auto
qed simp

section \<open>Deadlines\<close>

lemma foldl_min: "foldl min (x::nat) ys \<in> set (x # ys) \<and> (\<forall>z \<in> set (x # ys). foldl min x ys \<le> z)"
proof (induction ys arbitrary: x)
  case (Cons y ys)
  from Cons.IH [of "min x y"] show ?case by (auto simp: min_def split: if_splits)
qed simp

lemma list_min_Some: "list_min xs = Some m \<longleftrightarrow> m \<in> set xs \<and> (\<forall>x \<in> set xs. m \<le> x)"
proof (cases xs)
  case (Cons x ys)
  then show ?thesis
    using foldl_min [of x ys] by (auto simp: list_min_def intro: antisym)
qed (simp add: list_min_def)

lemma set_map_filter: "set (List.map_filter f xs) = {y. \<exists>x \<in> set xs. f x = Some y}"
  by (force simp: List.map_filter_def)

lemma next_deadline_Some:
  "next_deadline st = Some d \<longleftrightarrow>
     (\<exists>t \<in># transactions st. pr_deadline t = Some d) \<and>
     (\<forall>t \<in># transactions st. \<forall>e. pr_deadline t = Some e \<longrightarrow> d \<le> e)"
  by (auto simp: next_deadline_def list_min_Some set_map_filter transactions_def)

lemma expire_transactions:
  "ss_inv st \<Longrightarrow> transactions (snd (snd (expire_overdue now st))) = filter_mset (\<lambda>t. \<not> overdue now t) (transactions st)"
  by (cases "ss_pending st")
     (auto simp: expire_overdue_def transactions_def Let_def hm_values_retain mset_filter)

lemma expire_abandoned [simp]: "ss_abandoned (snd (snd (expire_overdue now st))) = ss_abandoned st"
  by (simp add: expire_overdue_def Let_def)

lemma abandoned_none:
  "ss_inv st \<Longrightarrow> hm_get (ss_in_flight st) i = Some t \<Longrightarrow> hm_get (ss_abandoned st) i = None"
  by (simp add: ss_inv_def ss_tombs_def)

section \<open>Properties\<close>

text \<open>C26: the registration state is consistent after every sequence of operations. Starting from a
  configuration with unique identifiers and names, no two desired or outstanding services ever
  share an identifier or a name, only the store of the negotiated mode is used and it is within
  its bound (one transaction in legacy mode, \<open>max_in_flight\<close> or one in correlated mode), the
  tombstones number at most 256 and never shadow an outstanding transaction, and every active
  service is a desired one.\<close>

theorem registration_state_invariant:
  assumes "unique_services desired" and "st = snd (ss_run (service_state_new desired) ops)"
  shows "ss_inv st \<and>
    (case ss_mode st of
       LegacySerial \<Rightarrow> unacknowledged st \<le> 1
     | CorrelatedBounded n \<Rightarrow> unacknowledged st \<le> max n 1)"
proof -
  have inv: "ss_inv st"
    using ss_run_inv [OF ss_inv_new] assms by blast
  have "ss_mode st = LegacySerial \<Longrightarrow> hm_len (ss_in_flight st) = 0"
    using inv by (simp add: hm.len_zero_iff ss_inv_def ss_modal_def ss_tables_def)
  with inv show ?thesis
    by (auto simp: unacknowledged_def ss_inv_def ss_modal_def split: registration_mode.splits)
qed

theorem registration_state_invariant_witness:
  "ss_inv (snd (ss_run (service_state_new [])
     [OpSetMode (CorrelatedBounded 2),
      OpBegin \<lparr>cs_id = ServiceId 1, cs_name = ServiceName (lit ''a''), cs_requested_bind = Loopback 0,
        cs_target = \<lparr>tt_host = lit ''h'', tt_port = 1\<rparr>\<rparr> 7 40]))"
  by (rule registration_state_invariant [of "[]", THEN conjunct1, OF _ refl]) (simp add: unique_services_def)

text \<open>C27: every registration caller gets exactly one answer. Over any sequence of operations that
  ends the Session, the replies handed in are, counted with multiplicity, exactly the replies
  answered and those dropped because an acknowledgement found their caller gone; none is lost and
  none is answered twice.\<close>

theorem registration_replies_conserved:
  assumes "unique_services desired"
  shows "\<exists>dropped. \<Sum>\<^sub># (mset (map begun ops)) =
      answered (fst (ss_run (service_state_new desired) (ops @ [OpFinish e]))) + dropped \<and>
    set_mset dropped \<subseteq> \<Union> (gone ` set ops)"
proof -
  let ?run = "ss_run (service_state_new desired) (ops @ [OpFinish e])"
  obtain dropped where d: "held (service_state_new desired) + \<Sum>\<^sub># (mset (map begun (ops @ [OpFinish e]))) =
      held (snd ?run) + answered (fst ?run) + dropped"
    "set_mset dropped \<subseteq> \<Union> (gone ` set (ops @ [OpFinish e]))"
    using ss_run_replies [OF ss_inv_new [OF assms]] by blast
  have "held (snd (ss_run st (ops @ [OpFinish e]))) = {#}" for st
    by (induction ops arbitrary: st)
       (auto simp: case_prod_beta finish_pending_def transactions_def hm_values_def)
  moreover have "held (service_state_new desired) = {#}"
    by (simp add: service_state_new_def transactions_def hm_values_def)
  ultimately show ?thesis using d by auto
qed

theorem registration_replies_conserved_witness:
  "\<exists>dropped. {#40#} = answered (fst (ss_run (service_state_new [])
     ([OpSetMode (CorrelatedBounded 2),
       OpBegin \<lparr>cs_id = ServiceId 1, cs_name = ServiceName (lit ''a''), cs_requested_bind = Loopback 0,
         cs_target = \<lparr>tt_host = lit ''h'', tt_port = 1\<rparr>\<rparr> 7 40] @ [OpFinish Cancelled]))) + dropped \<and>
     set_mset dropped \<subseteq> {}"
  using registration_replies_conserved [of "[]" "[OpSetMode (CorrelatedBounded 2),
       OpBegin \<lparr>cs_id = ServiceId 1, cs_name = ServiceName (lit ''a''), cs_requested_bind = Loopback 0,
         cs_target = \<lparr>tt_host = lit ''h'', tt_port = 1\<rparr>\<rparr> 7 40]" Cancelled]
  by (simp add: unique_services_def)

text \<open>C28: an acknowledgement commits only its own live transaction. When \<open>take_ack\<close> decides to
  commit, a transaction for exactly that service identifier was outstanding, it was started in
  the same Session generation, its caller is still waiting, the committed service clashes with
  nothing else, and the transaction is gone afterwards; committing it keeps the state consistent
  and makes it the active service of that identifier.\<close>

theorem ack_commits_current_transaction:
  assumes "ss_inv st" and "take_ack closed i g st = (AckCommit s r, st')"
  shows "\<exists>p x. p \<in># transactions st \<and> transactions st = add_mset p (transactions st') \<and>
      pr_service p = s \<and> cs_id s = i \<and> pr_generation p = g \<and> r = Some x \<and> \<not> closed x \<and>
      ss_inv (commit s st') \<and> hm_get (ss_active (commit s st')) i = Some s"
proof -
  obtain p h x where p: "take_transaction i st = (TxFound p h, st')" "s = pr_service p" "r = pr_reply p"
    "pr_generation p = g" "r = Some x" "\<not> closed x"
    using take_ack_commitD [OF assms(2)] by blast
  have "transactions st = add_mset p (transactions st')"
    using take_transaction_replies [of st i] assms(1) p(1) by (simp add: ss_inv_def ss_tables_def)
  moreover have "ss_inv (commit s st')" "cs_id s = i"
    using commit_inv take_ack_commit [OF assms] take_ack_inv [OF assms(1), of closed i g] assms(2) by auto
  ultimately show ?thesis
    using p by (auto simp: commit_def eq_commute [of "Some _" "pr_reply _"])
qed

theorem ack_commits_current_transaction_witness:
  "hm_get (ss_active (commit \<lparr>cs_id = ServiceId 1, cs_name = ServiceName (lit ''a''),
       cs_requested_bind = Loopback 0, cs_target = \<lparr>tt_host = lit ''h'', tt_port = 1\<rparr>\<rparr>
     (service_state_new []))) (ServiceId 1) \<noteq> None"
proof -
  let ?s = "\<lparr>cs_id = ServiceId 1, cs_name = ServiceName (lit ''a''), cs_requested_bind = Loopback 0,
    cs_target = \<lparr>tt_host = lit ''h'', tt_port = 1\<rparr>\<rparr>"
  let ?st = "(service_state_new [])\<lparr>ss_pending := Some (new_transaction ?s 7 40)\<rparr>"
  have "ss_inv ?st"
    by (simp add: ss_inv_defs service_state_new_def unique_services_def)
  moreover have "take_ack (\<lambda>_. False) (ServiceId 1) 7 ?st = (AckCommit ?s (Some 40), service_state_new [])"
    by (simp add: take_ack_def take_transaction_def service_state_new_def)
  ultimately show ?thesis
    using ack_commits_current_transaction [of ?st "\<lambda>_. False" "ServiceId 1" 7 ?s "Some 40" "service_state_new []"]
    by auto
qed

text \<open>C29: the timeout sweep is exact. Sweeping at an instant removes precisely the transactions whose
  deadline has passed and keeps every other one, every answer it sends is \<open>Timeout\<close>, it reports
  legacy expiry exactly when the legacy transaction was overdue and otherwise the number of
  correlated ones, and the next deadline afterwards lies in the future.\<close>

theorem expire_overdue_exact:
  assumes "ss_inv st" and "expire_overdue now st = (verdict, sent, st')"
  shows "transactions st' = filter_mset (\<lambda>t. \<not> overdue now t) (transactions st) \<and>
    (\<forall>(r, result) \<in> set sent. result = Err Timeout) \<and>
    (\<forall>d. next_deadline st' = Some d \<longrightarrow> now < d) \<and>
    verdict = (if \<exists>p. ss_pending st = Some p \<and> overdue now p then ExpLegacy
      else if size (filter_mset (overdue now) (transactions st)) = 0 then ExpNone
      else ExpCorrelated (size (filter_mset (overdue now) (transactions st))))"
proof -
  have tr: "transactions st' = filter_mset (\<lambda>t. \<not> overdue now t) (transactions st)"
    using expire_transactions [OF assms(1), of now] assms(2) by simp
  then have "\<forall>d. next_deadline st' = Some d \<longrightarrow> now < d"
    by (fastforce simp: next_deadline_Some overdue_def)
  moreover have "\<forall>(r, result) \<in> set sent. result = Err Timeout"
    using assms(2) by (auto simp: expire_overdue_def Let_def answer_all_def split: if_splits)
  moreover have "verdict = (if \<exists>p. ss_pending st = Some p \<and> overdue now p then ExpLegacy
      else if size (filter_mset (overdue now) (transactions st)) = 0 then ExpNone
      else ExpCorrelated (size (filter_mset (overdue now) (transactions st))))"
  proof -
    have "size (filter_mset (overdue now) (transactions st)) =
        length (filter (overdue now) (opt_list (ss_pending st) @ hm_values (ss_in_flight st)))"
      unfolding transactions_def by (metis mset_append mset_filter size_mset)
    with assms(2) show ?thesis
      by (cases "ss_pending st") (auto simp: expire_overdue_def Let_def split: if_splits)
  qed
  ultimately show ?thesis using tr by blast
qed

theorem expire_overdue_exact_witness:
  "\<exists>st'. next_deadline st' = None \<and>
     expire_overdue 30 ((service_state_new [])\<lparr>ss_pending := Some (\<lparr>pr_service =
       \<lparr>cs_id = ServiceId 1, cs_name = ServiceName (lit ''a''), cs_requested_bind = Loopback 0,
         cs_target = \<lparr>tt_host = lit ''h'', tt_port = 1\<rparr>\<rparr>, pr_generation = 7, pr_reply = Some 40,
       pr_deadline = Some 20\<rparr>)\<rparr>) = (ExpLegacy, [(40, Err Timeout)], st') \<and> transactions st' = {#}"
proof -
  let ?p = "\<lparr>pr_service = \<lparr>cs_id = ServiceId 1, cs_name = ServiceName (lit ''a''),
      cs_requested_bind = Loopback 0, cs_target = \<lparr>tt_host = lit ''h'', tt_port = 1\<rparr>\<rparr>,
    pr_generation = 7, pr_reply = Some 40, pr_deadline = Some 20\<rparr>"
  let ?st = "(service_state_new [])\<lparr>ss_pending := Some ?p\<rparr>"
  have inv: "ss_inv ?st"
    by (simp add: ss_inv_defs service_state_new_def unique_services_def)
  have ex: "expire_overdue 30 ?st = (ExpLegacy, [(40, Err Timeout)], service_state_new [])"
    by (simp add: expire_overdue_def service_state_new_def overdue_def answer_all_def
        List.map_filter_simps hm_values_def hm_retain_def Let_def)
  have "transactions ?st = {#?p#}"
    by (simp add: transactions_def service_state_new_def hm_values_def)
  with expire_overdue_exact [OF inv ex] have "transactions (service_state_new []) = {#}"
    by (simp add: overdue_def)
  with ex show ?thesis
    by (intro exI [of _ "service_state_new []"])
       (simp add: next_deadline_def service_state_new_def hm_values_def List.map_filter_simps list_min_def)
qed

text \<open>C36: in correlated mode a late acknowledgement after a local expiry or unregistration ends the
  Session. Neither \<open>expire_overdue\<close> nor \<open>unregister\<close> leaves a tombstone for a correlated
  transaction (as \<open>abandon\<close> does), so the acknowledgement that the server may already have sent is
  \<open>Unexpected\<close>, which the Session treats as a terminal protocol violation.\<close>

theorem late_ack_is_unexpected:
  assumes "ss_inv st" and "ss_mode st = CorrelatedBounded n" and "hm_get (ss_in_flight st) i = Some t"
  shows "fst (take_ack closed i g (snd (snd (unregister i st)))) = AckUnexpected \<and>
    (overdue now t \<longrightarrow> fst (take_ack closed i g (snd (snd (expire_overdue now st)))) = AckUnexpected) \<and>
    fst (take_ack closed i (pr_generation t) (snd (abandon i st))) = AckAbandoned"
proof -
  have none: "hm_get (ss_abandoned st) i = None" and p: "ss_pending st = None"
    and inv: "hm_inv (ss_in_flight st)"
    using assms(1,2) abandoned_none [OF assms(1,3)] by (auto simp: ss_inv_def ss_modal_def ss_tables_def)
  have "fst (take_ack closed i g (snd (snd (unregister i st)))) = AckUnexpected"
    using none p by (simp add: unregister_def take_ack_def take_transaction_def Let_def)
  moreover have "fst (take_ack closed i g (snd (snd (expire_overdue now st)))) = AckUnexpected" if "overdue now t"
    using none p that assms(3) hm.get_retain [OF inv]
    by (simp add: expire_overdue_def take_ack_def take_transaction_def Let_def)
  moreover have "fst (take_ack closed i (pr_generation t) (snd (abandon i st))) = AckAbandoned"
    using p assms(3) by (simp add: abandon_def take_ack_def take_transaction_def tombstone_def Let_def)
  ultimately show ?thesis by blast
qed

theorem late_ack_is_unexpected_witness:
  "fst (take_ack (\<lambda>_. False) (ServiceId 1) 7 (snd (snd (unregister (ServiceId 1)
     ((service_state_new [])\<lparr>ss_mode := CorrelatedBounded 2, ss_in_flight := [(ServiceId 1,
       new_transaction \<lparr>cs_id = ServiceId 1, cs_name = ServiceName (lit ''a''),
         cs_requested_bind = Loopback 0, cs_target = \<lparr>tt_host = lit ''h'', tt_port = 1\<rparr>\<rparr> 7 40)]\<rparr>))))) =
   AckUnexpected"
proof -
  let ?s = "\<lparr>cs_id = ServiceId 1, cs_name = ServiceName (lit ''a''), cs_requested_bind = Loopback 0,
    cs_target = \<lparr>tt_host = lit ''h'', tt_port = 1\<rparr>\<rparr>"
  let ?st = "(service_state_new [])\<lparr>ss_mode := CorrelatedBounded 2,
    ss_in_flight := [(ServiceId 1, new_transaction ?s 7 40)]\<rparr>"
  have "ss_inv ?st" "ss_mode ?st = CorrelatedBounded 2"
    "hm_get (ss_in_flight ?st) (ServiceId 1) = Some (new_transaction ?s 7 40)"
    by (simp_all add: ss_inv_defs service_state_new_def unique_services_def hm_inv_def hm_get_def hm_len_def)
  from late_ack_is_unexpected [OF this] show ?thesis by blast
qed

text \<open>C37: in legacy mode a generic error is charged to the wrong registration. If a registration is
  unregistered while it waits, and another is begun before the server's refusal of the first
  arrives, that refusal, which carries no identifier, is taken as the answer to the second: its
  caller is told of a failure that concerned the first.\<close>

theorem legacy_error_misattributed:
  assumes "ss_inv st" and "ss_mode st = LegacySerial" and "ss_pending st = Some p"
    and "clash_free s (snd (snd (unregister (cs_id (pr_service p)) st)))"
  shows "fst (ss_run st [OpUnregister (cs_id (pr_service p)), OpBegin s g r, OpError e]) =
    answer_all Cancelled [p] @ [(r, Err e)]"
proof -
  let ?i = "cs_id (pr_service p)"
  let ?st = "snd (snd (unregister ?i st))"
  have empty: "\<And>j. hm_get (ss_in_flight st) j = None" and inv: "hm_inv (ss_in_flight st)"
    using assms(1,2) by (auto simp: ss_inv_def ss_modal_def ss_tables_def)
  have st: "ss_pending ?st = None" "ss_mode ?st = LegacySerial"
    "ss_in_flight ?st = hm_remove ?i (ss_in_flight st)"
    and sent: "fst (snd (unregister ?i st)) = answer_all Cancelled [p]"
    using assms(2,3) empty
    by (simp_all add: unregister_def Let_def answer_all_def List.map_filter_simps)
  have "\<not> list_ex (\<lambda>txn. same_service (pr_service txn) s) (hm_values (ss_in_flight ?st))"
    using empty inv hm_values_get [of "hm_remove ?i (ss_in_flight st)"] by (auto simp: st list_ex_iff split: if_splits)
  moreover have "\<not> list_ex (\<lambda>x. same_service x s) (ss_desired ?st)"
    using assms(4) by (auto simp: clash_free_def list_ex_iff)
  ultimately have "begin_registration s g r ?st =
      (Ok (), ?st\<lparr>ss_abandoned := hm_remove (cs_id s) (ss_abandoned ?st), ss_pending := Some (new_transaction s g r)\<rparr>)"
    using st by (simp add: begin_registration_def Let_def)
  then show ?thesis
    using sent by (simp add: reject_def send_def case_prod_beta)
qed

theorem legacy_error_misattributed_witness:
  "fst (ss_run ((service_state_new [])\<lparr>ss_pending := Some (new_transaction \<lparr>cs_id = ServiceId 1,
       cs_name = ServiceName (lit ''a''), cs_requested_bind = Loopback 0,
       cs_target = \<lparr>tt_host = lit ''h'', tt_port = 1\<rparr>\<rparr> 7 40)\<rparr>)
     [OpUnregister (ServiceId 1), OpBegin \<lparr>cs_id = ServiceId 2, cs_name = ServiceName (lit ''b''),
       cs_requested_bind = Loopback 0, cs_target = \<lparr>tt_host = lit ''h'', tt_port = 1\<rparr>\<rparr> 7 41,
      OpError Authorization]) = [(40, Err Cancelled), (41, Err Authorization)]"
proof -
  let ?p = "new_transaction \<lparr>cs_id = ServiceId 1, cs_name = ServiceName (lit ''a''),
    cs_requested_bind = Loopback 0, cs_target = \<lparr>tt_host = lit ''h'', tt_port = 1\<rparr>\<rparr> 7 40"
  let ?s = "\<lparr>cs_id = ServiceId 2, cs_name = ServiceName (lit ''b''), cs_requested_bind = Loopback 0,
    cs_target = \<lparr>tt_host = lit ''h'', tt_port = 1\<rparr>\<rparr>"
  let ?st = "(service_state_new [])\<lparr>ss_pending := Some ?p\<rparr>"
  have "ss_inv ?st" "ss_mode ?st = LegacySerial" "ss_pending ?st = Some ?p"
    by (simp_all add: ss_inv_defs service_state_new_def unique_services_def)
  moreover have "clash_free ?s (snd (snd (unregister (cs_id (pr_service ?p)) ?st)))"
    by (simp add: clash_free_def unregister_def service_state_new_def Let_def hm_remove_def hm_get_def)
  ultimately have "fst (ss_run ?st [OpUnregister (cs_id (pr_service ?p)), OpBegin ?s 7 41, OpError Authorization]) =
      answer_all Cancelled [?p] @ [(41, Err Authorization)]"
    by (rule legacy_error_misattributed)
  then show ?thesis by (simp only: new_transaction_simps answer_all_def List.map_filter_simps) simp
qed

text \<open>C38: a refused registration can turn a benign late acknowledgement into a fatal one. \<open>begin\<close>
  removes the tombstone of the identifier before it checks the in-flight bound, so when it refuses
  with \<open>ResourceExhausted\<close> the acknowledgement of the earlier, abandoned transaction is
  \<open>Unexpected\<close> where it would have been \<open>Abandoned\<close>.\<close>

theorem refused_begin_loses_tombstone:
  assumes "ss_inv st" and "ss_mode st = CorrelatedBounded n" and "clash_free s st"
    and "hm_get (ss_abandoned st) (cs_id s) = Some g" and "max n 1 \<le> hm_len (ss_in_flight st)"
  shows "fst (begin_registration s g r st) = Err (ResourceExhausted, r) \<and>
    fst (take_ack closed (cs_id s) g st) = AckAbandoned \<and>
    fst (take_ack closed (cs_id s) g (snd (begin_registration s g r st))) = AckUnexpected"
proof -
  have inv: "hm_inv (ss_in_flight st)" and p: "ss_pending st = None"
    using assms(1,2) by (auto simp: ss_inv_def ss_modal_def ss_tables_def)
  have fl: "hm_get (ss_in_flight st) (cs_id s) = None"
    using assms(1,4) abandoned_none by (cases "hm_get (ss_in_flight st) (cs_id s)") auto
  have "\<not> list_ex (\<lambda>txn. same_service (pr_service txn) s) (hm_values (ss_in_flight st))"
    "\<not> list_ex (\<lambda>x. same_service x s) (ss_desired st)"
    using assms(3) inv by (auto simp: clash_free_def list_ex_iff hm_values_get)
  then have "begin_registration s g r st =
      (Err (ResourceExhausted, r), st\<lparr>ss_abandoned := hm_remove (cs_id s) (ss_abandoned st)\<rparr>)"
    using assms(2,5) p by (simp add: begin_registration_def Let_def)
  then show ?thesis
    using p fl assms(4) by (simp add: take_ack_def take_transaction_def)
qed

theorem refused_begin_loses_tombstone_witness:
  "fst (begin_registration \<lparr>cs_id = ServiceId 2, cs_name = ServiceName (lit ''b''),
       cs_requested_bind = Loopback 0, cs_target = \<lparr>tt_host = lit ''h'', tt_port = 1\<rparr>\<rparr> 7 41
     ((service_state_new [])\<lparr>ss_mode := CorrelatedBounded 1, ss_abandoned := [(ServiceId 2, 7)],
       ss_in_flight := [(ServiceId 1, new_transaction \<lparr>cs_id = ServiceId 1,
         cs_name = ServiceName (lit ''a''), cs_requested_bind = Loopback 0,
         cs_target = \<lparr>tt_host = lit ''h'', tt_port = 1\<rparr>\<rparr> 7 40)]\<rparr>)) = Err (ResourceExhausted, 41)"
proof -
  let ?s = "\<lparr>cs_id = ServiceId 2, cs_name = ServiceName (lit ''b''), cs_requested_bind = Loopback 0,
    cs_target = \<lparr>tt_host = lit ''h'', tt_port = 1\<rparr>\<rparr>"
  let ?st = "(service_state_new [])\<lparr>ss_mode := CorrelatedBounded 1, ss_abandoned := [(ServiceId 2, 7)],
    ss_in_flight := [(ServiceId 1, new_transaction \<lparr>cs_id = ServiceId 1,
      cs_name = ServiceName (lit ''a''), cs_requested_bind = Loopback 0,
      cs_target = \<lparr>tt_host = lit ''h'', tt_port = 1\<rparr>\<rparr> 7 40)]\<rparr>"
  have "ss_inv ?st" "ss_mode ?st = CorrelatedBounded 1" "clash_free ?s ?st"
    "hm_get (ss_abandoned ?st) (cs_id ?s) = Some 7" "max 1 1 \<le> hm_len (ss_in_flight ?st)"
    by (simp_all add: ss_inv_defs service_state_new_def unique_services_def hm_inv_def hm_get_def
        hm_len_def clash_free_def same_service_def lit_def)
  from refused_begin_loses_tombstone [OF this] show ?thesis by blast
qed

end
