(* ===== verification/Reconnect.thy ===== *)
theory Reconnect
  imports Service_State Counters
begin

text \<open>
  The client's heartbeat probe (\<open>client/heartbeat.rs\<close>) and reconnect supervisor
  (\<open>client/reconnect.rs\<close>): bounded jittered backoff, the disposition of an ended attempt, commands
  that arrive while no Session is established, and the supervisor loop over connection attempts.
  Randomness is the sequence of draws of \<open>getrandom\<close> (\<open>None\<close> for a failed one); establishing a
  transport and running a Session are described by their results and effects on the supervised
  state.
\<close>

section \<open>Heartbeat probe\<close>

record heartbeat_probe =
  hp_nonce :: u64
  hp_outstanding :: "(u64 \<times> instant) option"

definition heartbeat_new :: heartbeat_probe where
  "heartbeat_new = \<lparr>hp_nonce = 0, hp_outstanding = None\<rparr>"

definition has_outstanding :: "heartbeat_probe \<Rightarrow> bool" where
  "has_outstanding h \<longleftrightarrow> hp_outstanding h \<noteq> None"

definition next_nonce :: "heartbeat_probe \<Rightarrow> u64 \<times> heartbeat_probe" where
  "next_nonce h = (hp_nonce h + 1, h\<lparr>hp_nonce := hp_nonce h + 1\<rparr>)"

definition mark_sent :: "u64 \<Rightarrow> instant \<Rightarrow> heartbeat_probe \<Rightarrow> heartbeat_probe" where
  "mark_sent nonce sent_at h =
     (if hp_outstanding h = None then h\<lparr>hp_outstanding := Some (nonce, sent_at)\<rparr> else h)"

definition matching_pong :: "u64 \<Rightarrow> heartbeat_probe \<Rightarrow> instant option \<times> heartbeat_probe" where
  "matching_pong nonce h =
     (case hp_outstanding h of
        Some (expected, sent_at) \<Rightarrow>
          if expected = nonce then (Some sent_at, h\<lparr>hp_outstanding := None\<rparr>) else (None, h)
      | None \<Rightarrow> (None, h))"

section \<open>Jitter\<close>

definition max_jitter :: "duration \<Rightarrow> nat" where
  "max_jitter delay = min (as_millis delay div 4) 7500"

definition jitter_zone :: "nat \<Rightarrow> nat" where
  "jitter_zone span_size = (2 ^ 64 - 1) - (2 ^ 64 - 1) mod span_size"

fun jitter_draw :: "nat \<Rightarrow> u64 option list \<Rightarrow> nat" where
  "jitter_draw limit [] = limit"
| "jitter_draw limit (None # _) = limit"
| "jitter_draw limit (Some v # draws) =
     (if unat v < jitter_zone (limit + 1) then unat v mod (limit + 1) else jitter_draw limit draws)"

definition random_jitter_ms :: "duration \<Rightarrow> u64 option list \<Rightarrow> nat" where
  "random_jitter_ms delay draws =
     (if max_jitter delay = 0 then 0 else jitter_draw (max_jitter delay) (take 4 draws))"

section \<open>Supervisor\<close>

datatype session_disposition = Retry | Terminal

record supervisor =
  sup_services :: service_state
  sup_reconnect_delay :: duration

definition supervisor_new :: "client_service list \<Rightarrow> duration \<Rightarrow> supervisor" where
  "supervisor_new services initial_delay =
     \<lparr>sup_services = service_state_new services, sup_reconnect_delay = initial_delay\<rparr>"

text \<open>Commands of the client handle. A registration carries the reply of the registration state,
  an unregistration a reply that is always answered \<open>Ok(())\<close>.\<close>

datatype client_command = CmdRegister client_service reply | CmdUnregister service_id reply

datatype command_answer = RegisterAnswer answer | UnregisterAnswer reply

definition apply_disconnected_command ::
    "client_command \<Rightarrow> service_state \<Rightarrow> command_answer list \<times> service_state" where
  "apply_disconnected_command cmd st =
     (case cmd of
        CmdRegister service r \<Rightarrow> ([RegisterAnswer (r, Err Disconnected)], st)
      | CmdUnregister i r \<Rightarrow>
          (case unregister i st of
             (_, sent, st) \<Rightarrow> (map RegisterAnswer sent @ [UnregisterAnswer r], st)))"

fun drain_disconnected_commands ::
    "client_command list \<Rightarrow> service_state \<Rightarrow> command_answer list \<times> service_state" where
  "drain_disconnected_commands [] st = ([], st)"
| "drain_disconnected_commands (cmd # cmds) st =
     (case apply_disconnected_command cmd st of (sent, st) \<Rightarrow>
        (case drain_disconnected_commands cmds st of (later, st) \<Rightarrow> (sent @ later, st)))"

fun terminal_error :: "tunnel_error \<Rightarrow> bool" where
  "terminal_error Authentication = True"
| "terminal_error Authorization = True"
| "terminal_error ResourceExhausted = True"
| "terminal_error (Configuration _) = True"
| "terminal_error _ = False"

definition finish :: "tunnel_error + unit \<Rightarrow> counters \<Rightarrow> session_disposition \<times> counters" where
  "finish result c =
     (let c = c\<lparr>ct_connected := 0, ct_services := 0, ct_binds := []\<rparr>
      in case result of
           Inl e \<Rightarrow>
             (if terminal_error e then Terminal else Retry,
              record_termination (termination_category e) c)
         | Inr _ \<Rightarrow> (Retry, c))"

definition duration_saturating_mul :: "duration \<Rightarrow> nat \<Rightarrow> duration" where
  "duration_saturating_mul d k = min (d * k) duration_max"

text \<open>The wait, when it completes: the slept delay, the counted reconnect and the doubled delay.
  \<open>cancelled\<close> is a cancellation seen before the wait, \<open>interrupted\<close> one during it.\<close>

definition backoff ::
  "bool \<Rightarrow> bool \<Rightarrow> u64 option list \<Rightarrow> supervisor \<Rightarrow> counters \<Rightarrow>
     bool \<times> duration option \<times> supervisor \<times> counters" where
  "backoff cancelled interrupted draws s c =
     (if cancelled then (False, None, s, c)
      else
        let reconnect_max = to_reconnect_max (rp_timeouts (ct_policy c));
            jitter = random_jitter_ms (sup_reconnect_delay s) draws;
            delay = min (sup_reconnect_delay s + from_millis jitter) reconnect_max
        in if interrupted then (False, Some delay, s, c)
           else (True, Some delay,
             s\<lparr>sup_reconnect_delay :=
                 min (duration_saturating_mul (sup_reconnect_delay s) 2) reconnect_max\<rparr>,
             c\<lparr>ct_reconnects := ct_reconnects c + 1\<rparr>))"

text \<open>One turn of \<open>drive\<close>: what happens from outside during one connection attempt.\<close>

record attempt =
  at_cancelled :: bool
  at_commands :: "client_command list"
  at_session :: "supervisor \<times> counters \<Rightarrow> (tunnel_error + unit) \<times> supervisor \<times> counters"
  at_wait_cancelled :: bool
  at_wait_interrupted :: bool
  at_draws :: "u64 option list"

datatype drive_outcome = DriveContinue | DriveCancelled | DriveTerminal tunnel_error

definition drive_turn ::
    "attempt \<Rightarrow> supervisor \<times> counters \<Rightarrow> drive_outcome \<times> duration option \<times> supervisor \<times> counters" where
  "drive_turn a sc =
     (case sc of (s, c) \<Rightarrow>
        if at_cancelled a then (DriveCancelled, None, s, c)
        else
          let s = s\<lparr>sup_services := snd (drain_disconnected_commands (at_commands a) (sup_services s))\<rparr>
          in case at_session a (s, c) of (result, s, c) \<Rightarrow>
            (case finish result c of
               (Terminal, c) \<Rightarrow>
                 (DriveTerminal (case result of Inl e \<Rightarrow> e | Inr _ \<Rightarrow> Disconnected), None, s, c)
             | (Retry, c) \<Rightarrow>
                 (case backoff (at_wait_cancelled a) (at_wait_interrupted a) (at_draws a) s c of
                    (True, slept, s, c) \<Rightarrow> (DriveContinue, slept, s, c)
                  | (False, slept, s, c) \<Rightarrow> (DriveCancelled, slept, s, c))))"

fun drive :: "attempt list \<Rightarrow> supervisor \<times> counters \<Rightarrow> drive_outcome \<times> nat \<times> supervisor \<times> counters" where
  "drive [] sc = (DriveContinue, 0, sc)"
| "drive (a # attempts) sc =
     (case drive_turn a sc of
        (DriveContinue, _, sc) \<Rightarrow>
          (case drive attempts sc of (outcome, turns, sc) \<Rightarrow> (outcome, Suc turns, sc))
      | (outcome, _, sc) \<Rightarrow> (outcome, 1, sc))"

text \<open>Completed waits one after the other.\<close>

fun backoffs ::
  "u64 option list list \<Rightarrow> supervisor \<times> counters \<Rightarrow> duration list \<times> supervisor \<times> counters" where
  "backoffs [] sc = ([], sc)"
| "backoffs (draws # rest) (s, c) =
     (case backoff False False draws s c of (_, slept, s, c) \<Rightarrow>
        (case backoffs rest (s, c) of (later, sc) \<Rightarrow> (opt_list slept @ later, sc)))"

definition base_delay :: "timeout_policy \<Rightarrow> nat \<Rightarrow> duration" where
  "base_delay t k = min (to_reconnect_initial t * 2 ^ k) (to_reconnect_max t)"

section \<open>Lemmas\<close>

lemma jitter_draw_le: "jitter_draw limit draws \<le> limit"
  by (induction limit draws rule: jitter_draw.induct) (auto simp: less_Suc_eq_le [symmetric])

lemma random_jitter_le: "random_jitter_ms delay draws \<le> max_jitter delay"
  by (simp add: random_jitter_ms_def jitter_draw_le)

lemma from_millis_jitter: "from_millis (max_jitter d) * 4 \<le> d"
proof -
  have "max_jitter d * 4 \<le> as_millis d" by (simp add: max_jitter_def)
  then have "max_jitter d * 4 * 1000000 \<le> as_millis d * 1000000" by simp
  also have "\<dots> \<le> d" by (simp add: as_millis_def div_times_less_eq_dividend)
  finally show ?thesis by (simp add: from_millis_def)
qed

lemma jitter_zone_dvd: "span_size dvd jitter_zone span_size"
  by (simp add: jitter_zone_def dvd_minus_mod)

lemma jitter_residue_count:
  assumes "0 < (span_size::nat)" and "k < span_size"
  shows "card {v. v < q * span_size \<and> v mod span_size = k} = q"
proof -
  have "{v. v < q * span_size \<and> v mod span_size = k} = (\<lambda>i. i * span_size + k) ` {..<q}"
  proof (intro set_eqI iffI)
    fix v assume "v \<in> {v. v < q * span_size \<and> v mod span_size = k}"
    then have v: "v < q * span_size" "v mod span_size = k" by auto
    then have "v div span_size < q" by (simp add: less_mult_imp_div_less)
    moreover have "v = v div span_size * span_size + k" using v(2) by (metis div_mult_mod_eq)
    ultimately show "v \<in> (\<lambda>i. i * span_size + k) ` {..<q}" by blast
  next
    fix v assume "v \<in> (\<lambda>i. i * span_size + k) ` {..<q}"
    then obtain i where i: "i < q" "v = i * span_size + k" by auto
    then have "Suc i * span_size \<le> q * span_size" by (intro mult_le_mono1) simp
    with i assms show "v \<in> {v. v < q * span_size \<and> v mod span_size = k}" by simp
  qed
  moreover have "inj_on (\<lambda>i. i * span_size + k) {..<q}"
    using assms by (auto simp: inj_on_def)
  ultimately show ?thesis by (simp add: card_image)
qed

lemma max_duration: "timeout_policy_validate t = Ok () \<Longrightarrow> to_reconnect_max t \<le> from_secs 86400"
  using timeout_bounds(1) [of t "to_reconnect_max t"] by (simp add: timeout_values_def)

lemma base_delay_Suc:
  assumes "timeout_policy_validate t = Ok ()"
  shows "min (duration_saturating_mul (base_delay t k) 2) (to_reconnect_max t) = base_delay t (Suc k)"
proof -
  have "to_reconnect_max t \<le> duration_max"
    using max_duration [OF assms] by (simp add: from_secs_def duration_max_def)
  then show ?thesis
    by (simp add: base_delay_def duration_saturating_mul_def)
qed

lemma backoff_complete:
  assumes "timeout_policy_validate (rp_timeouts (ct_policy c)) = Ok ()"
    and "sup_reconnect_delay s = base_delay (rp_timeouts (ct_policy c)) k"
  shows "\<exists>slept. backoff False False draws s c =
      (True, Some slept, s\<lparr>sup_reconnect_delay := base_delay (rp_timeouts (ct_policy c)) (Suc k)\<rparr>,
       c\<lparr>ct_reconnects := ct_reconnects c + 1\<rparr>) \<and>
    base_delay (rp_timeouts (ct_policy c)) k \<le> slept \<and> slept \<le> to_reconnect_max (rp_timeouts (ct_policy c)) \<and>
    4 * slept \<le> 5 * base_delay (rp_timeouts (ct_policy c)) k"
proof -
  let ?t = "rp_timeouts (ct_policy c)"
  let ?j = "from_millis (random_jitter_ms (base_delay ?t k) draws)"
  have "?j * 4 \<le> base_delay ?t k"
    using from_millis_jitter [of "base_delay ?t k"] random_jitter_le [of "base_delay ?t k" draws]
    unfolding from_millis_def by linarith
  moreover from this have "4 * min (base_delay ?t k + ?j) (to_reconnect_max ?t) \<le> 5 * base_delay ?t k"
    by (simp add: min_def)
  moreover have "base_delay ?t k \<le> to_reconnect_max ?t" by (simp add: base_delay_def)
  ultimately show ?thesis
    using assms(2) base_delay_Suc [OF assms(1), of k] by (simp add: backoff_def Let_def min_le_iff_disj)
qed

lemma backoffs_schedule:
  assumes "timeout_policy_validate (rp_timeouts (ct_policy c)) = Ok ()"
    and "sup_reconnect_delay s = base_delay (rp_timeouts (ct_policy c)) k"
    and "backoffs ds (s, c) = (slept, s', c')"
  shows "length slept = length ds \<and>
    sup_reconnect_delay s' = base_delay (rp_timeouts (ct_policy c)) (k + length ds) \<and>
    ct_reconnects c' = ct_reconnects c + of_nat (length ds) \<and>
    (\<forall>i < length ds. base_delay (rp_timeouts (ct_policy c)) (k + i) \<le> slept ! i \<and>
      slept ! i \<le> to_reconnect_max (rp_timeouts (ct_policy c)) \<and>
      4 * slept ! i \<le> 5 * base_delay (rp_timeouts (ct_policy c)) (k + i))"
  using assms
proof (induction ds arbitrary: k s c slept)
  case (Cons d ds)
  let ?t = "rp_timeouts (ct_policy c)"
  let ?s = "s\<lparr>sup_reconnect_delay := base_delay ?t (Suc k)\<rparr>" and ?c = "c\<lparr>ct_reconnects := ct_reconnects c + 1\<rparr>"
  obtain first where first: "backoff False False d s c = (True, Some first, ?s, ?c)"
    "base_delay ?t k \<le> first" "first \<le> to_reconnect_max ?t" "4 * first \<le> 5 * base_delay ?t k"
    using backoff_complete [OF Cons.prems(1,2)] by blast
  obtain later where later: "backoffs ds (?s, ?c) = (later, s', c')" "slept = first # later"
    using Cons.prems(3) first(1) by (auto simp: opt_list_def split: prod.splits)
  have "length later = length ds \<and>
    sup_reconnect_delay s' = base_delay ?t (Suc k + length ds) \<and>
    ct_reconnects c' = ct_reconnects ?c + of_nat (length ds) \<and>
    (\<forall>i < length ds. base_delay ?t (Suc k + i) \<le> later ! i \<and>
      later ! i \<le> to_reconnect_max ?t \<and> 4 * later ! i \<le> 5 * base_delay ?t (Suc k + i))"
    using Cons.IH [of ?c ?s "Suc k" later] Cons.prems(1) later(1) by simp
  with first(2-4) later(2) show ?case
    by (auto simp: nth_Cons split: nat.splits)
qed simp

lemma drive_turn_Terminal:
  assumes "drive_turn a (s, c) = (DriveTerminal e, slept, s', c')"
  shows "terminal_error e \<and> ct_connected c' = 0 \<and> ct_services c' = 0 \<and> ct_binds c' = [] \<and>
    ct_last_termination c' = Some (termination_category e)"
  using assms
  by (auto simp: drive_turn_def finish_def Let_def record_termination_def
      split: if_splits prod.splits sum.splits session_disposition.splits bool.splits)

lemma drive_turn_reconnects:
  assumes "drive_turn a (s, c) = (outcome, slept, s', c')"
    and "\<And>sc. ct_reconnects (snd (snd (at_session a sc))) = ct_reconnects (snd sc)"
  shows "ct_reconnects c' = ct_reconnects c + (if outcome = DriveContinue then 1 else 0)"
proof (cases "at_cancelled a")
  case False
  define s1 where "s1 = s\<lparr>sup_services := snd (drain_disconnected_commands (at_commands a) (sup_services s))\<rparr>"
  obtain r s2 c2 where run: "at_session a (s1, c) = (r, s2, c2)" by (metis prod_cases3)
  have "ct_reconnects c2 = ct_reconnects c" using assms(2) [of "(s1, c)"] run by simp
  moreover obtain d c3 where fin: "finish r c2 = (d, c3)" by fastforce
  moreover have "ct_reconnects c3 = ct_reconnects c2"
    using fin by (auto simp: finish_def Let_def record_termination_def split: sum.splits)
  ultimately show ?thesis
    using assms(1) False run fin
    by (auto simp: drive_turn_def s1_def [symmetric] backoff_def Let_def
        split: session_disposition.splits if_splits)
qed (use assms(1) in \<open>auto simp: drive_turn_def\<close>)

lemma drive_facts:
  assumes "\<And>a sc. a \<in> set attempts \<Longrightarrow>
      ct_reconnects (snd (snd (at_session a sc))) = ct_reconnects (snd sc)"
    and "drive attempts (s, c) = (outcome, turns, s', c')"
  shows "turns \<le> length attempts \<and>
    ct_reconnects c' = ct_reconnects c + of_nat (if outcome = DriveContinue then turns else turns - 1) \<and>
    (outcome = DriveContinue \<longrightarrow> turns = length attempts) \<and>
    (outcome \<noteq> DriveContinue \<longrightarrow> 0 < turns) \<and>
    (\<forall>e. outcome = DriveTerminal e \<longrightarrow> terminal_error e \<and> ct_connected c' = 0 \<and> ct_services c' = 0 \<and>
       ct_binds c' = [] \<and> ct_last_termination c' = Some (termination_category e))"
  using assms
proof (induction attempts arbitrary: s c turns)
  case (Cons a attempts)
  obtain o1 sl s1 c1 where turn: "drive_turn a (s, c) = (o1, sl, s1, c1)" by (metis prod_cases4)
  note rec = drive_turn_reconnects [OF turn Cons.prems(1) [OF list.set_intros(1)]]
  show ?case
  proof (cases "o1 = DriveContinue")
    case True
    then obtain k where k: "drive attempts (s1, c1) = (outcome, k, s', c')" "turns = Suc k"
      using Cons.prems(2) turn by (auto split: prod.splits)
    have "k \<le> length attempts \<and>
        ct_reconnects c' = ct_reconnects c1 + of_nat (if outcome = DriveContinue then k else k - 1) \<and>
        (outcome = DriveContinue \<longrightarrow> k = length attempts) \<and> (outcome \<noteq> DriveContinue \<longrightarrow> 0 < k) \<and>
        (\<forall>e. outcome = DriveTerminal e \<longrightarrow> terminal_error e \<and> ct_connected c' = 0 \<and> ct_services c' = 0 \<and>
           ct_binds c' = [] \<and> ct_last_termination c' = Some (termination_category e))"
      using Cons.IH [OF _ k(1)] Cons.prems(1) by simp
    with True rec k(2) show ?thesis by (cases k) (auto simp: algebra_simps)
  next
    case False
    then have "outcome = o1" "turns = 1" "s' = s1" "c' = c1"
      using Cons.prems(2) turn by (auto split: drive_outcome.splits)
    with False rec turn drive_turn_Terminal [of a s c] show ?thesis by auto
  qed
qed auto

lemma card_unat: "card {v :: u64. P (unat v)} = card {n. n < 2 ^ 64 \<and> P n}"
proof -
  have "{n. n < 2 ^ 64 \<and> P n} = unat ` {v :: u64. P (unat v)}"
  proof (intro set_eqI iffI)
    fix n assume "n \<in> {n. n < 2 ^ 64 \<and> P n}"
    then have n: "n < 2 ^ 64" "P n" by simp_all
    then have u: "unat (of_nat n :: u64) = n" by (simp add: unat_of_nat)
    with n(2) have "of_nat n \<in> {v :: u64. P (unat v)}" by (simp only: mem_Collect_eq)
    with u show "n \<in> unat ` {v :: u64. P (unat v)}" by (metis imageI)
  next
    fix n assume "n \<in> unat ` {v :: u64. P (unat v)}"
    then obtain v :: u64 where "n = unat v" "P (unat v)" by blast
    moreover have "unat v < 2 ^ 64" using unsigned_less [of v] by simp
    ultimately show "n \<in> {n. n < 2 ^ 64 \<and> P n}" by simp
  qed
  moreover have "inj_on unat {v :: u64. P (unat v)}" by (simp add: inj_on_def word_unat_eq_iff)
  ultimately show ?thesis by (simp add: card_image)
qed

section \<open>Properties\<close>

text \<open>C32: reconnect delays follow a capped doubling with bounded jitter. Under a validated policy and
  from the initial delay, the k-th completed wait lasts at least the smaller of the initial delay
  times two to the k and the maximum, at most a quarter longer than that, and never more than the
  maximum; each completed wait counts one reconnect.\<close>

theorem backoff_schedule:
  assumes "timeout_policy_validate (rp_timeouts (ct_policy c)) = Ok ()"
    and "sup_reconnect_delay s = to_reconnect_initial (rp_timeouts (ct_policy c))"
    and "backoffs ds (s, c) = (slept, s', c')"
  shows "length slept = length ds \<and>
    ct_reconnects c' = ct_reconnects c + of_nat (length ds) \<and>
    (\<forall>k < length ds. base_delay (rp_timeouts (ct_policy c)) k \<le> slept ! k \<and>
      slept ! k \<le> to_reconnect_max (rp_timeouts (ct_policy c)) \<and>
      4 * slept ! k \<le> 5 * base_delay (rp_timeouts (ct_policy c)) k)"
proof -
  have "sup_reconnect_delay s = base_delay (rp_timeouts (ct_policy c)) 0"
    using assms(2) timeout_bounds(2) [OF assms(1)] by (simp add: base_delay_def)
  from backoffs_schedule [OF assms(1) this assms(3)] show ?thesis by simp
qed

theorem backoff_schedule_witness:
  "fst (backoffs [[Some 0], [Some 1]] (supervisor_new [] (from_millis 500), with_policy runtime_policy_default)) ! 1
     \<le> from_secs 30"
proof -
  let ?c = "with_policy runtime_policy_default" and ?s = "supervisor_new [] (from_millis 500)"
  have "timeout_policy_validate (rp_timeouts (ct_policy ?c)) = Ok ()"
    by (simp add: with_policy_def runtime_policy_default_def timeout_policy_validate_def
        timeout_policy_default_def timeout_values_def from_secs_def from_millis_def)
  moreover have "sup_reconnect_delay ?s = to_reconnect_initial (rp_timeouts (ct_policy ?c))"
    by (simp add: supervisor_new_def with_policy_def runtime_policy_default_def timeout_policy_default_def)
  moreover obtain slept s' c' where run: "backoffs [[Some 0], [Some 1]] (?s, ?c) = (slept, s', c')"
    by (metis prod_cases3)
  ultimately have "slept ! 1 \<le> to_reconnect_max (rp_timeouts (ct_policy ?c))"
    using backoff_schedule by fastforce
  with run show ?thesis
    by (simp add: with_policy_def runtime_policy_default_def timeout_policy_default_def)
qed





text \<open>One heartbeat probe at a time. A probe stays outstanding until the response that carries its
  nonce; while it is outstanding neither another response nor another probe changes it, and the
  matching response is accepted once, with the instant the probe was sent.\<close>

lemma heartbeat_single_probe:
  assumes "hp_outstanding h = None"
  shows "let h1 = mark_sent nonce at h in
     has_outstanding h1 \<and> mark_sent other later h1 = h1 \<and>
     (other \<noteq> nonce \<longrightarrow> matching_pong other h1 = (None, h1)) \<and>
     fst (matching_pong nonce h1) = Some at \<and>
     fst (matching_pong nonce (snd (matching_pong nonce h1))) = None \<and>
     fst (next_nonce h1) \<noteq> hp_nonce h1"
  using assms by (simp add: mark_sent_def has_outstanding_def matching_pong_def next_nonce_def Let_def)

end
