(* ===== verification/Config.thy ===== *)
theory Config
  imports Endpoint Service_State
begin

text \<open>
  Configuration of both ends: \<open>server/config.rs\<close>, the bind dispatch of \<open>server.rs\<close>,
  \<open>client/config.rs\<close> and the validation and start dispatch of \<open>client.rs\<close>. All transport features
  (QUIC, WebSocket, mutual TLS, outbound proxy) are taken to be compiled in. Building TLS material
  and parsing a proxy chain is third-party code: the outcome is an argument.
\<close>

section \<open>Server configuration\<close>

record server_config =
  sg_listen_addr :: socket_addr
  sg_certificate_pem :: bytes
  sg_private_key_pem :: bytes
  sg_token :: secret_token
  sg_allow_public_service_binds :: bool

datatype server_transport_profile = ServerTcpTls | ServerQuic | ServerWebSocket

record server_builder =
  sb_config :: server_config
  sb_bind_policy :: bind_policy
  sb_profile :: server_transport_profile
  sb_runtime_policy :: runtime_policy
  sb_trusted_client_ca :: "bytes option"

definition server_builder_new :: "server_config \<Rightarrow> server_builder" where
  "server_builder_new config =
     \<lparr>sb_config = config,
      sb_bind_policy =
        bind_policy_default\<lparr>allow_public_addresses := sg_allow_public_service_binds config\<rparr>,
      sb_profile = ServerTcpTls, sb_runtime_policy = runtime_policy_default,
      sb_trusted_client_ca = None\<rparr>"

definition server_bind_policy :: "bind_policy \<Rightarrow> server_builder \<Rightarrow> server_builder" where
  "server_bind_policy policy b =
     b\<lparr>sb_config := (sb_config b)\<lparr>sg_allow_public_service_binds := allow_public_addresses policy\<rparr>,
       sb_bind_policy := policy\<rparr>"

definition server_transport :: "server_transport_profile \<Rightarrow> server_builder \<Rightarrow> server_builder" where
  "server_transport profile b = b\<lparr>sb_profile := profile\<rparr>"

definition server_runtime_policy :: "runtime_policy \<Rightarrow> server_builder \<Rightarrow> server_builder" where
  "server_runtime_policy policy b = b\<lparr>sb_runtime_policy := policy\<rparr>"

definition client_ca_pem :: "bytes \<Rightarrow> server_builder \<Rightarrow> server_builder" where
  "client_ca_pem pem b = b\<lparr>sb_trusted_client_ca := Some pem\<rparr>"

definition server_validate_config :: "server_config \<Rightarrow> tunnel_error + unit" where
  "server_validate_config config =
     (if sg_certificate_pem config = [] \<or> sg_private_key_pem config = []
      then Err (Configuration ''server certificate and key are required'')
      else if MAX_FRAME_BYTES < length (sg_certificate_pem config) \<or>
              MAX_FRAME_BYTES < length (sg_private_key_pem config)
      then Err (Configuration ''server TLS material exceeds configured size limit'')
      else Ok ())"

definition validate_server_profile ::
  "server_config \<Rightarrow> bind_policy \<Rightarrow> server_transport_profile \<Rightarrow> bytes option \<Rightarrow> runtime_policy \<Rightarrow>
     tunnel_error + unit" where
  "validate_server_profile config policy profile trusted_client_ca runtime =
     and_then (runtime_policy_validate runtime) (\<lambda>_.
     and_then (bind_policy_validate policy) (\<lambda>_.
       if allow_public_addresses policy \<noteq> sg_allow_public_service_binds config
       then Err (Configuration
         ''bind policy public-address setting must match allow_public_service_binds'')
       else
         and_then (server_validate_config config) (\<lambda>_.
           case trusted_client_ca of
             None \<Rightarrow> Ok ()
           | Some ca \<Rightarrow>
               if ca = [] then Err (Configuration ''trusted client CA bundle must not be empty'')
               else if profile \<noteq> ServerTcpTls
               then Err (Configuration ''mTLS is supported only with TCP/TLS'')
               else Ok ())))"

definition server_builder_validate :: "server_builder \<Rightarrow> tunnel_error + unit" where
  "server_builder_validate b =
     validate_server_profile (sb_config b) (sb_bind_policy b) (sb_profile b) (sb_trusted_client_ca b)
       (sb_runtime_policy b)"

text \<open>What \<open>bind_profile\<close> hands to the transport: a TLS listener with or without client
  authentication and WebSocket framing, or a QUIC listener with its stream ceiling and idle
  timeout. \<open>tls_material\<close> is the outcome of building the TLS configuration.\<close>

datatype listen_plan =
    ListenTcp (lp_mutual: bool) (lp_websocket: bool)
  | ListenQuic (lp_streams: u32) (lp_idle: duration)

definition quic_streams :: "runtime_policy \<Rightarrow> tunnel_error + u32" where
  "quic_streams policy =
     (let n = min (rl_active_connections_per_session (rp_limits policy) + 1) (2 ^ 64 - 1)
      in if n < 2 ^ 32 then Ok (of_nat n)
         else Err (Configuration ''connection ceiling exceeds the QUIC stream limit''))"

definition bind_profile ::
  "server_config \<Rightarrow> bind_policy \<Rightarrow> server_transport_profile \<Rightarrow> bytes option \<Rightarrow> runtime_policy \<Rightarrow>
     tunnel_error + unit \<Rightarrow> bool \<Rightarrow> tunnel_error + listen_plan" where
  "bind_profile config policy profile trusted_client_ca runtime tls_material caller_runtime =
     (let bind_with_tls = \<lambda>mutual websocket.
        and_then tls_material (\<lambda>_.
          if \<not> caller_runtime
          then Err (Configuration ''Server::bind requires a caller-owned Tokio runtime'')
          else and_then (server_validate_config config) (\<lambda>_.
               and_then (bind_policy_validate policy) (\<lambda>_. Ok (ListenTcp mutual websocket))))
      in case profile of
           ServerTcpTls \<Rightarrow> bind_with_tls (trusted_client_ca \<noteq> None) False
         | ServerWebSocket \<Rightarrow> bind_with_tls False True
         | ServerQuic \<Rightarrow>
             and_then (quic_streams runtime) (\<lambda>streams.
               Ok (ListenQuic streams (to_control_idle (rp_timeouts runtime)))))"

definition server_builder_bind ::
  "server_builder \<Rightarrow> tunnel_error + unit \<Rightarrow> bool \<Rightarrow> tunnel_error + listen_plan" where
  "server_builder_bind b tls_material caller_runtime =
     and_then (server_builder_validate b) (\<lambda>_.
       bind_profile (sb_config b) (sb_bind_policy b) (sb_profile b) (sb_trusted_client_ca b)
         (sb_runtime_policy b) tls_material caller_runtime)"

text \<open>The calls an embedder may make on the builder, in any order.\<close>

datatype builder_setter =
    CallBindPolicy bind_policy
  | CallTransport server_transport_profile
  | CallRuntimePolicy runtime_policy
  | CallClientCa bytes

fun builder_call :: "builder_setter \<Rightarrow> server_builder \<Rightarrow> server_builder" where
  "builder_call (CallBindPolicy policy) b = server_bind_policy policy b"
| "builder_call (CallTransport profile) b = server_transport profile b"
| "builder_call (CallRuntimePolicy policy) b = server_runtime_policy policy b"
| "builder_call (CallClientCa pem) b = client_ca_pem pem b"

section \<open>Client configuration\<close>

record client_config =
  cg_server_addr :: rstr
  cg_tls_server_name :: rstr
  cg_ca_pem :: "bytes option"
  cg_token :: secret_token
  cg_services :: "client_service list"

datatype client_transport_profile = ClientTcpTls | ClientQuic | ClientWebSocket

record client_builder =
  cb_config :: client_config
  cb_profile :: client_transport_profile
  cb_policy :: runtime_policy
  cb_identity :: "(bytes \<times> bytes) option"
  cb_outbound_proxy :: "rstr option"

definition client_builder_new :: "client_config \<Rightarrow> client_builder" where
  "client_builder_new config =
     \<lparr>cb_config = config, cb_profile = ClientTcpTls, cb_policy = runtime_policy_default,
      cb_identity = None, cb_outbound_proxy = None\<rparr>"

definition client_transport :: "client_transport_profile \<Rightarrow> client_builder \<Rightarrow> client_builder" where
  "client_transport profile b = b\<lparr>cb_profile := profile\<rparr>"

definition client_runtime_policy :: "runtime_policy \<Rightarrow> client_builder \<Rightarrow> client_builder" where
  "client_runtime_policy policy b = b\<lparr>cb_policy := policy\<rparr>"

definition with_identity :: "bytes \<times> bytes \<Rightarrow> client_builder \<Rightarrow> client_builder" where
  "with_identity identity b = b\<lparr>cb_identity := Some identity\<rparr>"

definition with_outbound_proxy :: "rstr \<Rightarrow> client_builder \<Rightarrow> client_builder" where
  "with_outbound_proxy chain b = b\<lparr>cb_outbound_proxy := Some chain\<rparr>"

text \<open>The scan with two growing hash sets.\<close>

fun services_unique :: "service_id list \<Rightarrow> rstr list \<Rightarrow> client_service list \<Rightarrow> bool" where
  "services_unique ids names [] = True"
| "services_unique ids names (s # services) =
     (cs_id s \<notin> set ids \<and> name_str (cs_name s) \<notin> set names \<and>
      services_unique (cs_id s # ids) (name_str (cs_name s) # names) services)"

definition client_validate_config :: "client_config \<Rightarrow> runtime_policy \<Rightarrow> tunnel_error + unit" where
  "client_validate_config config policy =
     and_then (map_err (\<lambda>_. Configuration ''server_addr must be a host:port endpoint'')
       (endpoint_parse (cg_server_addr config))) (\<lambda>_.
     if cg_tls_server_name config = [] \<or> 253 < str_len (cg_tls_server_name config)
     then Err (Configuration ''TLS server name is invalid'')
     else if rl_services_per_session (rp_limits policy) < length (cg_services config)
     then Err (Configuration ''service count exceeds the configured per-session limit'')
     else if \<not> services_unique [] [] (cg_services config)
     then Err (Configuration ''service IDs and names must be unique'')
     else if (case cg_ca_pem config of None \<Rightarrow> False | Some pem \<Rightarrow> MAX_FRAME_BYTES < length pem)
     then Err (Configuration ''custom CA bundle exceeds configured size limit'')
     else Ok ())"

text \<open>\<open>parse_proxy\<close> stands for the parser of proxy chains.\<close>

definition validate_client_profile ::
  "(rstr \<Rightarrow> bool) \<Rightarrow> client_config \<Rightarrow> client_transport_profile \<Rightarrow> bool \<Rightarrow> rstr option \<Rightarrow> runtime_policy \<Rightarrow>
     tunnel_error + unit" where
  "validate_client_profile parse_proxy config profile has_identity outbound_proxy policy =
     and_then (runtime_policy_validate policy) (\<lambda>_.
     and_then (client_validate_config config policy) (\<lambda>_.
       if profile = ClientQuic \<and> (cg_ca_pem config \<noteq> None \<or> has_identity \<or> outbound_proxy \<noteq> None)
       then Err (Configuration ''Eggress QUIC currently supports platform roots and bearer auth only'')
       else if profile = ClientWebSocket \<and> has_identity
       then Err (Configuration ''WebSocket transport currently does not support mTLS'')
       else if has_identity \<and> outbound_proxy \<noteq> None
       then Err (Configuration ''outbound proxy mode currently does not support mTLS'')
       else case outbound_proxy of
              None \<Rightarrow> Ok ()
            | Some chain \<Rightarrow>
                if parse_proxy chain then Ok ()
                else Err (Configuration ''invalid outbound proxy chain'')))"

definition client_builder_validate :: "(rstr \<Rightarrow> bool) \<Rightarrow> client_builder \<Rightarrow> tunnel_error + unit" where
  "client_builder_validate parse_proxy b =
     validate_client_profile parse_proxy (cb_config b) (cb_profile b) (cb_identity b \<noteq> None)
       (cb_outbound_proxy b) (cb_policy b)"

text \<open>What \<open>start_profile\<close> hands to the supervisor: the endpoint, the kind of transport, the proxy,
  the initial registration state and the capacity of the command queue.\<close>

datatype transport_plan =
    PlanStream (tp_mutual: bool) (tp_websocket: bool) (tp_proxy: "rstr option")
  | PlanQuic (tp_streams: nat)

record start_plan =
  pl_endpoint :: endpoint
  pl_transport :: transport_plan
  pl_services :: service_state
  pl_reconnect_delay :: duration
  pl_command_queue :: nat

definition start_with_tls_config ::
  "client_config \<Rightarrow> bool \<Rightarrow> bool \<Rightarrow> rstr option \<Rightarrow> runtime_policy \<Rightarrow> bool \<Rightarrow> tunnel_error + start_plan" where
  "start_with_tls_config config mutual websocket outbound policy caller_runtime =
     (if \<not> caller_runtime then Err (Configuration ''Client::start requires a caller-owned Tokio runtime'')
      else
        and_then (client_validate_config config policy) (\<lambda>_.
        and_then (map_err (\<lambda>_. Configuration ''server_addr must be a host:port endpoint'')
          (endpoint_parse (cg_server_addr config))) (\<lambda>endpoint.
        Ok \<lparr>pl_endpoint = endpoint, pl_transport = PlanStream mutual websocket outbound,
            pl_services = service_state_new (cg_services config),
            pl_reconnect_delay = to_reconnect_initial (rp_timeouts policy),
            pl_command_queue = rl_client_command_queue (rp_limits policy)\<rparr>)))"

definition start_quic_profile ::
  "client_config \<Rightarrow> runtime_policy \<Rightarrow> bool \<Rightarrow> tunnel_error + start_plan" where
  "start_quic_profile config policy caller_runtime =
     (if \<not> caller_runtime
      then Err (Configuration ''Client::start_quic requires a caller-owned Tokio runtime'')
      else
        and_then (client_validate_config config policy) (\<lambda>_.
        if cg_ca_pem config \<noteq> None
        then Err (Configuration
          ''Eggress QUIC currently uses platform roots; custom CA bundles are unsupported'')
        else
        and_then (map_err (\<lambda>_. Configuration ''server_addr must be a host:port endpoint'')
          (endpoint_parse (cg_server_addr config))) (\<lambda>endpoint.
        Ok \<lparr>pl_endpoint = endpoint, pl_transport = PlanQuic (rl_client_open_tasks (rp_limits policy)),
            pl_services = service_state_new (cg_services config),
            pl_reconnect_delay = to_reconnect_initial (rp_timeouts policy),
            pl_command_queue = rl_client_command_queue (rp_limits policy)\<rparr>)))"

definition start_profile ::
  "(rstr \<Rightarrow> bool) \<Rightarrow> client_builder \<Rightarrow> tunnel_error + unit \<Rightarrow> bool \<Rightarrow> tunnel_error + start_plan" where
  "start_profile parse_proxy b tls_material caller_runtime =
     (let config = cb_config b; policy = cb_policy b
      in and_then (client_builder_validate parse_proxy b) (\<lambda>_.
         if cb_identity b \<noteq> None
         then and_then tls_material (\<lambda>_.
                start_with_tls_config config True False None policy caller_runtime)
         else case cb_profile b of
                ClientTcpTls \<Rightarrow>
                  and_then tls_material (\<lambda>_.
                    start_with_tls_config config False False (cb_outbound_proxy b) policy caller_runtime)
              | ClientWebSocket \<Rightarrow>
                  and_then tls_material (\<lambda>_.
                    start_with_tls_config config False True (cb_outbound_proxy b) policy caller_runtime)
              | ClientQuic \<Rightarrow> start_quic_profile config policy caller_runtime))"

section \<open>Lemmas\<close>

lemma services_unique_iff:
  "services_unique ids names ss \<longleftrightarrow>
     unique_services ss \<and> set ids \<inter> set (map cs_id ss) = {} \<and> set names \<inter> set (map (name_str \<circ> cs_name) ss) = {}"
proof (induction ss arbitrary: ids names)
  case (Cons s ss)
  have "name_str n = name_str m \<longleftrightarrow> n = m" for n m
    by (cases n; cases m) simp
  then show ?case
    by (auto simp: Cons.IH unique_services_def)
qed (simp add: unique_services_def)

lemma client_validate_config_Ok:
  "client_validate_config config policy = Ok () \<longleftrightarrow>
     is_ok (endpoint_parse (cg_server_addr config)) \<and>
     cg_tls_server_name config \<noteq> [] \<and> str_len (cg_tls_server_name config) \<le> 253 \<and>
     length (cg_services config) \<le> rl_services_per_session (rp_limits policy) \<and>
     unique_services (cg_services config) \<and>
     (\<forall>pem. cg_ca_pem config = Some pem \<longrightarrow> length pem \<le> MAX_FRAME_BYTES)"
  by (auto simp: client_validate_config_def res_simps is_ok_conv services_unique_iff split: option.splits)

lemma builder_flags:
  "allow_public_addresses (sb_bind_policy b) = sg_allow_public_service_binds (sb_config b) \<Longrightarrow>
     allow_public_addresses (sb_bind_policy (builder_call c b)) =
       sg_allow_public_service_binds (sb_config (builder_call c b))"
  by (cases c) (simp_all add: server_bind_policy_def server_transport_def server_runtime_policy_def client_ca_pem_def)

lemma builder_calls_flags:
  "allow_public_addresses (sb_bind_policy b) = sg_allow_public_service_binds (sb_config b) \<Longrightarrow>
     allow_public_addresses (sb_bind_policy (fold builder_call calls b)) =
       sg_allow_public_service_binds (sb_config (fold builder_call calls b))"
  by (induction calls arbitrary: b) (simp_all add: builder_flags)

lemma quic_streams_Ok:
  assumes "runtime_policy_validate policy = Ok ()"
  shows "quic_streams policy = Ok (of_nat (rl_active_connections_per_session (rp_limits policy) + 1))"
proof -
  have "rl_active_connections_per_session (rp_limits policy) \<le> 65536"
    using assms limits_bounds [of "rp_limits policy" "rl_active_connections_per_session (rp_limits policy)"]
    by (simp add: runtime_policy_validate_Ok resource_values_def)
  then show ?thesis by (simp add: quic_streams_def Let_def)
qed

lemma runtime_policy_default_valid: "runtime_policy_validate runtime_policy_default = Ok ()"
  by (simp add: runtime_policy_default_def runtime_policy_validate_def resource_limits_validate_def resource_values_def
      resource_limits_default_def timeout_policy_validate_def timeout_values_def timeout_policy_default_def
      from_secs_def from_millis_def)

lemma server_bind_valid: "server_builder_validate b = Ok () \<Longrightarrow> is_ok (server_builder_bind b (Ok ()) True)"
  by (auto simp: server_builder_bind_def bind_profile_def Let_def quic_streams_Ok server_builder_validate_def
      validate_server_profile_def res_simps is_ok_conv split: server_transport_profile.split if_splits)

definition plan_with :: "client_builder \<Rightarrow> endpoint \<Rightarrow> transport_plan \<Rightarrow> start_plan" where
  "plan_with b e t = \<lparr>pl_endpoint = e, pl_transport = t, pl_services = service_state_new (cg_services (cb_config b)),
     pl_reconnect_delay = to_reconnect_initial (rp_timeouts (cb_policy b)),
     pl_command_queue = rl_client_command_queue (rp_limits (cb_policy b))\<rparr>"

lemma client_validate_parts:
  assumes "client_builder_validate parse_proxy b = Ok ()"
  shows "runtime_policy_validate (cb_policy b) = Ok ()" and "client_validate_config (cb_config b) (cb_policy b) = Ok ()"
    and "\<exists>e. endpoint_parse (cg_server_addr (cb_config b)) = Ok e"
proof -
  show "runtime_policy_validate (cb_policy b) = Ok ()" and config: "client_validate_config (cb_config b) (cb_policy b) = Ok ()"
    using assms by (auto simp: client_builder_validate_def validate_client_profile_def res_simps)
  show "\<exists>e. endpoint_parse (cg_server_addr (cb_config b)) = Ok e"
    using config by (auto simp: client_validate_config_Ok is_ok_conv)
qed

lemma start_profile_transport:
  assumes valid: "client_builder_validate parse_proxy b = Ok ()" and e: "endpoint_parse (cg_server_addr (cb_config b)) = Ok e"
  shows "\<exists>t. start_profile parse_proxy b (Ok ()) True = Ok (plan_with b e t) \<and>
    (case t of
       PlanStream mutual websocket proxy \<Rightarrow>
         (mutual \<longleftrightarrow> cb_identity b \<noteq> None) \<and> (mutual \<longrightarrow> \<not> websocket \<and> proxy = None) \<and>
         (\<forall>chain. proxy = Some chain \<longrightarrow> parse_proxy chain)
     | PlanQuic n \<Rightarrow> cb_identity b = None \<and> cb_outbound_proxy b = None \<and> cg_ca_pem (cb_config b) = None)"
proof -
  note config = client_validate_parts(2) [OF valid]
  have start: "start_with_tls_config (cb_config b) m w p (cb_policy b) True = Ok (plan_with b e (PlanStream m w p))" for m w p
    using config e by (simp add: start_with_tls_config_def plan_with_def)
  have quic: "start_quic_profile (cb_config b) (cb_policy b) True =
      Ok (plan_with b e (PlanQuic (rl_client_open_tasks (rp_limits (cb_policy b)))))"
    if "cg_ca_pem (cb_config b) = None"
    using that config e by (simp add: start_quic_profile_def plan_with_def)
  show ?thesis
  proof (cases "cb_identity b")
    case None
    then show ?thesis
      using valid by (cases "cb_profile b") (auto simp: start_profile_def Let_def start quic client_builder_validate_def
          validate_client_profile_def res_simps split: option.splits if_splits)
  next
    case (Some identity)
    then show ?thesis
      using valid by (intro exI [of _ "PlanStream True False None"]) (simp add: start_profile_def Let_def start)
  qed
qed

lemma start_profile_valid:
  "client_builder_validate parse_proxy b = Ok () \<Longrightarrow> is_ok (start_profile parse_proxy b (Ok ()) True)"
  using client_validate_parts(3) start_profile_transport by (fastforce simp: is_ok_conv)

section \<open>Properties\<close>

text \<open>C39: a server builder that validates also binds, the way it was asked to. Whatever calls built
  it, the public-address switches of configuration and bind policy agree, so a builder is accepted
  exactly when the runtime policy, the bind policy and the TLS material are valid and client
  authentication is asked for only on plain TLS with a certificate bundle. Given TLS material
  and a runtime, an accepted builder yields a listener of the chosen transport: client
  authentication exactly when a bundle was given, WebSocket framing exactly when chosen, and for
  QUIC a stream ceiling of one more than the connections of a Session.\<close>

theorem server_builder_binds:
  assumes "b = fold builder_call calls (server_builder_new config)"
  shows "(server_builder_validate b = Ok () \<longleftrightarrow>
      runtime_policy_validate (sb_runtime_policy b) = Ok () \<and> bind_policy_validate (sb_bind_policy b) = Ok () \<and>
      server_validate_config (sb_config b) = Ok () \<and>
      (sb_trusted_client_ca b = None \<or> sb_profile b = ServerTcpTls \<and> sb_trusted_client_ca b \<noteq> Some [])) \<and>
    (server_builder_validate b = Ok () \<longrightarrow>
      server_builder_bind b (Ok ()) True = Ok (case sb_profile b of
        ServerTcpTls \<Rightarrow> ListenTcp (sb_trusted_client_ca b \<noteq> None) False
      | ServerWebSocket \<Rightarrow> ListenTcp False True
      | ServerQuic \<Rightarrow>
          ListenQuic (of_nat (rl_active_connections_per_session (rp_limits (sb_runtime_policy b)) + 1))
            (to_control_idle (rp_timeouts (sb_runtime_policy b)))))"
proof -
  have "allow_public_addresses (sb_bind_policy b) = sg_allow_public_service_binds (sb_config b)"
    unfolding assms by (rule builder_calls_flags) (simp add: server_builder_new_def)
  then have valid: "server_builder_validate b = Ok () \<longleftrightarrow>
      runtime_policy_validate (sb_runtime_policy b) = Ok () \<and> bind_policy_validate (sb_bind_policy b) = Ok () \<and>
      server_validate_config (sb_config b) = Ok () \<and>
      (sb_trusted_client_ca b = None \<or> sb_profile b = ServerTcpTls \<and> sb_trusted_client_ca b \<noteq> Some [])"
    by (auto simp: server_builder_validate_def validate_server_profile_def res_simps split: option.splits if_splits)
  then show ?thesis
    by (auto simp: server_builder_bind_def bind_profile_def Let_def quic_streams_Ok split: server_transport_profile.split)
qed

theorem server_builder_binds_witness:
  "let config = \<lparr>sg_listen_addr = SocketV4 [127, 0, 0, 1] 0, sg_certificate_pem = [1], sg_private_key_pem = [2],
       sg_token = SecretToken (replicate 32 7), sg_allow_public_service_binds = False\<rparr>;
     b = fold builder_call [CallTransport ServerQuic] (server_builder_new config)
   in server_builder_bind b (Ok ()) True = Ok (ListenQuic 129 (from_secs 90))"
  using server_builder_binds [OF refl, of "[CallTransport ServerQuic]"
      "\<lparr>sg_listen_addr = SocketV4 [127, 0, 0, 1] 0, sg_certificate_pem = [1], sg_private_key_pem = [2],
       sg_token = SecretToken (replicate 32 7), sg_allow_public_service_binds = False\<rparr>"]
  by (simp add: server_transport_def server_builder_new_def server_validate_config_def const_defs
      runtime_policy_default_def runtime_policy_validate_def resource_limits_validate_def resource_values_def
      resource_limits_default_def timeout_policy_validate_def timeout_values_def timeout_policy_default_def
      from_secs_def from_millis_def bind_policy_default_def bind_policy_validate_def)



end
