(* ===== verification/Channel.thy ===== *)
theory Channel
  imports Proto
begin

text \<open>
  A bounded \<open>mpsc\<close> channel of control messages, as both ends of the tunnel use it between their
  tasks. \<open>ch_receiver\<close> tells whether the receiver is still alive; \<open>try_send\<close> fails on a full queue
  and on a dropped receiver.
\<close>

record channel =
  ch_capacity :: nat
  ch_queue :: "message list"
  ch_receiver :: bool

definition channel_new :: "nat \<Rightarrow> channel" where
  "channel_new n = \<lparr>ch_capacity = n, ch_queue = [], ch_receiver = True\<rparr>"

definition try_send :: "message \<Rightarrow> channel \<Rightarrow> channel option" where
  "try_send m ch =
     (if ch_receiver ch \<and> length (ch_queue ch) < ch_capacity ch
      then Some (ch\<lparr>ch_queue := ch_queue ch @ [m]\<rparr>) else None)"

definition channel_ok :: "channel \<Rightarrow> bool" where
  "channel_ok ch \<longleftrightarrow> length (ch_queue ch) \<le> ch_capacity ch"

lemma channel_ok_new [simp]: "channel_ok (channel_new n)"
  by (simp add: channel_ok_def channel_new_def)

lemma try_send_ok: "try_send m ch = Some ch' \<Longrightarrow> channel_ok ch' \<and> ch_capacity ch' = ch_capacity ch"
  by (auto simp: try_send_def channel_ok_def split: if_splits)

end
