(* ===== verification/Event_System.thy ===== *)
theory Event_System
  imports Main
begin

text \<open>
  Runs of a state machine with guarded events. A step function returns \<open>None\<close> when the event is not
  enabled in the state; a run is defined when each of its events is enabled in turn. The locale
  carries an invariant from single steps to runs, and a simulation from single steps to the
  reachability of an abstract machine.
\<close>

fun run_events :: "('s \<Rightarrow> 'e \<Rightarrow> 's option) \<Rightarrow> 's \<Rightarrow> 'e list \<Rightarrow> 's option" where
  "run_events step s [] = Some s"
| "run_events step s (e # es) =
     (case step s e of None \<Rightarrow> None | Some t \<Rightarrow> run_events step t es)"

lemma run_events_append:
  "run_events step s (es @ fs) = Option.bind (run_events step s es) (\<lambda>t. run_events step t fs)"
  by (induction es arbitrary: s) (auto split: option.split)

locale invariant_system =
  fixes step :: "'s \<Rightarrow> 'e \<Rightarrow> 's option"
    and inv :: "'s \<Rightarrow> bool"
  assumes step_inv: "inv s \<Longrightarrow> step s e = Some t \<Longrightarrow> inv t"
begin

lemma run_inv: "inv s \<Longrightarrow> run_events step s es = Some t \<Longrightarrow> inv t"
  by (induction es arbitrary: s) (auto split: option.splits dest: step_inv)

end

locale simulation_system = invariant_system step inv
  for step :: "'s \<Rightarrow> 'e \<Rightarrow> 's option" and inv :: "'s \<Rightarrow> bool" +
  fixes abs :: "'s \<Rightarrow> 'a"
    and spec :: "'a \<Rightarrow> 'a \<Rightarrow> bool"
  assumes step_simulates: "inv s \<Longrightarrow> step s e = Some t \<Longrightarrow> spec (abs s) (abs t)"
begin

lemma run_simulates: "inv s \<Longrightarrow> run_events step s es = Some t \<Longrightarrow> spec\<^sup>*\<^sup>* (abs s) (abs t)"
proof (induction es arbitrary: s)
  case (Cons e es)
  then obtain u where u: "step s e = Some u" "run_events step u es = Some t"
    by (auto split: option.splits)
  then have "spec (abs s) (abs u)" and "inv u"
    using Cons.prems(1) by (auto intro: step_simulates step_inv)
  then show ?case
    using Cons.IH [OF _ u(2)] by (auto intro: converse_rtranclp_into_rtranclp)
qed simp

end

end
