(* ===== verification/Server_Session.thy ===== *)
theory Server_Session
  imports Counters Hash_Map Channel
begin

text \<open>
  Authenticated Sessions on the server (\<open>server/session.rs\<close>, \<open>server/pending.rs\<close> and
  \<open>server/service.rs\<close> of \<open>crates/eggtunnel/src\<close>): the registry of live Sessions, the guards that
  keep the counters, the correlation of a \<open>DataHello\<close> with a pending connection, and the accept
  step and relay tasks of one service.

  The state is an explicit store. A \<open>SessionContext\<close> is an allocation in \<open>sv_contexts\<close>; an
  \<open>Arc\<close> is its address and a \<open>Weak\<close> an address that may have been freed. Streams and oneshot
  channels are identifiers. Every critical section of the source (a lock that is taken and released
  without awaiting in between) is one operation; the interleavings of these operations are the
  steps of \<open>Server_System\<close>. All clones of \<open>Counters\<close> share the one \<open>sv_counters\<close>.
\<close>

section \<open>State\<close>

type_synonym principal = "bytes option"
type_synonym ctx_ref = nat
type_synonym stream_ref = nat
type_synonym oneshot = nat

record pending_entry =
  pe_service_id :: service_id
  pe_expires :: instant
  pe_data_tx :: oneshot

text \<open>\<open>connection_admission\<close> is the number of free permits; \<open>control_tx\<close> is the channel the stored
  sender leads to, of which the senders of the service tasks are clones.\<close>

record session_context =
  sc_id :: session_id
  sc_principal :: principal
  sc_cancelled :: bool
  sc_pending :: "(connection_id, pending_entry) hashmap"
  sc_connection_admission :: nat
  sc_control_tx :: "channel option"

text \<open>A relay task waits for its data stream, finds it delivered, has left the \<open>select!\<close> with an
  outcome, or is relaying.\<close>

datatype relay_stage =
    RelayWaiting
  | RelayDelivered stream_ref
  | RelayResolved "stream_ref option"
  | RelayRunning stream_ref

record relay_task =
  rt_context :: ctx_ref
  rt_connection :: connection_id
  rt_external :: stream_ref
  rt_stage :: relay_stage

text \<open>\<open>sv_guards\<close> lists the live \<open>SessionGuard\<close>s, \<open>sv_relays\<close> the relay tasks (each holding one
  \<open>ActiveConnectionGuard\<close>) by their oneshot receiver, \<open>sv_retracting\<close> the accept steps that are
  about to take back a pending entry, and \<open>sv_handshakes\<close> the number of live pairs of handshake
  guard and admission permit.\<close>

record server =
  sv_counters :: counters
  sv_registry :: "(session_id, ctx_ref) hashmap"
  sv_contexts :: "(ctx_ref, session_context) hashmap"
  sv_guards :: "ctx_ref list"
  sv_relays :: "(oneshot, relay_task) hashmap"
  sv_retracting :: "(ctx_ref \<times> connection_id) list"
  sv_admission :: nat
  sv_handshakes :: nat

definition on_counters :: "(counters \<Rightarrow> counters) \<Rightarrow> server \<Rightarrow> server" where
  "on_counters f sv = sv\<lparr>sv_counters := f (sv_counters sv)\<rparr>"

definition on_context :: "ctx_ref \<Rightarrow> (session_context \<Rightarrow> session_context) \<Rightarrow> server \<Rightarrow> server" where
  "on_context r f sv = sv\<lparr>sv_contexts := hm_modify r f (sv_contexts sv)\<rparr>"

section \<open>The registry and the guards\<close>

definition session_context_new :: "session_id \<Rightarrow> principal \<Rightarrow> counters \<Rightarrow> session_context" where
  "session_context_new i p c =
     \<lparr>sc_id = i, sc_principal = p, sc_cancelled = False, sc_pending = [],
      sc_connection_admission = rl_active_connections_per_session (rp_limits (ct_policy c)),
      sc_control_tx = None\<rparr>"

definition upgrade :: "server \<Rightarrow> ctx_ref \<Rightarrow> (ctx_ref \<times> session_context) option" where
  "upgrade sv r = map_option (Pair r) (hm_get (sv_contexts sv) r)"

definition register_context :: "ctx_ref \<Rightarrow> session_id \<Rightarrow> nat \<Rightarrow> server \<Rightarrow> (tunnel_error + unit) \<times> server" where
  "register_context r i max_sessions sv =
     (let active = hm_retain (\<lambda>_ weak. upgrade sv weak \<noteq> None) (sv_registry sv)
      in if max_sessions \<le> hm_len active
         then (Err ResourceExhausted, sv\<lparr>sv_registry := active\<rparr>)
         else (Ok (), sv\<lparr>sv_registry := hm_insert i r active\<rparr>))"

definition live :: "server \<Rightarrow> (ctx_ref \<times> session_context) list" where
  "live sv = List.map_filter (upgrade sv) (hm_values (sv_registry sv))"

definition session_guard_new :: "ctx_ref \<Rightarrow> server \<Rightarrow> server" where
  "session_guard_new r sv = on_counters enter_sessions sv\<lparr>sv_guards := r # sv_guards sv\<rparr>"

definition session_guard_drop :: "ctx_ref \<Rightarrow> server \<Rightarrow> server" where
  "session_guard_drop r sv =
     (case hm_get (sv_contexts sv) r of
        None \<Rightarrow> sv
      | Some ctx \<Rightarrow>
          let sv = on_context r (\<lambda>ctx. ctx\<lparr>sc_cancelled := True\<rparr>) sv;
              sv = on_counters (\<lambda>c. c\<lparr>ct_sessions := ct_sessions c - 1\<rparr>) sv;
              before = length (ct_binds (sv_counters sv));
              sv = on_counters (retain_binds (\<lambda>(sid, _, _). sid \<noteq> sc_id ctx)) sv;
              removed = before - length (ct_binds (sv_counters sv));
              sv = on_counters (\<lambda>c. c\<lparr>ct_services := ct_services c - of_nat removed\<rparr>) sv
          in sv\<lparr>sv_registry := hm_remove (sc_id ctx) (sv_registry sv),
                sv_guards := remove1 r (sv_guards sv)\<rparr>)"

text \<open>\<open>Drop for SessionContext\<close>, when the last strong reference goes.\<close>

definition context_drop :: "ctx_ref \<Rightarrow> server \<Rightarrow> server" where
  "context_drop r sv =
     (case hm_get (sv_contexts sv) r of
        None \<Rightarrow> sv
      | Some ctx \<Rightarrow>
          on_counters (\<lambda>c. c\<lparr>ct_pending := ct_pending c - of_nat (hm_len (sc_pending ctx))\<rparr>)
            (sv\<lparr>sv_contexts := hm_remove r (sv_contexts sv)\<rparr>))"

definition handshake_guard_new :: "server \<Rightarrow> server" where
  "handshake_guard_new sv = on_counters enter_handshakes sv\<lparr>sv_handshakes := sv_handshakes sv + 1\<rparr>"

text \<open>Dropping the handshake guard and the admission permit it travels with.\<close>

definition handshake_guard_drop :: "server \<Rightarrow> server" where
  "handshake_guard_drop sv =
     on_counters (\<lambda>c. c\<lparr>ct_handshakes := ct_handshakes c - 1\<rparr>)
       sv\<lparr>sv_handshakes := sv_handshakes sv - 1, sv_admission := sv_admission sv + 1\<rparr>"

definition record_saturation :: "counters \<Rightarrow> counters" where
  "record_saturation c = record_termination TcResourceExhausted (reject_count c)"

section \<open>Pending connections\<close>

text \<open>Removing one pending entry under the lock; the counter follows when there was one.\<close>

definition take_pending :: "ctx_ref \<Rightarrow> connection_id \<Rightarrow> server \<Rightarrow> pending_entry option \<times> server" where
  "take_pending r cid sv =
     (case hm_get (sv_contexts sv) r of
        None \<Rightarrow> (None, sv)
      | Some ctx \<Rightarrow>
          (case hm_get (sc_pending ctx) cid of
             None \<Rightarrow> (None, sv)
           | Some p \<Rightarrow>
               (Some p,
                on_counters (\<lambda>c. c\<lparr>ct_pending := ct_pending c - 1\<rparr>)
                  (on_context r (\<lambda>ctx. ctx\<lparr>sc_pending := hm_remove cid (sc_pending ctx)\<rparr>) sv))))"

definition retain_pending :: "(pending_entry \<Rightarrow> bool) \<Rightarrow> ctx_ref \<Rightarrow> server \<Rightarrow> server" where
  "retain_pending P r sv =
     (case hm_get (sv_contexts sv) r of
        None \<Rightarrow> sv
      | Some ctx \<Rightarrow>
          let kept = hm_retain (\<lambda>_ p. P p) (sc_pending ctx);
              removed = hm_len (sc_pending ctx) - hm_len kept
          in on_counters (\<lambda>c. c\<lparr>ct_pending := ct_pending c - of_nat removed\<rparr>)
               (on_context r (\<lambda>ctx. ctx\<lparr>sc_pending := kept\<rparr>) sv))"

definition remove_service_pending :: "ctx_ref \<Rightarrow> service_id \<Rightarrow> server \<Rightarrow> server" where
  "remove_service_pending r service = retain_pending (\<lambda>p. pe_service_id p \<noteq> service) r"

definition remove_all_pending :: "ctx_ref \<Rightarrow> server \<Rightarrow> server" where
  "remove_all_pending = retain_pending (\<lambda>_. False)"

text \<open>The oneshot send reaches a relay task that still waits; otherwise its receiver is gone and
  the stream is dropped.\<close>

definition deliver :: "oneshot \<Rightarrow> stream_ref \<Rightarrow> server \<Rightarrow> (tunnel_error + unit) \<times> server" where
  "deliver tx stream sv =
     (case hm_get (sv_relays sv) tx of
        None \<Rightarrow> (Err Cancelled, sv)
      | Some task \<Rightarrow>
          if rt_stage task = RelayWaiting
          then (Ok (), sv\<lparr>sv_relays :=
                  hm_modify tx (\<lambda>task. task\<lparr>rt_stage := RelayDelivered stream\<rparr>) (sv_relays sv)\<rparr>)
          else (Err Cancelled, sv))"

definition accept_data_hello ::
  "stream_ref \<Rightarrow> data_hello \<Rightarrow> principal \<Rightarrow> instant \<Rightarrow> server \<Rightarrow> (tunnel_error + unit) \<times> server" where
  "accept_data_hello stream hello p now sv =
     (case Option.bind (hm_get (sv_registry sv) (dh_session_id hello)) (upgrade sv) of
        None \<Rightarrow> (Err Authentication, on_counters reject_count sv)
      | Some (r, session) \<Rightarrow>
          if sc_principal session \<noteq> p then (Err Authentication, on_counters reject_count sv)
          else
            (case take_pending r (dh_connection_id hello) sv of
               (None, sv) \<Rightarrow> (Err Authorization, on_counters reject_count sv)
             | (Some entry, sv) \<Rightarrow>
                 if pe_service_id entry \<noteq> dh_service_id hello \<or> pe_expires entry \<le> now
                 then (Err Authorization, on_counters reject_count sv)
                 else deliver (pe_data_tx entry) stream sv))"

section \<open>Service listeners and relay tasks\<close>

record service_entry =
  se_name :: service_name
  se_cancelled :: bool

definition acquire_connection :: "session_context \<Rightarrow> session_context" where
  "acquire_connection ctx = ctx\<lparr>sc_connection_admission := sc_connection_admission ctx - 1\<rparr>"

definition release_connection :: "session_context \<Rightarrow> session_context" where
  "release_connection ctx = ctx\<lparr>sc_connection_admission := sc_connection_admission ctx + 1\<rparr>"

text \<open>One accepted external connection. The generated identifier is \<open>None\<close> when the operating
  system has no randomness; \<open>tx\<close> names the fresh oneshot channel. Every refusal drops the permit.
  When the control queue refuses the \<open>Open\<close>, the entry is taken back in a later critical section,
  \<open>retract_open\<close>, which the permit outlives.\<close>

definition service_accept ::
  "ctx_ref \<Rightarrow> service_id \<Rightarrow> stream_ref \<Rightarrow> connection_id option \<Rightarrow> oneshot \<Rightarrow> instant \<Rightarrow> server \<Rightarrow> server" where
  "service_accept r service external generated tx now sv =
     (case hm_get (sv_contexts sv) r of
        None \<Rightarrow> sv
      | Some session \<Rightarrow>
          if sc_connection_admission session = 0 then on_counters record_saturation sv
          else
            (case generated of
               None \<Rightarrow> on_counters reject_count sv
             | Some cid \<Rightarrow>
                 let policy = ct_policy (sv_counters sv)
                 in if rl_pending_per_session (rp_limits policy) \<le> hm_len (sc_pending session)
                 then on_counters record_saturation sv
                 else
                   let entry = \<lparr>pe_service_id = service,
                         pe_expires = now + to_pending_connection (rp_timeouts policy), pe_data_tx = tx\<rparr>;
                       sv = on_counters enter_pending sv;
                       sv = on_context r (\<lambda>ctx. acquire_connection
                              ctx\<lparr>sc_pending := hm_insert cid entry (sc_pending ctx)\<rparr>) sv
                   in case Option.bind (sc_control_tx session) (try_send (Open service cid)) of
                        None \<Rightarrow> sv\<lparr>sv_retracting := (r, cid) # sv_retracting sv\<rparr>
                      | Some opens \<Rightarrow>
                          on_counters enter_active
                            (on_context r (\<lambda>ctx. ctx\<lparr>sc_control_tx := Some opens\<rparr>) sv)
                          \<lparr>sv_relays := hm_insert tx
                             \<lparr>rt_context = r, rt_connection = cid, rt_external = external,
                              rt_stage = RelayWaiting\<rparr> (sv_relays sv)\<rparr>))"

definition retract_open :: "ctx_ref \<Rightarrow> connection_id \<Rightarrow> server \<Rightarrow> server" where
  "retract_open r cid sv =
     (case take_pending r cid sv of (_, sv) \<Rightarrow>
        on_context r release_connection (on_counters reject_count sv)
        \<lparr>sv_retracting := remove1 (r, cid) (sv_retracting sv)\<rparr>)"

text \<open>The service task is aborted at that point: the permit is released, the entry stays.\<close>

definition retract_abort :: "ctx_ref \<Rightarrow> connection_id \<Rightarrow> server \<Rightarrow> server" where
  "retract_abort r cid sv =
     on_context r release_connection sv\<lparr>sv_retracting := remove1 (r, cid) (sv_retracting sv)\<rparr>"

text \<open>The relay task. Leaving the \<open>select!\<close> yields the delivered stream, or nothing when the task is
  cancelled, the pending lifetime runs out or the sender is dropped (\<open>give_up\<close>).\<close>

definition relay_resolve :: "oneshot \<Rightarrow> bool \<Rightarrow> server \<Rightarrow> server" where
  "relay_resolve tx give_up sv =
     sv\<lparr>sv_relays := hm_modify tx (\<lambda>task.
        case rt_stage task of
          RelayWaiting \<Rightarrow> task\<lparr>rt_stage := RelayResolved None\<rparr>
        | RelayDelivered stream \<Rightarrow>
            task\<lparr>rt_stage := RelayResolved (if give_up then None else Some stream)\<rparr>
        | _ \<Rightarrow> task) (sv_relays sv)\<rparr>"

text \<open>The task ends and drops its \<open>ActiveConnectionGuard\<close>.\<close>

definition relay_end :: "oneshot \<Rightarrow> server \<Rightarrow> server" where
  "relay_end tx sv =
     (case hm_get (sv_relays sv) tx of
        None \<Rightarrow> sv
      | Some task \<Rightarrow>
          on_context (rt_context task) release_connection
            (on_counters (\<lambda>c. c\<lparr>ct_active_connections := ct_active_connections c - 1\<rparr>) sv)
          \<lparr>sv_relays := hm_remove tx (sv_relays sv)\<rparr>)"

definition relay_claim :: "oneshot \<Rightarrow> server \<Rightarrow> server" where
  "relay_claim tx sv =
     (case hm_get (sv_relays sv) tx of
        None \<Rightarrow> sv
      | Some task \<Rightarrow>
          (case rt_stage task of
             RelayResolved outcome \<Rightarrow>
               (case take_pending (rt_context task) (rt_connection task) sv of (_, sv) \<Rightarrow>
                  (case outcome of
                     None \<Rightarrow> relay_end tx sv
                   | Some data \<Rightarrow>
                       sv\<lparr>sv_relays := hm_modify tx (\<lambda>task. task\<lparr>rt_stage := RelayRunning data\<rparr>)
                            (sv_relays sv)\<rparr>))
           | _ \<Rightarrow> sv))"

text \<open>Both a clean report and a failure carry the bytes relayed so far.\<close>

definition relay_report :: "oneshot \<Rightarrow> u64 \<Rightarrow> u64 \<Rightarrow> server \<Rightarrow> server" where
  "relay_report tx up down sv =
     (case hm_get (sv_relays sv) tx of
        None \<Rightarrow> sv
      | Some task \<Rightarrow>
          (case rt_stage task of
             RelayRunning _ \<Rightarrow>
               relay_end tx (on_counters (\<lambda>c. c\<lparr>ct_bytes_upstream := ct_bytes_upstream c + up,
                 ct_bytes_downstream := ct_bytes_downstream c + down\<rparr>) sv)
           | _ \<Rightarrow> sv))"

text \<open>The end of \<open>run_service\<close>: its relays are aborted and reaped, then its entries are removed.\<close>

fun relay_abort_all :: "oneshot list \<Rightarrow> server \<Rightarrow> server" where
  "relay_abort_all [] sv = sv"
| "relay_abort_all (tx # txs) sv = relay_abort_all txs (relay_end tx sv)"

definition service_stop :: "ctx_ref \<Rightarrow> service_id \<Rightarrow> oneshot list \<Rightarrow> server \<Rightarrow> server" where
  "service_stop r service relays sv = remove_service_pending r service (relay_abort_all relays sv)"

fun socket_to_effective :: "socket_addr \<Rightarrow> effective_bind" where
  "socket_to_effective (SocketV4 ip port) = \<lparr>eb_address = to_ipv6_mapped ip, eb_port = port\<rparr>"
| "socket_to_effective (SocketV6 ip port) = \<lparr>eb_address = ip, eb_port = port\<rparr>"

end
