(* ===== verification/Server_Store.thy ===== *)
theory Server_Store
  imports Server_Session
begin

text \<open>
  The balance of the server's store: the gauges of the counters equal what they count, permits are
  conserved, tables stay within their limits, and a pending entry leads to the relay of its own
  connection. Every operation of \<open>Server_Session\<close> keeps these properties.
\<close>

section \<open>The invariant of the store\<close>

text \<open>One definition per quantity that the source keeps balanced.\<close>

definition sv_tables :: "server \<Rightarrow> bool" where
  "sv_tables sv \<longleftrightarrow> hm_inv (sv_registry sv) \<and> hm_inv (sv_contexts sv) \<and> hm_inv (sv_relays sv) \<and>
     (\<forall>r ctx. hm_get (sv_contexts sv) r = Some ctx \<longrightarrow> hm_inv (sc_pending ctx))"

definition pending_total :: "server \<Rightarrow> nat" where
  "pending_total sv = hm_total (\<lambda>ctx. hm_len (sc_pending ctx)) (sv_contexts sv)"

definition sv_pending_balanced :: "server \<Rightarrow> bool" where
  "sv_pending_balanced sv \<longleftrightarrow> ct_pending (sv_counters sv) = of_nat (pending_total sv)"

definition sv_active_balanced :: "server \<Rightarrow> bool" where
  "sv_active_balanced sv \<longleftrightarrow> ct_active_connections (sv_counters sv) = of_nat (hm_len (sv_relays sv))"

definition held :: "ctx_ref \<Rightarrow> server \<Rightarrow> nat" where
  "held r sv = hm_total (\<lambda>task. of_bool (rt_context task = r)) (sv_relays sv) +
     length (filter (\<lambda>(s, _). s = r) (sv_retracting sv))"

definition sv_permits :: "server \<Rightarrow> bool" where
  "sv_permits sv \<longleftrightarrow>
     (\<forall>r. hm_get (sv_contexts sv) r = None \<longrightarrow> held r sv = 0) \<and>
     (\<forall>r ctx. hm_get (sv_contexts sv) r = Some ctx \<longrightarrow>
        sc_connection_admission ctx + held r sv =
          rl_active_connections_per_session (rp_limits (ct_policy (sv_counters sv))))"

definition sv_bounded :: "server \<Rightarrow> bool" where
  "sv_bounded sv \<longleftrightarrow>
     (\<forall>r ctx. hm_get (sv_contexts sv) r = Some ctx \<longrightarrow>
        hm_len (sc_pending ctx) \<le> rl_pending_per_session (rp_limits (ct_policy (sv_counters sv))) \<and>
        (\<forall>ch. sc_control_tx ctx = Some ch \<longrightarrow> length (ch_queue ch) \<le> ch_capacity ch))"

text \<open>A pending entry leads to the relay task of the same connection, if that task still exists.\<close>

definition sv_correlated :: "server \<Rightarrow> bool" where
  "sv_correlated sv \<longleftrightarrow>
     (\<forall>r ctx cid p task. hm_get (sv_contexts sv) r = Some ctx \<longrightarrow> hm_get (sc_pending ctx) cid = Some p \<longrightarrow>
        hm_get (sv_relays sv) (pe_data_tx p) = Some task \<longrightarrow>
        rt_context task = r \<and> rt_connection task = cid)"

definition sv_handshakes_balanced :: "server \<Rightarrow> bool" where
  "sv_handshakes_balanced sv \<longleftrightarrow>
     ct_handshakes (sv_counters sv) = of_nat (sv_handshakes sv) \<and>
     sv_admission sv + sv_handshakes sv =
       rl_accepted_handshakes (rp_limits (ct_policy (sv_counters sv)))"

definition sv_inv :: "server \<Rightarrow> bool" where
  "sv_inv sv \<longleftrightarrow> sv_tables sv \<and> sv_pending_balanced sv \<and> sv_active_balanced sv \<and> sv_permits sv \<and>
     sv_bounded sv \<and> sv_correlated sv \<and> sv_handshakes_balanced sv"

text \<open>The part of the counters that the invariant reads.\<close>

definition gauges :: "counters \<Rightarrow> usize \<times> usize \<times> usize \<times> runtime_policy" where
  "gauges c = (ct_pending c, ct_active_connections c, ct_handshakes c, ct_policy c)"

text \<open>What the source gets from the generator of identifiers and from creating a channel.\<close>

definition fresh_connection :: "ctx_ref \<Rightarrow> connection_id option \<Rightarrow> oneshot \<Rightarrow> server \<Rightarrow> bool" where
  "fresh_connection r generated tx sv \<longleftrightarrow>
     hm_get (sv_relays sv) tx = None \<and>
     list_all (\<lambda>ctx. list_all (\<lambda>p. pe_data_tx p \<noteq> tx) (hm_values (sc_pending ctx))) (hm_values (sv_contexts sv)) \<and>
     (case (generated, hm_get (sv_contexts sv) r) of
        (Some cid, Some ctx) \<Rightarrow> hm_get (sc_pending ctx) cid = None
      | _ \<Rightarrow> True)"

lemmas sv_defs = sv_tables_def sv_pending_balanced_def pending_total_def sv_active_balanced_def
  sv_permits_def held_def sv_bounded_def sv_correlated_def sv_handshakes_balanced_def

section \<open>Frames of the primitive updates\<close>

lemma on_counters_fields [simp]:
  "sv_counters (on_counters f sv) = f (sv_counters sv)" "sv_registry (on_counters f sv) = sv_registry sv"
  "sv_contexts (on_counters f sv) = sv_contexts sv" "sv_guards (on_counters f sv) = sv_guards sv"
  "sv_relays (on_counters f sv) = sv_relays sv" "sv_retracting (on_counters f sv) = sv_retracting sv"
  "sv_admission (on_counters f sv) = sv_admission sv" "sv_handshakes (on_counters f sv) = sv_handshakes sv"
  by (simp_all add: on_counters_def)

lemma on_context_fields [simp]:
  "sv_counters (on_context r g sv) = sv_counters sv" "sv_registry (on_context r g sv) = sv_registry sv"
  "sv_contexts (on_context r g sv) = hm_modify r g (sv_contexts sv)"
  "sv_guards (on_context r g sv) = sv_guards sv" "sv_relays (on_context r g sv) = sv_relays sv"
  "sv_retracting (on_context r g sv) = sv_retracting sv"
  "sv_admission (on_context r g sv) = sv_admission sv" "sv_handshakes (on_context r g sv) = sv_handshakes sv"
  by (simp_all add: on_context_def)

lemma connection_fields [simp]:
  "sc_pending (release_connection ctx) = sc_pending ctx" "sc_id (release_connection ctx) = sc_id ctx"
  "sc_control_tx (release_connection ctx) = sc_control_tx ctx"
  "sc_connection_admission (release_connection ctx) = sc_connection_admission ctx + 1"
  "sc_pending (acquire_connection ctx) = sc_pending ctx" "sc_id (acquire_connection ctx) = sc_id ctx"
  "sc_control_tx (acquire_connection ctx) = sc_control_tx ctx"
  "sc_connection_admission (acquire_connection ctx) = sc_connection_admission ctx - 1"
  by (simp_all add: release_connection_def acquire_connection_def)

text \<open>Counter updates that touch neither a gauge nor the policy keep the invariant.\<close>

lemma sv_inv_same_gauges: "gauges (f (sv_counters sv)) = gauges (sv_counters sv) \<Longrightarrow>
    sv_inv (on_counters f sv) \<longleftrightarrow> sv_inv sv"
  by (simp add: sv_inv_def sv_defs gauges_def)

lemma gauges_simps [simp]:
  "gauges (reject_count c) = gauges c" "gauges (record_saturation c) = gauges c"
  "gauges (record_termination t c) = gauges c" "gauges (record_join_result j c) = gauges c"
  "gauges (enter_sessions c) = gauges c" "gauges (enter_services c) = gauges c"
  "gauges (retain_binds P c) = gauges c"
  by (simp_all add: gauges_def reject_count_def record_saturation_def record_termination_def
      record_join_result_def enter_sessions_def enter_services_def retain_binds_def)

lemma sv_inv_reject [simp]: "sv_inv (on_counters reject_count sv) \<longleftrightarrow> sv_inv sv"
  "sv_inv (on_counters record_saturation sv) \<longleftrightarrow> sv_inv sv"
  by (simp_all add: sv_inv_same_gauges)

text \<open>So do updates of a context that keep its pending table, its permits and its queue bound.\<close>

lemma sv_inv_same_context:
  assumes "\<And>ctx. sc_pending (g ctx) = sc_pending ctx"
    and "\<And>ctx. sc_connection_admission (g ctx) = sc_connection_admission ctx"
    and "\<And>ctx ch. hm_get (sv_contexts sv) r = Some ctx \<Longrightarrow> sc_control_tx (g ctx) = Some ch \<Longrightarrow>
      length (ch_queue ch) \<le> ch_capacity ch"
    and "sv_inv sv"
  shows "sv_inv (on_context r g sv)"
  using assms by (auto simp: sv_inv_def sv_defs hm_total_modify_same split: if_splits)

lemma pending_total_modify:
  assumes "hm_inv (sv_contexts sv)" and "hm_get (sv_contexts sv) r = Some ctx"
  shows "pending_total (on_context r g sv) + hm_len (sc_pending ctx) =
    hm_len (sc_pending (g ctx)) + pending_total sv"
  using hm_total_modify [OF assms, of "\<lambda>ctx. hm_len (sc_pending ctx)" g] by (simp add: pending_total_def)

lemma of_nat_balance: "a + m = n + b \<Longrightarrow> (of_nat b :: 'a::len word) + of_nat n - of_nat m = of_nat a"
  by (metis add_diff_cancel_right' of_nat_add add.commute)

lemma hm_modify_cong:
  "hm_inv m \<Longrightarrow> hm_get m k = Some v \<Longrightarrow> f v = g v \<Longrightarrow> hm_modify k f m = hm_modify k g m"
  by (induction m) (auto simp: hm_modify_Cons hm_inv_Cons hm_get_Cons hm_modify_absent split: if_splits)

lemma on_context_cong:
  "hm_inv (sv_contexts sv) \<Longrightarrow> hm_get (sv_contexts sv) r = Some ctx \<Longrightarrow> f ctx = g ctx \<Longrightarrow>
     on_context r f sv = on_context r g sv"
  unfolding on_context_def using hm_modify_cong [of "sv_contexts sv" r ctx f g] by simp

section \<open>Every operation keeps the invariant\<close>

lemma sv_correlated_mono:
  assumes "sv_correlated sv"
    and "\<And>s d cid p. hm_get (sv_contexts sv') s = Some d \<Longrightarrow> hm_get (sc_pending d) cid = Some p \<Longrightarrow>
      \<exists>d'. hm_get (sv_contexts sv) s = Some d' \<and> hm_get (sc_pending d') cid = Some p"
    and "\<And>tx t. hm_get (sv_relays sv') tx = Some t \<Longrightarrow>
      \<exists>t'. hm_get (sv_relays sv) tx = Some t' \<and> rt_context t' = rt_context t \<and> rt_connection t' = rt_connection t"
  shows "sv_correlated sv'"
  unfolding sv_correlated_def
proof (intro allI impI)
  fix r ctx cid p task
  assume "hm_get (sv_contexts sv') r = Some ctx" "hm_get (sc_pending ctx) cid = Some p"
    and task: "hm_get (sv_relays sv') (pe_data_tx p) = Some task"
  then obtain d where "hm_get (sv_contexts sv) r = Some d" "hm_get (sc_pending d) cid = Some p"
    using assms(2) by blast
  moreover obtain t where "hm_get (sv_relays sv) (pe_data_tx p) = Some t" "rt_context t = rt_context task"
    "rt_connection t = rt_connection task"
    using assms(3) [OF task] by blast
  ultimately show "rt_context task = r \<and> rt_connection task = cid"
    using assms(1) unfolding sv_correlated_def by metis
qed

lemma shrink_pending_inv:
  assumes inv: "sv_inv sv" and r: "hm_get (sv_contexts sv) r = Some ctx"
    and kept: "hm_inv kept" "\<And>cid p. hm_get kept cid = Some p \<Longrightarrow> hm_get (sc_pending ctx) cid = Some p"
    and len: "hm_len kept + n = hm_len (sc_pending ctx)"
  shows "sv_inv (on_counters (\<lambda>c. c\<lparr>ct_pending := ct_pending c - of_nat n\<rparr>)
    (on_context r (\<lambda>ctx. ctx\<lparr>sc_pending := kept\<rparr>) sv))"
proof -
  let ?g = "\<lambda>ctx. ctx\<lparr>sc_pending := kept\<rparr>"
  have "pending_total (on_context r ?g sv) + n = pending_total sv"
    using pending_total_modify [of sv r ctx ?g] inv r len by (simp add: sv_inv_def sv_tables_def)
  then have "ct_pending (sv_counters sv) - of_nat n = of_nat (pending_total (on_context r ?g sv))"
    using inv by (metis sv_inv_def sv_pending_balanced_def add_diff_cancel_right' of_nat_add)
  then have "sv_pending_balanced (on_counters (\<lambda>c. c\<lparr>ct_pending := ct_pending c - of_nat n\<rparr>) (on_context r ?g sv))"
    by (simp add: sv_pending_balanced_def pending_total_def)
  moreover have "hm_len kept \<le> rl_pending_per_session (rp_limits (ct_policy (sv_counters sv)))"
    using inv r len by (force simp: sv_inv_def sv_bounded_def)
  moreover have "sv_correlated (on_context r ?g sv)"
    by (rule sv_correlated_mono [of sv]) (use inv r kept(2) in \<open>auto simp: sv_inv_def split: if_splits\<close>)
  ultimately show ?thesis
    using inv r kept(1)
    by (auto simp: sv_inv_def sv_tables_def sv_active_balanced_def sv_permits_def held_def sv_bounded_def
        sv_correlated_def sv_handshakes_balanced_def)
qed

lemma take_pending_inv:
  assumes inv: "sv_inv sv"
  shows "sv_inv (snd (take_pending r cid sv))"
proof (cases "Option.bind (hm_get (sv_contexts sv) r) (\<lambda>ctx. hm_get (sc_pending ctx) cid)")
  case None
  then show ?thesis
    using inv by (auto simp: take_pending_def bind_eq_None_conv split: option.splits)
next
  case (Some p)
  then obtain ctx where r: "hm_get (sv_contexts sv) r = Some ctx" and p: "hm_get (sc_pending ctx) cid = Some p"
    by (auto simp: bind_eq_Some_conv)
  have tab: "hm_inv (sc_pending ctx)" "hm_inv (sv_contexts sv)"
    using inv r by (auto simp: sv_inv_def sv_tables_def)
  then have len: "hm_len (hm_remove cid (sc_pending ctx)) + 1 = hm_len (sc_pending ctx)"
    using hm.len_remove_present [OF tab(1) domI, OF p] by simp
  have sub: "hm_get (hm_remove cid (sc_pending ctx)) c = Some q \<Longrightarrow> hm_get (sc_pending ctx) c = Some q" for c q
    by (simp split: if_splits)
  have eq: "on_context r (\<lambda>ctx. ctx\<lparr>sc_pending := hm_remove cid (sc_pending ctx)\<rparr>) sv =
      on_context r (\<lambda>c. c\<lparr>sc_pending := hm_remove cid (sc_pending ctx)\<rparr>) sv"
    by (rule on_context_cong [OF tab(2) r]) simp
  show ?thesis
    unfolding take_pending_def r option.case p snd_conv eq
    using shrink_pending_inv [OF inv r hm.invar_remove [OF tab(1)] sub len] by simp
qed

lemma take_pending_invD: "take_pending r cid sv = (x, sv') \<Longrightarrow> sv_inv sv \<Longrightarrow> sv_inv sv'"
  using take_pending_inv [of sv r cid] by simp

lemma retain_pending_inv:
  assumes "sv_inv sv"
  shows "sv_inv (retain_pending P r sv)"
proof (cases "hm_get (sv_contexts sv) r")
  case None
  then show ?thesis using assms by (simp add: retain_pending_def)
next
  case (Some ctx)
  then have "hm_inv (sc_pending ctx)" using assms by (auto simp: sv_inv_def sv_tables_def)
  then show ?thesis
    unfolding retain_pending_def Let_def Some option.case
    by (intro shrink_pending_inv [OF assms Some]) (auto simp: hm.get_retain_Some hm.len_retain_le)
qed

lemma remove_pending_inv: "sv_inv sv \<Longrightarrow> sv_inv (remove_service_pending r i sv)"
  "sv_inv sv \<Longrightarrow> sv_inv (remove_all_pending r sv)"
  by (simp_all add: remove_service_pending_def remove_all_pending_def retain_pending_inv)

lemma set_stage_inv:
  assumes "sv_inv sv" and "\<And>task. rt_context (f task) = rt_context task" and "\<And>task. rt_connection (f task) = rt_connection task"
  shows "sv_inv (sv\<lparr>sv_relays := hm_modify tx f (sv_relays sv)\<rparr>)"
  using assms by (auto simp: sv_inv_def sv_defs hm_total_modify_same split: if_splits)

lemma deliver_inv: "sv_inv sv \<Longrightarrow> sv_inv (snd (deliver tx stream sv))"
  by (auto simp: deliver_def intro: set_stage_inv split: option.splits)

lemma relay_resolve_inv: "sv_inv sv \<Longrightarrow> sv_inv (relay_resolve tx give_up sv)"
  unfolding relay_resolve_def by (rule set_stage_inv) (auto split: relay_stage.splits)

lemma accept_data_hello_inv: "sv_inv sv \<Longrightarrow> sv_inv (snd (accept_data_hello stream hello p now sv))"
  by (auto simp: accept_data_hello_def intro!: deliver_inv dest: take_pending_invD split: option.splits prod.splits)

lemma relay_end_inv:
  assumes "sv_inv sv"
  shows "sv_inv (relay_end tx sv)"
proof (cases "hm_get (sv_relays sv) tx")
  case None
  then show ?thesis using assms by (simp add: relay_end_def)
next
  case (Some task)
  let ?r = "rt_context task"
  have tab: "hm_inv (sv_relays sv)" using assms by (simp add: sv_inv_def sv_tables_def)
  have held: "of_bool (?r = s) + held s (relay_end tx sv) = held s sv" for s
    using hm_total_remove [OF tab Some, of "\<lambda>task. of_bool (rt_context task = s)"]
    by (simp add: held_def relay_end_def Some)
  have "hm_len (sv_relays sv) = Suc (hm_len (hm_remove tx (sv_relays sv)))"
    using hm.len_remove_present [OF tab domI, OF Some] .
  then have "sv_active_balanced (relay_end tx sv)"
    using assms Some by (simp add: sv_inv_def sv_active_balanced_def relay_end_def)
  moreover have "sv_permits (relay_end tx sv)"
    unfolding sv_permits_def
  proof (intro conjI allI impI)
    fix s assume "hm_get (sv_contexts (relay_end tx sv)) s = None"
    then have "held s sv = 0"
      using assms Some by (auto simp: sv_inv_def sv_permits_def relay_end_def split: if_splits)
    then show "held s (relay_end tx sv) = 0" using held [of s] by simp
  next
    fix s ctx assume s: "hm_get (sv_contexts (relay_end tx sv)) s = Some ctx"
    then obtain d where d: "hm_get (sv_contexts sv) s = Some d"
      "sc_connection_admission ctx = sc_connection_admission d + of_bool (?r = s)"
      by (cases "s = ?r") (auto simp: relay_end_def Some)
    have "sc_connection_admission d + held s sv =
        rl_active_connections_per_session (rp_limits (ct_policy (sv_counters sv)))"
      using assms d(1) by (simp add: sv_inv_def sv_permits_def)
    then show "sc_connection_admission ctx + held s (relay_end tx sv) =
        rl_active_connections_per_session (rp_limits (ct_policy (sv_counters (relay_end tx sv))))"
      unfolding d(2) held [symmetric] by (simp add: relay_end_def Some)
  qed
  moreover have "sv_correlated (relay_end tx sv)"
    by (rule sv_correlated_mono [of sv])
       (use assms in \<open>auto simp: sv_inv_def relay_end_def Some split: if_splits\<close>)
  moreover have "sv_tables (relay_end tx sv) \<and> sv_bounded (relay_end tx sv)"
    using assms by (auto simp: sv_inv_def sv_tables_def sv_bounded_def relay_end_def Some split: if_splits)
  ultimately show ?thesis
    using assms by (simp add: sv_inv_def relay_end_def Some sv_pending_balanced_def pending_total_def
        sv_handshakes_balanced_def hm_total_modify_same)
qed

lemma relay_claim_inv: "sv_inv sv \<Longrightarrow> sv_inv (relay_claim tx sv)"
  by (auto simp: relay_claim_def intro!: relay_end_inv set_stage_inv dest: take_pending_invD
      split: option.splits relay_stage.splits prod.splits)

lemma relay_report_inv: "sv_inv sv \<Longrightarrow> sv_inv (relay_report tx up down sv)"
  by (auto simp: relay_report_def gauges_def sv_inv_same_gauges intro!: relay_end_inv
      split: option.splits relay_stage.splits)

lemma relay_abort_all_inv: "sv_inv sv \<Longrightarrow> sv_inv (relay_abort_all txs sv)"
  by (induction txs arbitrary: sv) (simp_all add: relay_end_inv)

lemma service_stop_inv: "sv_inv sv \<Longrightarrow> sv_inv (service_stop r i txs sv)"
  by (simp add: service_stop_def remove_pending_inv relay_abort_all_inv)

text \<open>Accepting a connection in two parts: the entry is added and the permit taken, then the taken
  permit passes to the relay task.\<close>

lemma grow_pending_inv:
  assumes inv: "sv_inv sv" and r: "hm_get (sv_contexts sv) r = Some ctx"
    and room: "0 < sc_connection_admission ctx"
      "hm_len (sc_pending ctx) < rl_pending_per_session (rp_limits (ct_policy (sv_counters sv)))"
    and fresh: "hm_get (sc_pending ctx) cid = None" "hm_get (sv_relays sv) (pe_data_tx entry) = None"
  shows "sv_inv ((on_context r (\<lambda>ctx. acquire_connection ctx\<lparr>sc_pending := hm_insert cid entry (sc_pending ctx)\<rparr>)
    (on_counters enter_pending sv))\<lparr>sv_retracting := (r, cid) # sv_retracting sv\<rparr>)"
    (is "sv_inv ?new")
proof -
  let ?g = "\<lambda>ctx. acquire_connection ctx\<lparr>sc_pending := hm_insert cid entry (sc_pending ctx)\<rparr>"
  have tab: "hm_inv (sv_contexts sv)" "hm_inv (sc_pending ctx)"
    using inv r by (auto simp: sv_inv_def sv_tables_def)
  have len: "hm_len (hm_insert cid entry (sc_pending ctx)) = Suc (hm_len (sc_pending ctx))"
    using hm.len_insert_fresh [OF tab(2) fresh(1)] .
  have "pending_total ?new = Suc (pending_total sv)"
    using pending_total_modify [OF tab(1) r, of ?g] len by (simp add: pending_total_def)
  then have "sv_pending_balanced ?new"
    using inv by (simp add: sv_inv_def sv_pending_balanced_def enter_pending_def)
  moreover have "sv_permits ?new"
    unfolding sv_permits_def
  proof (intro conjI allI impI)
    fix s assume "hm_get (sv_contexts ?new) s = None"
    then show "held s ?new = 0"
      using inv r by (auto simp: sv_inv_def sv_permits_def held_def split: if_splits)
  next
    fix s d assume "hm_get (sv_contexts ?new) s = Some d"
    then obtain d' where d: "hm_get (sv_contexts sv) s = Some d'"
      "sc_connection_admission d + of_bool (s = r) = sc_connection_admission d'"
      using r room(1) by (cases "s = r") auto
    have "sc_connection_admission d' + held s sv =
        rl_active_connections_per_session (rp_limits (ct_policy (sv_counters sv)))"
      using inv d(1) by (simp add: sv_inv_def sv_permits_def)
    moreover have "held s ?new = held s sv + of_bool (s = r)"
      by (simp add: held_def)
    ultimately show "sc_connection_admission d + held s ?new =
        rl_active_connections_per_session (rp_limits (ct_policy (sv_counters ?new)))"
      using d(2) by (cases "s = r") (simp_all add: enter_pending_def)
  qed
  moreover have "sv_correlated ?new"
    unfolding sv_correlated_def
  proof (intro allI impI)
    fix s d c p task
    assume "hm_get (sv_contexts ?new) s = Some d" "hm_get (sc_pending d) c = Some p"
      and task: "hm_get (sv_relays ?new) (pe_data_tx p) = Some task"
    then have "\<exists>d'. hm_get (sv_contexts sv) s = Some d' \<and> hm_get (sc_pending d') c = Some p"
      using r fresh(2) by (cases "s = r") (auto split: if_splits)
    then show "rt_context task = s \<and> rt_connection task = c"
      using inv task unfolding sv_inv_def sv_correlated_def by fastforce
  qed
  moreover have "sv_bounded ?new"
    using inv r room(2) len by (auto simp: sv_inv_def sv_bounded_def enter_pending_def split: if_splits)
  moreover have "sv_tables ?new"
    using inv by (auto simp: sv_inv_def sv_tables_def split: if_splits)
  ultimately show ?thesis
    using inv by (simp add: sv_inv_def sv_active_balanced_def sv_handshakes_balanced_def enter_pending_def)
qed

lemma activate_relay_inv:
  assumes inv: "sv_inv sv" and rest: "sv_retracting sv = (r, cid) # rest"
    and fresh: "hm_get (sv_relays sv) tx = None"
      "\<And>s d c p. hm_get (sv_contexts sv) s = Some d \<Longrightarrow> hm_get (sc_pending d) c = Some p \<Longrightarrow>
         pe_data_tx p = tx \<Longrightarrow> s = r \<and> c = cid"
    and task: "rt_context task = r" "rt_connection task = cid"
  shows "sv_inv (on_counters enter_active
    (sv\<lparr>sv_retracting := rest, sv_relays := hm_insert tx task (sv_relays sv)\<rparr>))"
    (is "sv_inv ?new")
proof -
  have tab: "hm_inv (sv_relays sv)" using inv by (auto simp: sv_inv_def sv_tables_def)
  have "held s ?new = held s sv" for s
    using rest task(1) fresh(1) by (simp add: held_def hm_total_insert)
  then have "sv_permits ?new"
    using inv by (simp add: sv_inv_def sv_permits_def enter_active_def)
  moreover have "sv_active_balanced ?new"
    using inv hm.len_insert_fresh [OF tab fresh(1), of task]
    by (simp add: sv_inv_def sv_active_balanced_def enter_active_def)
  moreover have "sv_correlated ?new"
    using inv fresh(2) task by (fastforce simp: sv_inv_def sv_correlated_def split: if_splits)
  ultimately show ?thesis
    using inv by (simp add: sv_inv_def sv_tables_def sv_pending_balanced_def pending_total_def
        sv_bounded_def sv_handshakes_balanced_def enter_active_def)
qed

lemma fresh_connection_tx:
  assumes "fresh_connection r generated tx sv" and "sv_tables sv"
    and "hm_get (sv_contexts sv) s = Some d" and "hm_get (sc_pending d) c = Some p"
  shows "pe_data_tx p \<noteq> tx"
proof -
  have "d \<in> set (hm_values (sv_contexts sv))" "p \<in> set (hm_values (sc_pending d))"
    using assms by (auto simp: sv_tables_def hm_values_get)
  then show ?thesis
    using assms(1) by (auto simp: fresh_connection_def list_all_iff)
qed

lemma service_accept_inv:
  assumes inv: "sv_inv sv" and fresh: "fresh_connection r generated tx sv"
  shows "sv_inv (service_accept r service external generated tx now sv)"
proof (cases "hm_get (sv_contexts sv) r")
  case None
  then show ?thesis using inv by (simp add: service_accept_def)
next
  case (Some ctx)
  note r = this
  show ?thesis
  proof (cases "sc_connection_admission ctx = 0 \<or> generated = None \<or>
      rl_pending_per_session (rp_limits (ct_policy (sv_counters sv))) \<le> hm_len (sc_pending ctx)")
    case True
    then show ?thesis
      using inv r by (auto simp: service_accept_def Let_def split: option.splits)
  next
    case False
    then obtain cid where cid: "generated = Some cid" by auto
    define entry where "entry = \<lparr>pe_service_id = service, pe_expires = now +
      to_pending_connection (rp_timeouts (ct_policy (sv_counters sv))), pe_data_tx = tx\<rparr>"
    define mid where "mid = (on_context r (\<lambda>ctx. acquire_connection ctx\<lparr>sc_pending := hm_insert cid entry (sc_pending ctx)\<rparr>)
      (on_counters enter_pending sv))\<lparr>sv_retracting := (r, cid) # sv_retracting sv\<rparr>"
    have mid: "sv_inv mid"
      unfolding mid_def using inv r False fresh cid
      by (intro grow_pending_inv) (auto simp: fresh_connection_def entry_def)
    have ctx_mid: "hm_get (sv_contexts mid) r =
        Some (acquire_connection ctx\<lparr>sc_pending := hm_insert cid entry (sc_pending ctx)\<rparr>)"
      by (simp add: mid_def r)
    have only: "s = r \<and> c = cid" if "hm_get (sv_contexts mid) s = Some d" "hm_get (sc_pending d) c = Some p"
        "pe_data_tx p = tx" for s d c p
    proof (rule ccontr)
      assume "\<not> (s = r \<and> c = cid)"
      then have "\<exists>d'. hm_get (sv_contexts sv) s = Some d' \<and> hm_get (sc_pending d') c = Some p"
        using that r by (cases "s = r") (auto simp: mid_def split: if_splits)
      then show False
        using fresh_connection_tx [OF fresh] inv that(3) by (auto simp: sv_inv_def)
    qed
    show ?thesis
    proof (cases "Option.bind (sc_control_tx ctx) (try_send (Open service cid))")
      case None
      then have "service_accept r service external generated tx now sv = mid"
        using False r cid by (simp add: service_accept_def Let_def mid_def entry_def)
      then show ?thesis using mid by simp
    next
      case (Some opens)
      let ?task = "\<lparr>rt_context = r, rt_connection = cid, rt_external = external, rt_stage = RelayWaiting\<rparr>"
      have queue: "length (ch_queue opens) \<le> ch_capacity opens"
        using Some by (auto simp: bind_eq_Some_conv try_send_def split: if_splits)
      define mid' where "mid' = on_context r (\<lambda>ctx. ctx\<lparr>sc_control_tx := Some opens\<rparr>) mid"
      have mid': "sv_inv mid'"
        unfolding mid'_def by (rule sv_inv_same_context) (use mid queue in simp_all)
      have only': "s = r \<and> c = cid" if "hm_get (sv_contexts mid') s = Some d" "hm_get (sc_pending d) c = Some p"
          "pe_data_tx p = tx" for s d c p
      proof -
        from that(1,2) obtain d' where "hm_get (sv_contexts mid) s = Some d'" "hm_get (sc_pending d') c = Some p"
          by (cases "s = r") (auto simp: mid'_def)
        then show ?thesis using only that(3) by blast
      qed
      have "sv_retracting mid' = (r, cid) # sv_retracting sv" "hm_get (sv_relays mid') tx = None"
        "sv_relays mid' = sv_relays sv"
        using fresh by (simp_all add: mid'_def mid_def fresh_connection_def)
      then have "sv_inv (on_counters enter_active (mid'\<lparr>sv_retracting := sv_retracting sv,
          sv_relays := hm_insert tx ?task (sv_relays sv)\<rparr>))"
        using activate_relay_inv [OF mid' _ _ only', where rest = "sv_retracting sv" and task = ?task] by simp
      moreover have "service_accept r service external generated tx now sv = on_counters enter_active
          (mid'\<lparr>sv_retracting := sv_retracting sv, sv_relays := hm_insert tx ?task (sv_relays sv)\<rparr>)"
        using False r cid Some
        by (simp add: service_accept_def Let_def mid'_def mid_def entry_def on_counters_def on_context_def)
      ultimately show ?thesis by simp
    qed
  qed
qed

lemma length_filter_remove1:
  "x \<in> set xs \<Longrightarrow> length (filter P (remove1 x xs)) + of_bool (P x) = length (filter P xs)"
  by (induction xs) auto

lemma release_retracted_inv:
  assumes inv: "sv_inv sv" and r: "(r, cid) \<in> set (sv_retracting sv)"
  shows "sv_inv (on_context r release_connection sv\<lparr>sv_retracting := remove1 (r, cid) (sv_retracting sv)\<rparr>)"
    (is "sv_inv ?new")
proof -
  have held: "held s ?new + of_bool (s = r) = held s sv" for s
    using length_filter_remove1 [OF r, of "\<lambda>(x, _). x = s"] by (simp add: held_def eq_commute [of s])
  have "sv_permits ?new"
    unfolding sv_permits_def
  proof (intro conjI allI impI)
    fix s assume "hm_get (sv_contexts ?new) s = None"
    then have "held s sv = 0"
      using inv by (auto simp: sv_inv_def sv_permits_def split: if_splits)
    then show "held s ?new = 0" using held [of s] by simp
  next
    fix s d assume "hm_get (sv_contexts ?new) s = Some d"
    then obtain d' where d: "hm_get (sv_contexts sv) s = Some d'"
      "sc_connection_admission d = sc_connection_admission d' + of_bool (s = r)"
      by (cases "s = r") auto
    have "sc_connection_admission d' + held s sv =
        rl_active_connections_per_session (rp_limits (ct_policy (sv_counters sv)))"
      using inv d(1) by (simp add: sv_inv_def sv_permits_def)
    then show "sc_connection_admission d + held s ?new =
        rl_active_connections_per_session (rp_limits (ct_policy (sv_counters ?new)))"
      using d(2) held [of s] by simp
  qed
  moreover have "sv_correlated ?new"
    by (rule sv_correlated_mono [of sv]) (use inv in \<open>auto simp: sv_inv_def split: if_splits\<close>)
  moreover have "sv_tables ?new \<and> sv_bounded ?new"
    using inv by (auto simp: sv_inv_def sv_tables_def sv_bounded_def split: if_splits)
  ultimately show ?thesis
    using inv by (simp add: sv_inv_def sv_pending_balanced_def pending_total_def sv_active_balanced_def
        sv_handshakes_balanced_def hm_total_modify_same)
qed

lemma take_pending_retracting [simp]: "sv_retracting (snd (take_pending r cid sv)) = sv_retracting sv"
  by (simp add: take_pending_def split: option.splits)

lemma retract_inv:
  assumes "sv_inv sv" and "(r, cid) \<in> set (sv_retracting sv)"
  shows "sv_inv (retract_open r cid sv)" "sv_inv (retract_abort r cid sv)"
proof -
  have "sv_inv (on_counters reject_count (snd (take_pending r cid sv)))"
    using take_pending_inv [OF assms(1)] by simp
  from release_retracted_inv [OF this, of r cid] assms(2)
  show "sv_inv (retract_open r cid sv)"
    by (simp add: retract_open_def case_prod_beta)
  show "sv_inv (retract_abort r cid sv)"
    unfolding retract_abort_def by (rule release_retracted_inv [OF assms])
qed

text \<open>Contexts come and go.\<close>

lemma context_insert_inv:
  assumes "sv_inv sv" and "hm_get (sv_contexts sv) r = None"
  shows "sv_inv (sv\<lparr>sv_contexts := hm_insert r (session_context_new i p (sv_counters sv)) (sv_contexts sv)\<rparr>)"
proof -
  let ?ctx = "session_context_new i p (sv_counters sv)"
  let ?new = "sv\<lparr>sv_contexts := hm_insert r ?ctx (sv_contexts sv)\<rparr>"
  have "held s ?new = held s sv" for s by (simp add: held_def)
  moreover have "pending_total ?new = pending_total sv"
    using assms(2) by (simp add: pending_total_def hm_total_insert session_context_new_def)
  moreover have "sv_correlated ?new"
    by (rule sv_correlated_mono [of sv])
       (use assms in \<open>auto simp: sv_inv_def session_context_new_def split: if_splits\<close>)
  ultimately show ?thesis
    using assms by (auto simp: sv_inv_def sv_tables_def sv_pending_balanced_def sv_active_balanced_def
        sv_permits_def sv_bounded_def sv_handshakes_balanced_def session_context_new_def split: if_splits)
qed

lemma context_drop_inv:
  assumes inv: "sv_inv sv" and free: "held r sv = 0"
  shows "sv_inv (context_drop r sv)"
proof (cases "hm_get (sv_contexts sv) r")
  case None
  then show ?thesis using inv by (simp add: context_drop_def)
next
  case (Some ctx)
  have "hm_len (sc_pending ctx) + pending_total (context_drop r sv) = pending_total sv"
    using hm_total_remove [OF _ Some, of "\<lambda>ctx. hm_len (sc_pending ctx)"] inv Some
    by (simp add: sv_inv_def sv_tables_def pending_total_def context_drop_def)
  then have "ct_pending (sv_counters sv) - of_nat (hm_len (sc_pending ctx)) = of_nat (pending_total (context_drop r sv))"
    using inv by (metis sv_inv_def sv_pending_balanced_def add_diff_cancel_left' of_nat_add)
  then have "sv_pending_balanced (context_drop r sv)"
    by (simp add: sv_pending_balanced_def) (simp add: context_drop_def Some)
  moreover have "held s (context_drop r sv) = held s sv" for s
    by (simp add: held_def context_drop_def split: option.split)
  moreover have "sv_correlated (context_drop r sv)"
    by (rule sv_correlated_mono [of sv]) (use inv Some in \<open>auto simp: sv_inv_def context_drop_def split: if_splits\<close>)
  ultimately show ?thesis
    using inv free Some by (auto simp: sv_inv_def sv_tables_def sv_active_balanced_def sv_permits_def
        sv_bounded_def sv_handshakes_balanced_def context_drop_def split: if_splits)
qed

lemma session_guard_inv: "sv_inv sv \<Longrightarrow> sv_inv (session_guard_new r sv)"
  by (simp add: session_guard_new_def sv_inv_def sv_defs enter_sessions_def)

lemma handshake_guard_inv:
  "sv_inv sv \<Longrightarrow> 0 < sv_handshakes sv \<Longrightarrow> sv_inv (handshake_guard_drop sv)"
  by (auto simp: handshake_guard_drop_def sv_inv_def sv_defs)

lemma registry_inv: "sv_inv sv \<Longrightarrow> hm_inv reg \<Longrightarrow> sv_inv (sv\<lparr>sv_registry := reg\<rparr>)"
  by (simp add: sv_inv_def sv_defs)

lemma register_context_inv:
  assumes "sv_inv sv"
  shows "sv_inv (snd (register_context r i n sv))"
proof -
  have "hm_inv (sv_registry sv)" using assms by (simp add: sv_inv_def sv_tables_def)
  then show ?thesis
    using assms by (simp add: register_context_def Let_def registry_inv)
qed

lemma session_guard_drop_inv:
  assumes "sv_inv sv"
  shows "sv_inv (session_guard_drop r sv)"
proof (cases "hm_get (sv_contexts sv) r")
  case None
  then show ?thesis using assms by (simp add: session_guard_drop_def)
next
  case (Some ctx)
  have "sv_inv (on_context r (\<lambda>ctx. ctx\<lparr>sc_cancelled := True\<rparr>) sv)"
    by (rule sv_inv_same_context) (use assms in \<open>auto simp: sv_inv_def sv_bounded_def\<close>)
  then show ?thesis
    using Some by (auto simp: session_guard_drop_def Let_def sv_inv_def sv_defs retain_binds_def)
qed

end
