(* ===== verification/Server_Control.thy ===== *)
theory Server_Control
  imports Server_Session Auth_Limiter
begin

text \<open>
  The authenticated control loop of the server (\<open>crates/eggtunnel/src/server/control.rs\<close>): the
  handshake that ends in a registered Session, the registration of services, each branch of the
  \<open>select!\<close> of the loop, and the teardown. What the network, the operating system and the scheduler
  decide is an argument: the messages read, whether a write exceeds its budget, the outcome of
  binding a listener, and which branch is taken next.
\<close>

section \<open>Bounded writes and responses\<close>

text \<open>\<open>elapsed\<close> is \<open>Some n\<close> when the budget runs out after the peer took \<open>n\<close> bytes.\<close>

definition write_bounded ::
  "postcard \<Rightarrow> nat option \<Rightarrow> message \<Rightarrow> writer \<Rightarrow> (tunnel_error + unit) \<times> writer" where
  "write_bounded pc elapsed m w =
     (case elapsed of
        None \<Rightarrow> write_message pc m w
      | Some n \<Rightarrow>
          (case encode_frame pc m of
             Inl e \<Rightarrow> (Err (Protocol e), w)
           | Inr frame \<Rightarrow> (Err Timeout, w\<lparr>wr_out := wr_out w @ take n frame\<rparr>)))"

definition REGISTRATION_ERROR_DUPLICATE :: u16 where [const_defs]: "REGISTRATION_ERROR_DUPLICATE = 1"
definition REGISTRATION_ERROR_BIND :: u16 where [const_defs]: "REGISTRATION_ERROR_BIND = 2"
definition REGISTRATION_ERROR_LISTENER :: u16 where [const_defs]: "REGISTRATION_ERROR_LISTENER = 3"
definition REGISTRATION_ERROR_ADMISSION :: u16 where [const_defs]: "REGISTRATION_ERROR_ADMISSION = 5"

definition registration_response :: "service_id \<Rightarrow> u16 \<Rightarrow> capabilities \<Rightarrow> bounded_diagnostic \<Rightarrow> message" where
  "registration_response i code negotiated d =
     (if has_cap negotiated CAPABILITY_REGISTER_REJECT then RegisterReject i code d else Error code d)"

definition write_registration_response ::
  "postcard \<Rightarrow> nat option \<Rightarrow> service_id \<Rightarrow> u16 \<Rightarrow> capabilities \<Rightarrow> writer \<Rightarrow>
     (tunnel_error + unit) \<times> writer" where
  "write_registration_response pc elapsed i code negotiated w =
     (case bounded_diagnostic_new (lit ''service registration rejected'') of
        Inl e \<Rightarrow> (Err (Protocol e), w)
      | Inr d \<Rightarrow> write_bounded pc elapsed (registration_response i code negotiated d) w)"

section \<open>The loop state\<close>

record control_loop =
  cl_negotiated :: capabilities
  cl_services :: "(service_id, service_entry) hashmap"
  cl_names :: "rstr list"
  cl_idle_deadline :: instant
  cl_idle_expired :: bool
  cl_peer_drain_deadline :: "u32 option"

definition control_loop_new :: "capabilities \<Rightarrow> instant \<Rightarrow> counters \<Rightarrow> control_loop" where
  "control_loop_new negotiated now c =
     \<lparr>cl_negotiated = negotiated, cl_services = [], cl_names = [],
      cl_idle_deadline = now + to_control_idle (rp_timeouts (ct_policy c)),
      cl_idle_expired = False, cl_peer_drain_deadline = None\<rparr>"

definition reset_idle :: "instant \<Rightarrow> counters \<Rightarrow> control_loop \<Rightarrow> control_loop" where
  "reset_idle now c cl = cl\<lparr>cl_idle_deadline := now + to_control_idle (rp_timeouts (ct_policy c))\<rparr>"

section \<open>Service registration\<close>

text \<open>\<open>os_bind\<close> is the outcome of \<open>TcpListener::bind\<close> (\<open>None\<close> when it fails) and of \<open>local_addr\<close> on the
  new listener.\<close>

type_synonym os_bind = "socket_addr \<Rightarrow> (io_kind + socket_addr) option"

definition max_services :: "bind_policy \<Rightarrow> counters \<Rightarrow> nat" where
  "max_services policy c =
     min (max_services_per_session policy) (rl_services_per_session (rp_limits (ct_policy c)))"

text \<open>The verdict on a request: the error code of the first check that fails, whether the failure
  is a saturation, or the effective address of the new listener.\<close>

definition admit_service ::
  "os_bind \<Rightarrow> register_service \<Rightarrow> bind_policy \<Rightarrow> counters \<Rightarrow> control_loop \<Rightarrow> (u16 + effective_bind)" where
  "admit_service os register policy c cl =
     (if max_services policy c \<le> hm_len (cl_services cl) then Inl REGISTRATION_ERROR_ADMISSION
      else if hm_contains (cl_services cl) (rs_service_id register) \<or>
              name_str (rs_name register) \<in> set (cl_names cl) then Inl REGISTRATION_ERROR_DUPLICATE
      else case bind_to_socket (rs_requested_bind register) policy of
             Inl _ \<Rightarrow> Inl REGISTRATION_ERROR_BIND
           | Inr addr \<Rightarrow>
               (case os addr of
                  None \<Rightarrow> Inl REGISTRATION_ERROR_LISTENER
                | Some (Inl _) \<Rightarrow> Inl REGISTRATION_ERROR_LISTENER
                | Some (Inr local) \<Rightarrow> Inr (socket_to_effective local)))"

definition set_insert :: "'a \<Rightarrow> 'a list \<Rightarrow> 'a list" where
  "set_insert x xs = (if x \<in> set xs then xs else x # xs)"

definition serve_registration ::
  "postcard \<Rightarrow> os_bind \<Rightarrow> nat option \<Rightarrow> register_service \<Rightarrow> session_id \<Rightarrow> bind_policy \<Rightarrow>
     control_loop \<Rightarrow> server \<Rightarrow> writer \<Rightarrow> (tunnel_error + unit) \<times> control_loop \<times> server \<times> writer" where
  "serve_registration pc os elapsed register sid policy cl sv w =
     (let i = rs_service_id register
      in case admit_service os register policy (sv_counters sv) cl of
           Inl code \<Rightarrow>
             let sv = on_counters
                   (if code = REGISTRATION_ERROR_ADMISSION then record_saturation else reject_count) sv
             in (case write_registration_response pc elapsed i code (cl_negotiated cl) w of
                   (result, w) \<Rightarrow> (result, cl, sv, w))
         | Inr effective \<Rightarrow>
             let sv = on_counters (push_bind (sid, i, effective)) sv;
                 cl = cl\<lparr>cl_names := set_insert (name_str (rs_name register)) (cl_names cl),
                         cl_services := hm_insert i
                           \<lparr>se_name = rs_name register, se_cancelled = False\<rparr> (cl_services cl)\<rparr>;
                 sv = on_counters enter_services sv
             in (case write_bounded pc elapsed (RegisterAck i effective) w of
                   (result, w) \<Rightarrow> (result, cl, sv, w)))"

definition serve_unregistration ::
  "service_id \<Rightarrow> ctx_ref \<Rightarrow> session_id \<Rightarrow> control_loop \<Rightarrow> server \<Rightarrow> control_loop \<times> server" where
  "serve_unregistration i r sid cl sv =
     (case hm_get (cl_services cl) i of
        None \<Rightarrow> (cl, sv)
      | Some entry \<Rightarrow>
          (cl\<lparr>cl_services := hm_remove i (cl_services cl),
              cl_names := removeAll (name_str (se_name entry)) (cl_names cl)\<rparr>,
           remove_service_pending r i
             (on_counters (\<lambda>c. c\<lparr>ct_services := ct_services c - 1\<rparr>)
               (on_counters (retain_binds (\<lambda>(s, j, _). s \<noteq> sid \<or> j \<noteq> i)) sv))))"

section \<open>The branches of the loop\<close>

datatype loop_exit = LoopContinue | LoopBreak | LoopReturn tunnel_error

definition exit_of :: "tunnel_error + unit \<Rightarrow> loop_exit" where
  "exit_of result = (case result of Inl e \<Rightarrow> LoopReturn e | Inr _ \<Rightarrow> LoopContinue)"

record control_env =
  ce_postcard :: postcard
  ce_os_bind :: os_bind
  ce_bind_policy :: bind_policy
  ce_elapsed :: "nat option"
  ce_now :: instant

definition control_incoming ::
  "control_env \<Rightarrow> tunnel_error + message \<Rightarrow> ctx_ref \<Rightarrow> session_id \<Rightarrow> control_loop \<Rightarrow> server \<Rightarrow> writer \<Rightarrow>
     loop_exit \<times> control_loop \<times> server \<times> writer" where
  "control_incoming env incoming r sid cl sv w =
     (let fresh = reset_idle (ce_now env) (sv_counters sv) cl
      in case incoming of
        Inl e \<Rightarrow> (LoopReturn e, cl, sv, w)
      | Inr m \<Rightarrow>
          (case m of
             RegisterService register \<Rightarrow>
               (case serve_registration (ce_postcard env) (ce_os_bind env) (ce_elapsed env) register
                       sid (ce_bind_policy env) fresh sv w of
                  (result, cl, sv, w) \<Rightarrow> (exit_of result, cl, sv, w))
           | UnregisterService i \<Rightarrow>
               (case serve_unregistration i r sid fresh sv of (cl, sv) \<Rightarrow> (LoopContinue, cl, sv, w))
           | OpenReject cid _ \<Rightarrow> (LoopContinue, fresh, snd (take_pending r cid sv), w)
           | Ping nonce \<Rightarrow>
               (case write_bounded (ce_postcard env) (ce_elapsed env) (Pong nonce) w of
                  (result, w) \<Rightarrow> (exit_of result, fresh, sv, w))
           | Drain deadline_ms \<Rightarrow>
               (LoopBreak, cl\<lparr>cl_peer_drain_deadline := Some deadline_ms\<rparr>, sv, w)
           | _ \<Rightarrow> (LoopReturn (Protocol UnexpectedMessage), cl, sv, w)))"

text \<open>Receiving from the queue of outgoing messages; disabled while the queue is empty.\<close>

definition control_outgoing ::
  "control_env \<Rightarrow> ctx_ref \<Rightarrow> control_loop \<Rightarrow> server \<Rightarrow> writer \<Rightarrow>
     (loop_exit \<times> control_loop \<times> server \<times> writer) option" where
  "control_outgoing env r cl sv w =
     (case Option.bind (hm_get (sv_contexts sv) r) sc_control_tx of
        None \<Rightarrow> None
      | Some opens \<Rightarrow>
          (case ch_queue opens of
             [] \<Rightarrow> None
           | m # later \<Rightarrow>
               let sv = on_context r (\<lambda>ctx. ctx\<lparr>sc_control_tx := Some (opens\<lparr>ch_queue := later\<rparr>)\<rparr>) sv
               in case write_bounded (ce_postcard env) (ce_elapsed env) m w of
                    (Inl e, w) \<Rightarrow> Some (LoopReturn e, cl, sv, w)
                  | (Inr _, w) \<Rightarrow>
                      Some (if kind m = MtDrain then LoopBreak else LoopContinue,
                        reset_idle (ce_now env) (sv_counters sv) cl, sv, w)))"

datatype control_turn =
    TurnCancelled
  | TurnIdle
  | TurnIncoming "tunnel_error + message"
  | TurnOutgoing
  | TurnJoined join_result

text \<open>One iteration of the \<open>select!\<close>: the turn is \<open>None\<close> when its branch is not ready.\<close>

definition control_turn_step ::
  "control_env \<Rightarrow> control_turn \<Rightarrow> ctx_ref \<Rightarrow> session_id \<Rightarrow> control_loop \<Rightarrow> server \<Rightarrow> writer \<Rightarrow>
     (loop_exit \<times> control_loop \<times> server \<times> writer) option" where
  "control_turn_step env turn r sid cl sv w =
     (case turn of
        TurnCancelled \<Rightarrow>
          (case hm_get (sv_contexts sv) r of
             None \<Rightarrow> None
           | Some ctx \<Rightarrow> if sc_cancelled ctx then Some (LoopBreak, cl, sv, w) else None)
      | TurnIdle \<Rightarrow>
          if cl_idle_deadline cl \<le> ce_now env
          then Some (LoopBreak, cl\<lparr>cl_idle_expired := True\<rparr>, sv, w) else None
      | TurnIncoming incoming \<Rightarrow> Some (control_incoming env incoming r sid cl sv w)
      | TurnOutgoing \<Rightarrow> control_outgoing env r cl sv w
      | TurnJoined result \<Rightarrow> Some (LoopContinue, cl, on_counters (record_join_result result) sv, w))"

section \<open>Teardown\<close>

text \<open>How long the children may go on after the peer asked to drain.\<close>

definition drain_wait :: "control_loop \<Rightarrow> counters \<Rightarrow> duration" where
  "drain_wait cl c =
     (case cl_peer_drain_deadline cl of
        Some peer_ms \<Rightarrow>
          if has_cap (cl_negotiated cl) CAPABILITY_DRAIN_DEADLINE
          then min (from_millis (unat peer_ms)) (to_shutdown_grace (rp_timeouts (ct_policy c)))
          else 0
      | None \<Rightarrow> 0)"

definition relays_of :: "ctx_ref \<Rightarrow> server \<Rightarrow> oneshot list" where
  "relays_of r sv = map fst (filter (\<lambda>(_, task). rt_context task = r) (sv_relays sv))"

definition retracts_of :: "ctx_ref \<Rightarrow> server \<Rightarrow> connection_id list" where
  "retracts_of r sv = map snd (filter (\<lambda>(s, _). s = r) (sv_retracting sv))"

text \<open>Aborting the children of a Session: its service tasks, wherever they are, and their relays.\<close>

definition abort_children :: "ctx_ref \<Rightarrow> server \<Rightarrow> server" where
  "abort_children r sv =
     relay_abort_all (relays_of r sv) (fold (retract_abort r) (retracts_of r sv) sv)"

definition close_receiver :: "session_context \<Rightarrow> session_context" where
  "close_receiver ctx =
     ctx\<lparr>sc_control_tx := map_option (\<lambda>ch. ch\<lparr>ch_receiver := False\<rparr>) (sc_control_tx ctx)\<rparr>"

text \<open>After a \<open>break\<close>: the children are aborted and reaped, the pending entries removed, and the
  locals dropped, which closes the queue and runs the guard. An early \<open>return\<close> drops the locals
  only; what is then still pending goes with the context.\<close>

definition control_break :: "ctx_ref \<Rightarrow> control_loop \<Rightarrow> server \<Rightarrow> (tunnel_error + unit) \<times> server" where
  "control_break r cl sv =
     (if cl_idle_expired cl then Err Timeout else Ok (),
      session_guard_drop r (on_context r close_receiver
        (remove_all_pending r (abort_children r sv))))"

definition control_return :: "ctx_ref \<Rightarrow> tunnel_error \<Rightarrow> server \<Rightarrow> (tunnel_error + unit) \<times> server" where
  "control_return r e sv =
     (Err e, session_guard_drop r (on_context r close_receiver (abort_children r sv)))"

section \<open>The handshake\<close>

record handshake_env =
  he_postcard :: postcard
  he_ct_eq :: "bytes \<Rightarrow> bytes \<Rightarrow> bool"
  he_token :: secret_token
  he_source :: ip_addr
  he_principal :: principal
  he_now :: instant
  he_hello_elapsed :: "nat option"
  he_auth_elapsed :: bool
  he_ok_elapsed :: "nat option"
  he_session_id :: "session_id option"
  he_cancelled :: bool

text \<open>The part of \<open>serve_control\<close> before the Session exists: version check, \<open>ServerHello\<close>, bearer
  token. The result is the negotiated capabilities.\<close>

definition authenticate ::
  "handshake_env \<Rightarrow> protocol_version \<Rightarrow> capabilities \<Rightarrow> reader \<Rightarrow> writer \<Rightarrow> auth_failure_limiter \<Rightarrow> counters \<Rightarrow>
     (tunnel_error + capabilities) \<times> reader \<times> writer \<times> auth_failure_limiter \<times> counters" where
  "authenticate env version offered rd w l c =
     (let pc = he_postcard env;
          refuse = \<lambda>e rd w l.
            (case reject_authentication pc w (he_source env) (he_now env) l c of
               (result, w, l, c) \<Rightarrow>
                 (Err (case e of Some e \<Rightarrow> e | None \<Rightarrow> (case result of Inl e \<Rightarrow> e | Inr _ \<Rightarrow> Authentication)),
                  rd, w, l, c))
      in if pv_major version \<noteq> pv_major CURRENT
         then refuse (Some (Protocol (UnsupportedVersion (pv_major version) (pv_minor version)))) rd w l
         else
           let negotiated = intersect capabilities_supported offered
           in case write_bounded pc (he_hello_elapsed env) (ServerHello CURRENT negotiated) w of
                (Inl e, w) \<Rightarrow> (Err e, rd, w, l, c)
              | (Inr _, w) \<Rightarrow>
                  if he_auth_elapsed env then (Err Timeout, rd, w, l, c)
                  else case read_message pc rd of
                         (Inl e, rd) \<Rightarrow> (Err e, rd, w, l, c)
                       | (Inr m, rd) \<Rightarrow>
                           (case m of
                              Auth token \<Rightarrow>
                                (case is_blocked_at (he_source env) (he_now env) l of (blocked, l) \<Rightarrow>
                                   if \<not> verify_token (he_ct_eq env) (he_token env) token \<or> blocked
                                   then refuse None rd w l
                                   else (Ok negotiated, rd, w, l, c))
                            | _ \<Rightarrow> refuse None rd w l))"

text \<open>The part from authentication to the registered Session. The handshake slot is released on
  every path, before the Session is registered on the successful one. \<open>r\<close> is the fresh allocation of
  the context.\<close>

definition establish :: "handshake_env \<Rightarrow> ctx_ref \<Rightarrow> server \<Rightarrow> (tunnel_error + session_id) \<times> server" where
  "establish env r sv =
     (let sv = handshake_guard_drop sv
      in case he_session_id env of
           None \<Rightarrow> (Err (Configuration ''operating system randomness unavailable''), sv)
         | Some sid \<Rightarrow>
             if he_cancelled env then (Err Cancelled, sv)
             else
               let ctx = session_context_new sid (he_principal env) (sv_counters sv);
                   sv = sv\<lparr>sv_contexts := hm_insert r ctx (sv_contexts sv)\<rparr>
               in case register_context r sid (rl_sessions (rp_limits (ct_policy (sv_counters sv)))) sv of
                    (Inl e, sv) \<Rightarrow> (Err e, context_drop r (on_counters record_saturation sv))
                  | (Inr _, sv) \<Rightarrow> (Ok sid, session_guard_new r sv))"

text \<open>The acknowledgement, which other tasks may run before: only then is the queue of outgoing
  messages published and the loop entered.\<close>

definition acknowledge ::
  "handshake_env \<Rightarrow> capabilities \<Rightarrow> ctx_ref \<Rightarrow> session_id \<Rightarrow> writer \<Rightarrow> server \<Rightarrow>
     (tunnel_error + control_loop) \<times> writer \<times> server" where
  "acknowledge env negotiated r sid w sv =
     (case write_bounded (he_postcard env) (he_ok_elapsed env) (AuthOk sid) w of
        (Inl e, w) \<Rightarrow> (Err e, w, session_guard_drop r sv)
      | (Inr _, w) \<Rightarrow>
          let ch = channel_new (rl_control_queue (rp_limits (ct_policy (sv_counters sv))))
          in (Ok (control_loop_new negotiated (he_now env) (sv_counters sv)), w,
              on_context r (\<lambda>ctx. ctx\<lparr>sc_control_tx := Some ch\<rparr>) sv))"

definition serve_control_prologue ::
  "handshake_env \<Rightarrow> protocol_version \<Rightarrow> capabilities \<Rightarrow> ctx_ref \<Rightarrow> reader \<Rightarrow> writer \<Rightarrow> auth_failure_limiter \<Rightarrow>
     server \<Rightarrow> (tunnel_error + capabilities) \<times> reader \<times> writer \<times> auth_failure_limiter \<times> server" where
  "serve_control_prologue env version offered r rd w l sv =
     (case authenticate env version offered rd w l (sv_counters sv) of
        (result, rd, w, l, c) \<Rightarrow>
          let sv = sv\<lparr>sv_counters := c\<rparr>
          in case result of
               Inl e \<Rightarrow> (Err e, rd, w, l, handshake_guard_drop sv)
             | Inr negotiated \<Rightarrow>
                 (case establish env r sv of
                    (Inl e, sv) \<Rightarrow> (Err e, rd, w, l, sv)
                  | (Inr _, sv) \<Rightarrow> (Ok negotiated, rd, w, l, sv)))"

end
