(* ===== verification/Server_Accept.thy ===== *)
theory Server_Accept
  imports Server_Control
begin

text \<open>
  The accept side of the server (\<open>crates/eggtunnel/src/server/accept.rs\<close>): admission of a transport
  connection, the first message that decides its role, the QUIC data streams, and the drain at
  shutdown. The TLS, WebSocket and QUIC handshakes are third-party code: their outcome is an
  argument.
\<close>

section \<open>Admission\<close>

record accept_context =
  ac_server :: server
  ac_auth_failures :: auth_failure_limiter
  ac_bind_policy :: bind_policy

definition accept_context_new :: "bind_policy \<Rightarrow> counters \<Rightarrow> accept_context" where
  "accept_context_new policy c =
     \<lparr>ac_server = \<lparr>sv_counters = c, sv_registry = [], sv_contexts = [], sv_guards = [], sv_relays = [],
        sv_retracting = [], sv_admission = rl_accepted_handshakes (rp_limits (ct_policy c)),
        sv_handshakes = 0\<rparr>,
      ac_auth_failures =
        auth_failure_limiter_new AUTH_FAILURES_PER_SOURCE AUTH_FAILURE_WINDOW MAX_AUTH_SOURCES,
      ac_bind_policy = policy\<rparr>"

definition admit :: "server \<Rightarrow> bool \<times> server" where
  "admit sv =
     (if sv_admission sv = 0 then (False, on_counters record_saturation sv)
      else (True, sv\<lparr>sv_admission := sv_admission sv - 1\<rparr>))"

text \<open>The accept branch of the loop up to the spawn of the handler: permit, then handshake guard.\<close>

definition accept_connection :: "server \<Rightarrow> bool \<times> server" where
  "accept_connection sv =
     (case admit sv of
        (True, sv) \<Rightarrow> (True, handshake_guard_new sv)
      | (False, sv) \<Rightarrow> (False, sv))"

section \<open>Connection handlers\<close>

text \<open>The TLS step: the handshake's own result under cancellation and the handshake timeout.\<close>

datatype tls_outcome = TlsCancelled | TlsTimeout | TlsFailed | TlsDone "bytes list"

text \<open>The mutual variant has the peer's certificates and derives the principal from the first.\<close>

definition accept_tls :: "bool \<Rightarrow> (bytes \<Rightarrow> bytes) \<Rightarrow> tls_outcome \<Rightarrow> tunnel_error + principal" where
  "accept_tls mutual certificate_principal outcome =
     (case outcome of
        TlsCancelled \<Rightarrow> Err Cancelled
      | TlsTimeout \<Rightarrow> Err Timeout
      | TlsFailed \<Rightarrow> Err Tls
      | TlsDone certificates \<Rightarrow>
          Ok (if mutual
              then (case certificates of [] \<Rightarrow> None | c # _ \<Rightarrow> Some (certificate_principal c))
              else None))"

datatype upgrade_outcome = UpgradeTimeout | UpgradeFailed | UpgradeDone

definition upgrade_websocket :: "bool \<Rightarrow> upgrade_outcome \<Rightarrow> tunnel_error + unit" where
  "upgrade_websocket websocket outcome =
     (if \<not> websocket then Ok ()
      else case outcome of
             UpgradeTimeout \<Rightarrow> Err Timeout
           | UpgradeFailed \<Rightarrow> Err (Protocol UnexpectedMessage)
           | UpgradeDone \<Rightarrow> Ok ())"

text \<open>A connection handler has ended, or has a registered Session that waits for its
  acknowledgement, with the negotiated capabilities.\<close>

datatype connection_outcome = Ended "tunnel_error + unit" | Opening capabilities

definition handle_first ::
  "handshake_env \<Rightarrow> stream_ref \<Rightarrow> ctx_ref \<Rightarrow> message \<Rightarrow> reader \<Rightarrow> writer \<Rightarrow> auth_failure_limiter \<Rightarrow> server \<Rightarrow>
     connection_outcome \<times> reader \<times> writer \<times> auth_failure_limiter \<times> server" where
  "handle_first env stream r first rd w l sv =
     (case first of
        DataHello hello \<Rightarrow>
          (case accept_data_hello stream hello (he_principal env) (he_now env) sv of
             (result, sv) \<Rightarrow> (Ended result, rd, w, l, handshake_guard_drop sv))
      | ClientHello version offered \<Rightarrow>
          (case serve_control_prologue env version offered r rd w l sv of
             (Inl e, rd, w, l, sv) \<Rightarrow> (Ended (Err e), rd, w, l, sv)
           | (Inr negotiated, rd, w, l, sv) \<Rightarrow> (Opening negotiated, rd, w, l, sv))
      | _ \<Rightarrow> (Ended (Err (Protocol UnexpectedMessage)), rd, w, l,
              handshake_guard_drop (on_counters reject_count sv)))"

definition handle_connection ::
  "handshake_env \<Rightarrow> tunnel_error + principal \<Rightarrow> tunnel_error + unit \<Rightarrow> bool \<Rightarrow> stream_ref \<Rightarrow> ctx_ref \<Rightarrow>
     reader \<Rightarrow> writer \<Rightarrow> auth_failure_limiter \<Rightarrow> server \<Rightarrow>
     connection_outcome \<times> reader \<times> writer \<times> auth_failure_limiter \<times> server" where
  "handle_connection env tls ws first_elapsed stream r rd w l sv =
     (case tls of
        Inl e \<Rightarrow> (Ended (Err e), rd, w, l, handshake_guard_drop sv)
      | Inr p \<Rightarrow>
          (case ws of
             Inl e \<Rightarrow> (Ended (Err e), rd, w, l, handshake_guard_drop sv)
           | Inr _ \<Rightarrow>
               if first_elapsed then (Ended (Err Timeout), rd, w, l, handshake_guard_drop sv)
               else (case read_message (he_postcard env) rd of
                       (Inl e, rd) \<Rightarrow> (Ended (Err e), rd, w, l, handshake_guard_drop sv)
                     | (Inr first, rd) \<Rightarrow>
                         handle_first (env\<lparr>he_principal := p\<rparr>) stream r first rd w l sv)))"

text \<open>The spawned task records the category of an error it ends with.\<close>

definition finish_connection :: "tunnel_error + unit \<Rightarrow> server \<Rightarrow> server" where
  "finish_connection result sv =
     (case result of
        Inl e \<Rightarrow> on_counters (record_termination (termination_category e)) sv
      | Inr _ \<Rightarrow> sv)"

text \<open>A QUIC control stream must open with \<open>ClientHello\<close> and carries no principal.\<close>

definition handle_quic_control ::
  "handshake_env \<Rightarrow> tunnel_error + message \<Rightarrow> ctx_ref \<Rightarrow> reader \<Rightarrow> writer \<Rightarrow> auth_failure_limiter \<Rightarrow> server \<Rightarrow>
     connection_outcome \<times> reader \<times> writer \<times> auth_failure_limiter \<times> server" where
  "handle_quic_control env first r rd w l sv =
     (case first of
        Inl e \<Rightarrow> (Ended (Err e), rd, w, l, handshake_guard_drop sv)
      | Inr (ClientHello version offered) \<Rightarrow>
          (case serve_control_prologue (env\<lparr>he_principal := None\<rparr>) version offered r rd w l sv of
             (Inl e, rd, w, l, sv) \<Rightarrow> (Ended (Err e), rd, w, l, sv)
           | (Inr negotiated, rd, w, l, sv) \<Rightarrow> (Opening negotiated, rd, w, l, sv))
      | Inr _ \<Rightarrow> (Ended (Err (Protocol UnexpectedMessage)), rd, w, l,
                  handshake_guard_drop (on_counters reject_count sv)))"

text \<open>A QUIC data stream: no handshake slot, no principal.\<close>

definition handle_quic_data_stream ::
  "tunnel_error + message \<Rightarrow> stream_ref \<Rightarrow> instant \<Rightarrow> server \<Rightarrow> (tunnel_error + unit) \<times> server" where
  "handle_quic_data_stream first stream now sv =
     (case first of
        Inl e \<Rightarrow> (Err e, sv)
      | Inr (DataHello hello) \<Rightarrow> accept_data_hello stream hello None now sv
      | Inr _ \<Rightarrow> (Err (Protocol UnexpectedMessage), on_counters reject_count sv))"

section \<open>Drain\<close>

definition drain_deadline_ms :: "counters \<Rightarrow> u32" where
  "drain_deadline_ms c =
     (let ms = as_millis (to_shutdown_grace (rp_timeouts (ct_policy c)))
      in if ms < 2 ^ 32 then of_nat ms else - 1)"

definition drain_notify :: "u32 \<Rightarrow> ctx_ref \<Rightarrow> server \<Rightarrow> server" where
  "drain_notify deadline_ms r sv =
     (case Option.bind (hm_get (sv_contexts sv) r) sc_control_tx of
        None \<Rightarrow> sv
      | Some ch \<Rightarrow>
          (case try_send (Drain deadline_ms) ch of
             None \<Rightarrow> sv
           | Some ch \<Rightarrow> on_context r (\<lambda>ctx. ctx\<lparr>sc_control_tx := Some ch\<rparr>) sv))"

text \<open>One pass over the live Sessions, skipping those already in \<open>notified\<close>.\<close>

fun drain_sessions ::
  "u32 \<Rightarrow> (ctx_ref \<times> session_context) list \<Rightarrow> session_id list \<Rightarrow> server \<Rightarrow> session_id list \<times> server" where
  "drain_sessions deadline_ms [] notified sv = (notified, sv)"
| "drain_sessions deadline_ms ((r, session) # active) notified sv =
     (if sc_id session \<in> set notified then drain_sessions deadline_ms active notified sv
      else drain_sessions deadline_ms active (sc_id session # notified) (drain_notify deadline_ms r sv))"

definition drain_pass :: "session_id list \<Rightarrow> server \<Rightarrow> session_id list \<times> server" where
  "drain_pass notified sv = drain_sessions (drain_deadline_ms (sv_counters sv)) (live sv) notified sv"

text \<open>At the deadline every live Session is cancelled.\<close>

fun drain_cancel :: "(ctx_ref \<times> session_context) list \<Rightarrow> server \<Rightarrow> server" where
  "drain_cancel [] sv = sv"
| "drain_cancel ((r, _) # active) sv =
     drain_cancel active (on_context r (\<lambda>ctx. ctx\<lparr>sc_cancelled := True\<rparr>) sv)"

definition drain_force :: "server \<Rightarrow> server" where
  "drain_force sv = drain_cancel (live sv) sv"

end
