(* ===== verification/Server_System.thy ===== *)
theory Server_System
  imports Server_Accept Server_Store Event_System
begin

text \<open>
  The whole server as a machine of interleaved critical sections: connections are admitted and
  handled, control loops take turns, service tasks accept connections, relay tasks advance, and
  shutdown drains. Which event comes next, and with what input, is arbitrary; the guards state only
  which tasks exist and that generated identifiers are fresh. The theory also
  states the invariant of the machine and the abstract registry of Sessions and bound services it
  implements; \<open>Server_View\<close> and \<open>Server_Correct\<close> prove both.
\<close>

section \<open>The machine\<close>

record server_system =
  sy_server :: server
  sy_limiter :: auth_failure_limiter
  sy_policy :: bind_policy
  sy_loops :: "(ctx_ref, control_loop) hashmap"
  sy_opening :: "ctx_ref list"
  sy_draining :: "ctx_ref list"

definition system_new :: "bind_policy \<Rightarrow> counters \<Rightarrow> server_system" where
  "system_new policy c =
     (let context = accept_context_new policy c
      in \<lparr>sy_server = ac_server context, sy_limiter = ac_auth_failures context,
          sy_policy = ac_bind_policy context, sy_loops = [], sy_opening = [],
          sy_draining = []\<rparr>)"

datatype server_event =
    EvConnect
  | EvHandshakeFailed tunnel_error
  | EvFirst handshake_env stream_ref ctx_ref message reader writer
  | EvAcknowledge ctx_ref handshake_env writer
  | EvQuicData "tunnel_error + message" stream_ref instant
  | EvTurn ctx_ref control_env control_turn writer
  | EvTeardown ctx_ref
  | EvServiceAccept ctx_ref service_id stream_ref "connection_id option" oneshot instant
  | EvRetract ctx_ref connection_id
  | EvRelayResolve oneshot bool
  | EvRelayClaim oneshot
  | EvRelayReport oneshot u64 u64
  | EvServiceStop ctx_ref service_id "oneshot list"
  | EvContextDrop ctx_ref
  | EvDrainPass "session_id list"
  | EvDrainForce

definition session_ids :: "server \<Rightarrow> (ctx_ref, session_id) hashmap" where
  "session_ids sv = map (\<lambda>(r, ctx). (r, sc_id ctx)) (sv_contexts sv)"

text \<open>A new allocation, and an identifier that no live context has.\<close>

definition fresh_session :: "handshake_env \<Rightarrow> ctx_ref \<Rightarrow> server \<Rightarrow> bool" where
  "fresh_session env r sv \<longleftrightarrow>
     hm_get (sv_contexts sv) r = None \<and>
     (case he_session_id env of
        None \<Rightarrow> True
      | Some sid \<Rightarrow> sid \<notin> set (hm_values (session_ids sv)))"

definition on_server :: "(server \<Rightarrow> server) \<Rightarrow> server_system \<Rightarrow> server_system" where
  "on_server f sy = sy\<lparr>sy_server := f (sy_server sy)\<rparr>"

definition step_first ::
  "handshake_env \<Rightarrow> stream_ref \<Rightarrow> ctx_ref \<Rightarrow> message \<Rightarrow> reader \<Rightarrow> writer \<Rightarrow> server_system \<Rightarrow> server_system" where
  "step_first env stream r first rd w sy =
     (case handle_first env stream r first rd w (sy_limiter sy) (sy_server sy) of
        (outcome, _, _, l, sv) \<Rightarrow>
          let sy = sy\<lparr>sy_limiter := l\<rparr>
          in case outcome of
               Ended result \<Rightarrow> sy\<lparr>sy_server := finish_connection result sv\<rparr>
             | Opening negotiated \<Rightarrow>
                 sy\<lparr>sy_server := sv, sy_opening := r # sy_opening sy,
                    sy_loops := hm_insert r
                      (control_loop_new negotiated (he_now env) (sv_counters sv)) (sy_loops sy)\<rparr>)"

definition end_loop :: "ctx_ref \<Rightarrow> (tunnel_error + unit) \<times> server \<Rightarrow> server_system \<Rightarrow> server_system" where
  "end_loop r ended sy =
     (case ended of (result, sv) \<Rightarrow>
        sy\<lparr>sy_server := finish_connection result sv, sy_loops := hm_remove r (sy_loops sy),
           sy_opening := removeAll r (sy_opening sy), sy_draining := removeAll r (sy_draining sy)\<rparr>)"

definition step_acknowledge :: "ctx_ref \<Rightarrow> handshake_env \<Rightarrow> writer \<Rightarrow> server_system \<Rightarrow> server_system option" where
  "step_acknowledge r env w sy =
     (case (hm_get (sy_loops sy) r, hm_get (session_ids (sy_server sy)) r) of
        (Some cl, Some sid) \<Rightarrow>
          if r \<notin> set (sy_opening sy) then None
          else Some (case acknowledge env (cl_negotiated cl) r sid w (sy_server sy) of
                 (Inl e, _, sv) \<Rightarrow> end_loop r (Err e, sv) sy
               | (Inr cl, _, sv) \<Rightarrow>
                   sy\<lparr>sy_server := sv, sy_loops := hm_insert r cl (sy_loops sy),
                      sy_opening := removeAll r (sy_opening sy)\<rparr>)
      | _ \<Rightarrow> None)"

definition step_turn ::
  "ctx_ref \<Rightarrow> control_env \<Rightarrow> control_turn \<Rightarrow> writer \<Rightarrow> server_system \<Rightarrow> server_system option" where
  "step_turn r env turn w sy =
     (if r \<in> set (sy_opening sy) \<or> r \<in> set (sy_draining sy) then None
      else case (hm_get (sy_loops sy) r, hm_get (session_ids (sy_server sy)) r) of
        (Some cl, Some sid) \<Rightarrow>
          (case control_turn_step (env\<lparr>ce_bind_policy := sy_policy sy\<rparr>) turn r sid cl (sy_server sy) w of
             None \<Rightarrow> None
           | Some (exit, cl, sv, _) \<Rightarrow>
               let sy' = sy\<lparr>sy_server := sv, sy_loops := hm_insert r cl (sy_loops sy)\<rparr>
               in Some (case exit of
                    LoopContinue \<Rightarrow> sy'
                  | LoopBreak \<Rightarrow> sy'\<lparr>sy_draining := r # sy_draining sy\<rparr>
                  | LoopReturn e \<Rightarrow> end_loop r (control_return r e sv) sy'))
      | _ \<Rightarrow> None)"

definition step_teardown :: "ctx_ref \<Rightarrow> server_system \<Rightarrow> server_system option" where
  "step_teardown r sy =
     (case hm_get (sy_loops sy) r of
        Some cl \<Rightarrow>
          if r \<in> set (sy_draining sy) then Some (end_loop r (control_break r cl (sy_server sy)) sy) else None
      | None \<Rightarrow> None)"

fun server_step :: "server_system \<Rightarrow> server_event \<Rightarrow> server_system option" where
  "server_step sy EvConnect = Some (on_server (snd \<circ> accept_connection) sy)"
| "server_step sy (EvHandshakeFailed e) =
     (if 0 < sv_handshakes (sy_server sy)
      then Some (on_server (finish_connection (Err e) \<circ> handshake_guard_drop) sy) else None)"
| "server_step sy (EvFirst env stream r first rd w) =
     (if 0 < sv_handshakes (sy_server sy) \<and> fresh_session env r (sy_server sy)
      then Some (step_first env stream r first rd w sy) else None)"
| "server_step sy (EvAcknowledge r env w) = step_acknowledge r env w sy"
| "server_step sy (EvQuicData first stream now) =
     Some (on_server (snd \<circ> handle_quic_data_stream first stream now) sy)"
| "server_step sy (EvTurn r env turn w) = step_turn r env turn w sy"
| "server_step sy (EvTeardown r) = step_teardown r sy"
| "server_step sy (EvServiceAccept r service external generated tx now) =
     (if fresh_connection r generated tx (sy_server sy)
      then Some (on_server (service_accept r service external generated tx now) sy) else None)"
| "server_step sy (EvRetract r cid) =
     (if (r, cid) \<in> set (sv_retracting (sy_server sy))
      then Some (on_server (retract_open r cid) sy) else None)"
| "server_step sy (EvRelayResolve tx give_up) = Some (on_server (relay_resolve tx give_up) sy)"
| "server_step sy (EvRelayClaim tx) = Some (on_server (relay_claim tx) sy)"
| "server_step sy (EvRelayReport tx up down) = Some (on_server (relay_report tx up down) sy)"
| "server_step sy (EvServiceStop r service relays) = Some (on_server (service_stop r service relays) sy)"
| "server_step sy (EvContextDrop r) =
     (if held r (sy_server sy) = 0 \<and> r \<notin> set (sv_guards (sy_server sy))
      then Some (on_server (context_drop r) sy) else None)"
| "server_step sy (EvDrainPass notified) = Some (on_server (snd \<circ> drain_pass notified) sy)"
| "server_step sy EvDrainForce = Some (on_server drain_force sy)"

section \<open>The abstract registry\<close>

text \<open>What the server promises: a table of open Sessions, each with the services bound for it.\<close>

type_synonym registry_spec = "session_id \<rightharpoonup> (service_id \<rightharpoonup> effective_bind)"

inductive registry_step :: "nat \<Rightarrow> nat \<Rightarrow> registry_spec \<Rightarrow> registry_spec \<Rightarrow> bool"
  for max_sessions max_binds where
  stutter: "registry_step max_sessions max_binds s s"
| open_session: "sid \<notin> dom s \<Longrightarrow> card (dom s) < max_sessions \<Longrightarrow>
    registry_step max_sessions max_binds s (s(sid \<mapsto> Map.empty))"
| close_session: "sid \<in> dom s \<Longrightarrow> registry_step max_sessions max_binds s (s(sid := None))"
| bind_service: "s sid = Some m \<Longrightarrow> i \<notin> dom m \<Longrightarrow> card (dom m) < max_binds \<Longrightarrow>
    registry_step max_sessions max_binds s (s(sid \<mapsto> m(i \<mapsto> e)))"
| unbind_service: "s sid = Some m \<Longrightarrow> i \<in> dom m \<Longrightarrow>
    registry_step max_sessions max_binds s (s(sid \<mapsto> m(i := None)))"

definition bind_of :: "bind_entry list \<Rightarrow> session_id \<Rightarrow> service_id \<rightharpoonup> effective_bind" where
  "bind_of binds sid i = map_of (map (\<lambda>(s, j, e). ((s, j), e)) binds) (sid, i)"

definition registry_of :: "server \<Rightarrow> registry_spec" where
  "registry_of sv sid =
     (case hm_get (sv_registry sv) sid of
        None \<Rightarrow> None
      | Some _ \<Rightarrow> Some (bind_of (ct_binds (sv_counters sv)) sid))"


section \<open>The session view of the store\<close>

text \<open>The part of the store that concerns Sessions and their services; everything that happens to
  connections leaves it alone.\<close>

record session_view =
  vw_sessions :: usize
  vw_services :: usize
  vw_binds :: "bind_entry list"
  vw_policy :: runtime_policy
  vw_registry :: "(session_id, ctx_ref) hashmap"
  vw_guards :: "ctx_ref list"
  vw_ids :: "(ctx_ref, session_id) hashmap"

definition view :: "server \<Rightarrow> session_view" where
  "view sv =
     \<lparr>vw_sessions = ct_sessions (sv_counters sv), vw_services = ct_services (sv_counters sv),
      vw_binds = ct_binds (sv_counters sv), vw_policy = ct_policy (sv_counters sv),
      vw_registry = sv_registry sv, vw_guards = sv_guards sv, vw_ids = session_ids sv\<rparr>"

definition bind_key :: "bind_entry \<Rightarrow> session_id \<times> service_id" where
  "bind_key b = (fst b, fst (snd b))"

definition registry_ok :: "session_view \<Rightarrow> bool" where
  "registry_ok v \<longleftrightarrow>
     hm_inv (vw_registry v) \<and> hm_inv (vw_ids v) \<and> distinct (vw_guards v) \<and>
     vw_sessions v = of_nat (length (vw_guards v)) \<and>
     (\<forall>sid r. hm_get (vw_registry v) sid = Some r \<longleftrightarrow> r \<in> set (vw_guards v) \<and> hm_get (vw_ids v) r = Some sid) \<and>
     (\<forall>r \<in> set (vw_guards v). hm_get (vw_ids v) r \<noteq> None) \<and>
     (\<forall>r r' sid. hm_get (vw_ids v) r = Some sid \<longrightarrow> hm_get (vw_ids v) r' = Some sid \<longrightarrow> r = r') \<and>
     length (vw_guards v) \<le> rl_sessions (rp_limits (vw_policy v))"

definition binds_ok :: "session_view \<Rightarrow> bool" where
  "binds_ok v \<longleftrightarrow>
     vw_services v = of_nat (length (vw_binds v)) \<and> distinct (map bind_key (vw_binds v)) \<and>
     fst ` set (vw_binds v) \<subseteq> dom (hm_get (vw_registry v))"

definition sessions_ok :: "session_view \<Rightarrow> bool" where
  "sessions_ok v \<longleftrightarrow> registry_ok v \<and> binds_ok v"

text \<open>A control loop agrees with the binds of its Session, and its names with its services.\<close>

definition view_max_services :: "bind_policy \<Rightarrow> session_view \<Rightarrow> nat" where
  "view_max_services policy v =
     min (max_services_per_session policy) (rl_services_per_session (rp_limits (vw_policy v)))"

definition loop_ok :: "nat \<Rightarrow> bind_entry list \<Rightarrow> session_id \<Rightarrow> control_loop \<Rightarrow> bool" where
  "loop_ok n binds sid cl \<longleftrightarrow>
     hm_inv (cl_services cl) \<and> hm_len (cl_services cl) \<le> n \<and>
     (\<forall>i. hm_get (cl_services cl) i = None \<longleftrightarrow> bind_of binds sid i = None) \<and>
     set (cl_names cl) = (name_str \<circ> se_name) ` set (hm_values (cl_services cl)) \<and>
     (\<forall>i j e f. hm_get (cl_services cl) i = Some e \<longrightarrow> hm_get (cl_services cl) j = Some f \<longrightarrow>
        name_str (se_name e) = name_str (se_name f) \<longrightarrow> i = j)"

definition loops_ok :: "bind_policy \<Rightarrow> (ctx_ref, control_loop) hashmap \<Rightarrow> session_view \<Rightarrow> bool" where
  "loops_ok policy loops v \<longleftrightarrow>
     hm_inv loops \<and> (\<forall>r. hm_get loops r = None \<longleftrightarrow> r \<notin> set (vw_guards v)) \<and>
     (\<forall>r cl sid. hm_get loops r = Some cl \<longrightarrow> hm_get (vw_ids v) r = Some sid \<longrightarrow>
        loop_ok (view_max_services policy v) (vw_binds v) sid cl)"

text \<open>A Session that waits for its acknowledgement has no service yet.\<close>

definition opening_ok :: "(ctx_ref, control_loop) hashmap \<Rightarrow> ctx_ref list \<Rightarrow> bool" where
  "opening_ok loops opening \<longleftrightarrow>
     (\<forall>r \<in> set opening. \<exists>cl. hm_get loops r = Some cl \<and> cl_services cl = [] \<and> cl_names cl = [])"

definition system_inv :: "server_system \<Rightarrow> bool" where
  "system_inv sy \<longleftrightarrow> sv_inv (sy_server sy) \<and> sessions_ok (view (sy_server sy)) \<and>
     loops_ok (sy_policy sy) (sy_loops sy) (view (sy_server sy)) \<and>
     opening_ok (sy_loops sy) (sy_opening sy)"

end
