(* ===== verification/Server_View.thy ===== *)
theory Server_View
  imports Server_System
begin

text \<open>
  The session view of the server store: connections leave it alone, and Sessions and services change
  it in four ways, each of which keeps the invariant of the view and of the control loops.
\<close>

section \<open>Connections do not touch the session view\<close>

named_theorems view_simps "operations that leave the session view alone"

lemma session_ids_get: "hm_get (session_ids sv) r = map_option sc_id (hm_get (sv_contexts sv) r)"
  by (simp add: session_ids_def hm_get_def map_of_map)

lemma session_ids_modify:
  "(\<And>ctx. sc_id (g ctx) = sc_id ctx) \<Longrightarrow> session_ids (on_context r g sv) = session_ids sv"
  by (auto simp: session_ids_def hm_modify_def)

lemma view_on_context: "(\<And>ctx. sc_id (g ctx) = sc_id ctx) \<Longrightarrow> view (on_context r g sv) = view sv"
  by (simp add: view_def session_ids_modify)

definition session_counts :: "counters \<Rightarrow> usize \<times> usize \<times> bind_entry list \<times> runtime_policy" where
  "session_counts c = (ct_sessions c, ct_services c, ct_binds c, ct_policy c)"

lemma view_on_counters:
  "session_counts (f (sv_counters sv)) = session_counts (sv_counters sv) \<Longrightarrow> view (on_counters f sv) = view sv"
  by (simp add: view_def session_counts_def session_ids_def)

lemma session_counts_simps [simp]:
  "session_counts (reject_count c) = session_counts c" "session_counts (record_saturation c) = session_counts c"
  "session_counts (record_termination t c) = session_counts c"
  "session_counts (record_join_result j c) = session_counts c"
  "session_counts (enter_pending c) = session_counts c" "session_counts (enter_active c) = session_counts c"
  "session_counts (enter_handshakes c) = session_counts c"
  "session_counts (c\<lparr>ct_pending := n\<rparr>) = session_counts c"
  "session_counts (c\<lparr>ct_active_connections := n\<rparr>) = session_counts c"
  "session_counts (c\<lparr>ct_handshakes := n\<rparr>) = session_counts c"
  "session_counts (c\<lparr>ct_bytes_upstream := x, ct_bytes_downstream := y\<rparr>) = session_counts c"
  by (simp_all add: session_counts_def reject_count_def record_saturation_def record_termination_def
      record_join_result_def enter_pending_def enter_active_def enter_handshakes_def)

lemma view_fields [view_simps]:
  "view (sv\<lparr>sv_relays := x\<rparr>) = view sv" "view (sv\<lparr>sv_retracting := y\<rparr>) = view sv"
  "view (sv\<lparr>sv_admission := n\<rparr>) = view sv" "view (sv\<lparr>sv_handshakes := n\<rparr>) = view sv"
  by (simp_all add: view_def session_ids_def)

lemma view_take_pending [view_simps]: "view (snd (take_pending r cid sv)) = view sv"
  by (simp add: take_pending_def view_on_counters view_on_context split: option.split)

lemma view_take_pendingD: "take_pending r cid sv = (x, sv') \<Longrightarrow> view sv' = view sv"
  using view_take_pending [of r cid sv] by simp

lemma view_retain_pending [view_simps]: "view (retain_pending P r sv) = view sv"
  by (simp add: retain_pending_def Let_def view_on_counters view_on_context split: option.split)

lemma view_remove_pending [view_simps]:
  "view (remove_service_pending r i sv) = view sv" "view (remove_all_pending r sv) = view sv"
  by (simp_all add: remove_service_pending_def remove_all_pending_def view_simps)

lemma view_deliver [view_simps]: "view (snd (deliver tx stream sv)) = view sv"
  by (simp add: deliver_def view_simps split: option.split)

lemma view_accept_data_hello [view_simps]: "view (snd (accept_data_hello stream hello p now sv)) = view sv"
  by (auto simp: accept_data_hello_def view_simps view_on_counters dest: view_take_pendingD
      split: option.splits prod.splits)

lemma view_relay_end [view_simps]: "view (relay_end tx sv) = view sv"
  by (simp add: relay_end_def view_simps view_on_counters view_on_context split: option.split)

lemma view_relay_steps [view_simps]:
  "view (relay_resolve tx b sv) = view sv" "view (relay_claim tx sv) = view sv"
  "view (relay_report tx up down sv) = view sv" "view (relay_abort_all txs sv) = view sv"
  subgoal by (simp add: relay_resolve_def view_simps)
  subgoal by (auto simp: relay_claim_def view_simps dest: view_take_pendingD
      split: option.splits relay_stage.splits prod.splits)
  subgoal by (auto simp: relay_report_def view_simps view_on_counters split: option.splits relay_stage.splits)
  subgoal by (induction txs arbitrary: sv) (simp_all add: view_simps)
  done

lemma view_service_accept [view_simps]: "view (service_accept r i x g tx now sv) = view sv"
  by (simp add: service_accept_def Let_def view_simps view_on_counters view_on_context split: option.split)

lemma view_retract [view_simps]:
  "view (retract_open r cid sv) = view sv" "view (retract_abort r cid sv) = view sv"
  by (simp_all add: retract_open_def retract_abort_def case_prod_beta view_simps view_on_counters view_on_context)

lemma view_handshake [view_simps]:
  "view (handshake_guard_new sv) = view sv" "view (handshake_guard_drop sv) = view sv"
  "view (snd (accept_connection sv)) = view sv" "view (finish_connection result sv) = view sv"
  by (simp_all add: handshake_guard_new_def handshake_guard_drop_def accept_connection_def admit_def
      finish_connection_def view_simps view_on_counters split: sum.split)

lemma view_service_stop [view_simps]: "view (service_stop r i txs sv) = view sv"
  by (simp add: service_stop_def view_simps)

lemma view_abort_children [view_simps]: "view (abort_children r sv) = view sv"
proof -
  have "view (fold (retract_abort r) cids sv) = view sv" for cids
    by (induction cids arbitrary: sv) (simp_all add: view_simps)
  then show ?thesis by (simp add: abort_children_def view_simps)
qed

lemma view_drain [view_simps]: "view (snd (drain_pass notified sv)) = view sv" "view (drain_force sv) = view sv"
proof -
  have "view (drain_notify ms r sv) = view sv" for ms r sv
    by (simp add: drain_notify_def view_on_context split: option.split)
  then have "view (snd (drain_sessions ms active notified sv)) = view sv" for ms active notified sv
    by (induction ms active notified sv rule: drain_sessions.induct) auto
  then show "view (snd (drain_pass notified sv)) = view sv" by (simp add: drain_pass_def)
  have "view (drain_cancel active sv) = view sv" for active sv
    by (induction active sv rule: drain_cancel.induct) (auto simp: view_on_context)
  then show "view (drain_force sv) = view sv" by (simp add: drain_force_def)
qed

lemma view_quic_data [view_simps]: "view (snd (handle_quic_data_stream first stream now sv)) = view sv"
  by (auto simp: handle_quic_data_stream_def view_simps view_on_counters split: sum.splits message.splits)


section \<open>The four changes of the session view\<close>

definition view_open :: "ctx_ref \<Rightarrow> session_id \<Rightarrow> session_view \<Rightarrow> session_view" where
  "view_open r sid v =
     v\<lparr>vw_sessions := vw_sessions v + 1, vw_guards := r # vw_guards v,
       vw_registry := hm_insert sid r (vw_registry v), vw_ids := hm_insert r sid (vw_ids v)\<rparr>"

definition view_close :: "ctx_ref \<Rightarrow> session_id \<Rightarrow> session_view \<Rightarrow> session_view" where
  "view_close r sid v =
     (let kept = filter (\<lambda>(s, _, _). s \<noteq> sid) (vw_binds v)
      in v\<lparr>vw_sessions := vw_sessions v - 1, vw_guards := remove1 r (vw_guards v),
           vw_registry := hm_remove sid (vw_registry v), vw_binds := kept,
           vw_services := vw_services v - of_nat (length (vw_binds v) - length kept)\<rparr>)"

definition view_bind :: "bind_entry \<Rightarrow> session_view \<Rightarrow> session_view" where
  "view_bind b v = v\<lparr>vw_binds := vw_binds v @ [b], vw_services := vw_services v + 1\<rparr>"

definition view_unbind :: "session_id \<Rightarrow> service_id \<Rightarrow> session_view \<Rightarrow> session_view" where
  "view_unbind sid i v =
     v\<lparr>vw_binds := filter (\<lambda>(s, j, _). s \<noteq> sid \<or> j \<noteq> i) (vw_binds v), vw_services := vw_services v - 1\<rparr>"

lemma hm_inv_map_values: "hm_inv (map (\<lambda>(k, v). (k, f v)) m) \<longleftrightarrow> hm_inv m"
  by (simp add: hm_inv_def o_def case_prod_beta)

lemma session_ids_insert:
  "session_ids (sv\<lparr>sv_contexts := hm_insert r ctx m\<rparr>) = hm_insert r (sc_id ctx) (map (\<lambda>(r, ctx). (r, sc_id ctx)) m)"
  by (induction m) (auto simp: session_ids_def hm_insert_def)

lemma bind_of_filter:
  assumes "distinct (map bind_key binds)"
  shows "bind_of (filter P binds) sid i =
    (case bind_of binds sid i of None \<Rightarrow> None | Some e \<Rightarrow> if P (sid, i, e) then Some e else None)"
  using assms
proof (induction binds)
  case (Cons b binds)
  obtain s j e where b: "b = (s, j, e)" by (cases b)
  have "bind_of binds s j = None"
    using Cons.prems b by (force simp: bind_of_def map_of_eq_None_iff bind_key_def split: prod.splits)
  then show ?case
    using Cons b by (auto simp: bind_of_def)
qed (simp add: bind_of_def)

lemma bind_of_append: "bind_of (binds @ [(s, j, e)]) sid i =
    (case bind_of binds sid i of None \<Rightarrow> if (sid, i) = (s, j) then Some e else None | Some f \<Rightarrow> Some f)"
  by (auto simp: bind_of_def map_add_def split: option.split)

lemma bind_of_Some: "distinct (map bind_key binds) \<Longrightarrow>
    bind_of binds sid i = Some e \<longleftrightarrow> (sid, i, e) \<in> set binds"
proof -
  assume "distinct (map bind_key binds)"
  then have "distinct (map fst (map (\<lambda>(s, j, e). ((s, j), e)) binds))"
    by (simp add: bind_key_def [abs_def] o_def case_prod_beta)
  then show ?thesis
    unfolding bind_of_def by (subst map_of_eq_Some_iff) (force+)
qed

lemma bind_of_None: "bind_of binds sid i = None \<longleftrightarrow> (sid, i) \<notin> bind_key ` set binds"
  by (force simp: bind_of_def map_of_eq_None_iff bind_key_def split: prod.splits)

lemma registry_ok_lookup:
  "registry_ok v \<Longrightarrow> hm_get (vw_registry v) sid = Some r \<longleftrightarrow> r \<in> set (vw_guards v) \<and> hm_get (vw_ids v) r = Some sid"
  by (simp add: registry_ok_def)

lemma sessions_ok_open:
  assumes ok: "sessions_ok v" and r: "hm_get (vw_ids v) r = None" and sid: "\<And>s. hm_get (vw_ids v) s \<noteq> Some sid"
    and room: "length (vw_guards v) < rl_sessions (rp_limits (vw_policy v))"
  shows "sessions_ok (view_open r sid v)"
proof -
  have "r \<notin> set (vw_guards v)" using ok r by (auto simp: sessions_ok_def registry_ok_def)
  then have "registry_ok (view_open r sid v)"
    using ok r sid room by (auto simp: sessions_ok_def registry_ok_def view_open_def)
  moreover have "binds_ok (view_open r sid v)"
    using ok by (auto simp: sessions_ok_def binds_ok_def view_open_def)
  ultimately show ?thesis by (simp add: sessions_ok_def)
qed

lemma sessions_ok_close:
  assumes ok: "sessions_ok v" and r: "r \<in> set (vw_guards v)" and sid: "hm_get (vw_ids v) r = Some sid"
  shows "sessions_ok (view_close r sid v)"
proof -
  let ?kept = "filter (\<lambda>(s, _, _). s \<noteq> sid) (vw_binds v)"
  have "length ?kept \<le> length (vw_binds v)" by simp
  then have "vw_services v - of_nat (length (vw_binds v) - length ?kept) = of_nat (length ?kept)"
    using ok by (simp add: sessions_ok_def binds_ok_def of_nat_diff)
  moreover have "distinct (map bind_key ?kept)"
    using ok by (auto simp: sessions_ok_def binds_ok_def distinct_map intro: inj_on_subset)
  ultimately have "binds_ok (view_close r sid v)"
    using ok by (auto simp: sessions_ok_def binds_ok_def view_close_def Let_def)
  moreover have "vw_sessions v - 1 = of_nat (length (vw_guards v) - 1)"
    using ok r by (cases "vw_guards v") (auto simp: sessions_ok_def registry_ok_def)
  then have "registry_ok (view_close r sid v)"
    using ok r sid by (auto simp: sessions_ok_def registry_ok_def view_close_def Let_def length_remove1 set_remove1_eq)
  ultimately show ?thesis by (simp add: sessions_ok_def)
qed

lemma sessions_ok_bind:
  assumes "sessions_ok v" and "r \<in> set (vw_guards v)" and "hm_get (vw_ids v) r = Some sid"
    and "bind_of (vw_binds v) sid i = None"
  shows "sessions_ok (view_bind (sid, i, e) v)"
proof -
  have "hm_get (vw_registry v) sid = Some r"
    using assms(1-3) by (simp add: sessions_ok_def registry_ok_lookup)
  then have "binds_ok (view_bind (sid, i, e) v)"
    using assms(1,4) by (auto simp: sessions_ok_def binds_ok_def view_bind_def bind_of_None bind_key_def [of "(sid, i, e)"])
  moreover have "registry_ok (view_bind (sid, i, e) v)"
    using assms(1) by (simp add: sessions_ok_def registry_ok_def view_bind_def)
  ultimately show ?thesis by (simp add: sessions_ok_def)
qed

lemma length_filter_key:
  "distinct (map f xs) \<Longrightarrow> x \<in> set xs \<Longrightarrow> Suc (length (filter (\<lambda>y. f y \<noteq> f x) xs)) = length xs"
proof (induction xs)
  case (Cons y xs)
  show ?case
  proof (cases "f y = f x")
    case True
    then have "filter (\<lambda>y. f y \<noteq> f x) xs = xs"
      using Cons.prems(1) by (intro filter_True) (auto simp: image_iff)
    with True show ?thesis by simp
  next
    case False
    with Cons show ?thesis by auto
  qed
qed simp

lemma sessions_ok_unbind:
  assumes ok: "sessions_ok v" and i: "bind_of (vw_binds v) sid i = Some e"
  shows "sessions_ok (view_unbind sid i v)"
proof -
  let ?kept = "filter (\<lambda>(s, j, _). s \<noteq> sid \<or> j \<noteq> i) (vw_binds v)"
  have d: "distinct (map bind_key (vw_binds v))" using ok by (simp add: sessions_ok_def binds_ok_def)
  then have mem: "(sid, i, e) \<in> set (vw_binds v)" using i by (simp add: bind_of_Some)
  have "?kept = filter (\<lambda>b. bind_key b \<noteq> bind_key (sid, i, e)) (vw_binds v)"
    by (rule filter_cong) (auto simp: bind_key_def)
  then have "Suc (length ?kept) = length (vw_binds v)"
    using length_filter_key [OF d mem] by simp
  then have "vw_services v - 1 = of_nat (length ?kept)"
    using ok by (auto simp: sessions_ok_def binds_ok_def simp flip: \<open>Suc (length ?kept) = length (vw_binds v)\<close>)
  moreover have "distinct (map bind_key ?kept)"
    using d by (auto simp: distinct_map intro: inj_on_subset)
  ultimately have "binds_ok (view_unbind sid i v)"
    using ok by (auto simp: sessions_ok_def binds_ok_def view_unbind_def)
  moreover have "registry_ok (view_unbind sid i v)"
    using ok by (simp add: sessions_ok_def registry_ok_def view_unbind_def)
  ultimately show ?thesis by (simp add: sessions_ok_def)
qed


section \<open>Control loops agree with the session view\<close>

lemma loops_ok_update:
  assumes "loops_ok policy loops v" and "sessions_ok v" and "r \<in> set (vw_guards v)"
    and sid: "hm_get (vw_ids v) r = Some sid"
    and same: "vw_guards v' = vw_guards v" "vw_ids v' = vw_ids v" "vw_policy v' = vw_policy v"
    and other: "\<And>s. s \<noteq> sid \<Longrightarrow> bind_of (vw_binds v') s = bind_of (vw_binds v) s"
    and cl: "loop_ok (view_max_services policy v) (vw_binds v') sid cl"
  shows "loops_ok policy (hm_insert r cl loops) v'"
proof -
  have n: "view_max_services policy v' = view_max_services policy v"
    by (simp add: view_max_services_def same)
  have "loop_ok (view_max_services policy v') (vw_binds v') s c"
    if "hm_get (hm_insert r cl loops) r' = Some c" "hm_get (vw_ids v') r' = Some s" for r' c s
  proof (cases "r' = r")
    case True
    with that cl sid n show ?thesis by (simp add: same)
  next
    case False
    then have "s \<noteq> sid"
      using that(2) sid assms(2) by (auto simp: same sessions_ok_def registry_ok_def)
    moreover have "loop_ok (view_max_services policy v) (vw_binds v) s c"
      using assms(1) that False by (simp add: loops_ok_def same)
    ultimately show ?thesis
      by (simp add: loop_ok_def n other)
  qed
  then show ?thesis
    using assms(1,3) by (simp add: loops_ok_def same)
qed

lemma loops_ok_open:
  assumes "loops_ok policy loops v" and "sessions_ok v" and "hm_get (vw_ids v) r = None"
    and sid: "\<And>s. hm_get (vw_ids v) s \<noteq> Some sid"
  shows "loops_ok policy (hm_insert r (control_loop_new caps now c) loops) (view_open r sid v)"
proof -
  have "hm_get (vw_registry v) sid = None"
    using assms(2) sid registry_ok_lookup [of v sid] by (cases "hm_get (vw_registry v) sid") (auto simp: sessions_ok_def)
  then have "bind_of (vw_binds v) sid i = None" for i
    using assms(2) by (auto simp: sessions_ok_def binds_ok_def bind_of_None bind_key_def)
  then have "loop_ok n (vw_binds v) sid (control_loop_new caps now c)" for n
    by (simp add: loop_ok_def control_loop_new_def hm_values_def)
  then show ?thesis
    using assms(1,3) by (simp add: loops_ok_def view_open_def view_max_services_def)
qed

lemma loops_ok_close:
  assumes ok: "loops_ok policy loops v" "sessions_ok v" and r: "r \<in> set (vw_guards v)" "hm_get (vw_ids v) r = Some sid"
  shows "loops_ok policy (hm_remove r loops) (view_close r sid v)"
proof -
  have d: "distinct (map bind_key (vw_binds v))" "distinct (vw_guards v)"
    using ok(2) by (simp_all add: sessions_ok_def binds_ok_def registry_ok_def)
  have "loop_ok n (vw_binds (view_close r sid v)) s c = loop_ok n (vw_binds v) s c"
    if "hm_get (vw_ids v) r' = Some s" "r' \<noteq> r" for n s c r'
  proof -
    have "s \<noteq> sid" using that r(2) ok(2) by (auto simp: sessions_ok_def registry_ok_def)
    then have "bind_of (vw_binds (view_close r sid v)) s = bind_of (vw_binds v) s"
      by (simp add: fun_eq_iff view_close_def Let_def bind_of_filter [OF d(1)] split: option.split)
    then show ?thesis by (simp add: loop_ok_def)
  qed
  then show ?thesis
    using ok(1) d(2) by (auto simp: loops_ok_def view_close_def Let_def view_max_services_def split: if_splits)
qed

lemma loops_ok_same_view:
  "loops_ok policy loops v \<Longrightarrow> vw_guards v' = vw_guards v \<Longrightarrow> vw_binds v' = vw_binds v \<Longrightarrow> vw_policy v' = vw_policy v \<Longrightarrow>
     (\<And>r. r \<in> set (vw_guards v) \<Longrightarrow> hm_get (vw_ids v') r = hm_get (vw_ids v) r) \<Longrightarrow> loops_ok policy loops v'"
  unfolding loops_ok_def view_max_services_def by (metis option.distinct(1))

text \<open>Registering and unregistering one service.\<close>

lemma admit_service_Inr:
  assumes "admit_service os register policy c cl = Inr e"
  shows "hm_len (cl_services cl) < max_services policy c \<and>
    hm_get (cl_services cl) (rs_service_id register) = None \<and>
    name_str (rs_name register) \<notin> set (cl_names cl) \<and>
    (\<exists>addr local. bind_to_socket (rs_requested_bind register) policy = Ok addr \<and> os addr = Some (Ok local) \<and>
       e = socket_to_effective local)"
  using assms by (auto simp: admit_service_def hm_contains_def split: if_splits sum.splits option.splits)

lemma loop_ok_names:
  "loop_ok n binds sid cl \<Longrightarrow> hm_get (cl_services cl) i = Some e \<Longrightarrow> hm_get (cl_services cl) j = Some f \<Longrightarrow>
     name_str (se_name e) = name_str (se_name f) \<Longrightarrow> i = j"
  unfolding loop_ok_def by blast

lemma loop_okI:
  "hm_inv (cl_services cl) \<Longrightarrow> hm_len (cl_services cl) \<le> n \<Longrightarrow>
   (\<And>i. hm_get (cl_services cl) i = None \<longleftrightarrow> bind_of binds sid i = None) \<Longrightarrow>
   set (cl_names cl) = (name_str \<circ> se_name) ` set (hm_values (cl_services cl)) \<Longrightarrow>
   (\<And>i j e f. hm_get (cl_services cl) i = Some e \<Longrightarrow> hm_get (cl_services cl) j = Some f \<Longrightarrow>
      name_str (se_name e) = name_str (se_name f) \<Longrightarrow> i = j) \<Longrightarrow> loop_ok n binds sid cl"
  unfolding loop_ok_def by blast

lemma loop_ok_name_iff:
  "loop_ok n binds sid cl \<Longrightarrow> x \<in> set (cl_names cl) \<longleftrightarrow> (\<exists>i e. hm_get (cl_services cl) i = Some e \<and> x = name_str (se_name e))"
  using hm_values_get [of "cl_services cl"] by (fastforce simp: loop_ok_def image_iff)

lemma loop_ok_binds: "loop_ok n binds sid cl \<Longrightarrow> hm_get (cl_services cl) i = None \<longleftrightarrow> bind_of binds sid i = None"
  by (simp add: loop_ok_def)

lemma loop_ok_register:
  assumes ok: "loop_ok n binds sid cl" and room: "hm_len (cl_services cl) < n"
    and i: "hm_get (cl_services cl) i = None" and name: "name_str (se_name entry) \<notin> set (cl_names cl)"
  shows "loop_ok n (binds @ [(sid, i, e)]) sid
    (cl\<lparr>cl_names := set_insert (name_str (se_name entry)) (cl_names cl),
        cl_services := hm_insert i entry (cl_services cl)\<rparr>)"
proof -
  let ?new = "hm_insert i entry (cl_services cl)"
  have inv: "hm_inv (cl_services cl)" using ok by (simp add: loop_ok_def)
  have "set (hm_values ?new) = insert entry (set (hm_values (cl_services cl)))"
    by (simp add: hm_insert_fresh [OF i] hm_values_def)
  then have names: "set (set_insert (name_str (se_name entry)) (cl_names cl)) =
      (name_str \<circ> se_name) ` set (hm_values ?new)"
    using ok name by (simp add: set_insert_def loop_ok_def)
  have apart: "name_str (se_name f) \<noteq> name_str (se_name entry)" if "hm_get (cl_services cl) j = Some f" for j f
    using loop_ok_name_iff [OF ok] that name by metis
  have uniq: "j = k" if "hm_get ?new j = Some f" "hm_get ?new k = Some g"
      "name_str (se_name f) = name_str (se_name g)" for j k f g
    using that apart [of j f] apart [of k g] loop_ok_names [OF ok, of j f k g]
    by (cases "j = i"; cases "k = i") auto
  have len: "hm_len ?new \<le> n"
    using hm.len_insert_fresh [OF inv i] room by simp
  have binds: "hm_get ?new j = None \<longleftrightarrow> bind_of (binds @ [(sid, i, e)]) sid j = None" for j
    using loop_ok_binds [OF ok, of j] by (auto simp: bind_of_append split: option.splits)
  show ?thesis
  proof (rule loop_okI, goal_cases)
    case (5 j k f g)
    then show ?case using uniq [of j f k g] by simp
  qed (use inv names len binds in simp_all)
qed

lemma loop_ok_unregister:
  assumes ok: "loop_ok n binds sid cl" and d: "distinct (map bind_key binds)"
    and i: "hm_get (cl_services cl) i = Some entry"
  shows "loop_ok n (filter (\<lambda>(s, j, _). s \<noteq> sid \<or> j \<noteq> i) binds) sid
    (cl\<lparr>cl_services := hm_remove i (cl_services cl),
        cl_names := removeAll (name_str (se_name entry)) (cl_names cl)\<rparr>)"
proof -
  let ?new = "hm_remove i (cl_services cl)"
  have inv: "hm_inv (cl_services cl)" "hm_inv ?new" using ok by (simp_all add: loop_ok_def)
  have same: "name_str (se_name f) = name_str (se_name entry) \<longleftrightarrow> j = i" if "hm_get (cl_services cl) j = Some f" for j f
    using loop_ok_names [OF ok that i] that i by auto
  have vals: "f \<in> set (hm_values ?new) \<longleftrightarrow> (\<exists>j. j \<noteq> i \<and> hm_get (cl_services cl) j = Some f)" for f
    by (subst hm_values_get [OF inv(2)]) (auto split: if_splits)
  have names: "set (removeAll (name_str (se_name entry)) (cl_names cl)) = (name_str \<circ> se_name) ` set (hm_values ?new)"
  proof (intro equalityI subsetI)
    fix x assume "x \<in> set (removeAll (name_str (se_name entry)) (cl_names cl))"
    then obtain j f where f: "hm_get (cl_services cl) j = Some f" "x = name_str (se_name f)"
      "x \<noteq> name_str (se_name entry)"
      using loop_ok_name_iff [OF ok, of x] by auto
    then have "j \<noteq> i" using i by auto
    then have "f \<in> set (hm_values ?new)" using vals f(1) by blast
    then show "x \<in> (name_str \<circ> se_name) ` set (hm_values ?new)" using f(2) by auto
  next
    fix x assume "x \<in> (name_str \<circ> se_name) ` set (hm_values ?new)"
    then obtain j f where f: "hm_get (cl_services cl) j = Some f" "x = name_str (se_name f)" "j \<noteq> i"
      using vals by auto
    then show "x \<in> set (removeAll (name_str (se_name entry)) (cl_names cl))"
      using same [OF f(1)] loop_ok_name_iff [OF ok, of x] by auto
  qed
  have binds: "hm_get ?new j = None \<longleftrightarrow>
      bind_of (filter (\<lambda>(s, j, _). s \<noteq> sid \<or> j \<noteq> i) binds) sid j = None" for j
    using loop_ok_binds [OF ok, of j] by (auto simp: bind_of_filter [OF d] split: option.splits)
  have len: "hm_len ?new \<le> n"
    using ok hm.len_remove_le [OF inv(1), of i] by (simp add: loop_ok_def)
  have uniq: "j = k" if "hm_get ?new j = Some f" "hm_get ?new k = Some g"
      "name_str (se_name f) = name_str (se_name g)" for j k f g
    using that loop_ok_names [OF ok, of j f k g] by (simp split: if_splits)
  show ?thesis
  proof (rule loop_okI, goal_cases)
    case (5 j k f g)
    then show ?case using uniq [of j f k g] by simp
  qed (use inv names len binds in simp_all)
qed

end
