(* ===== verification/Server_Turns.thy ===== *)
theory Server_Turns
  imports Server_View "HOL-Library.Multiset"
begin

text \<open>
  The balance of the store through control loops, teardown and drain, and the effect of one turn of a
  control loop on the session view: nothing, one service bound, or one service unbound.
\<close>


section \<open>The control loop keeps the balance of the store\<close>

lemma finish_connection_inv: "sv_inv sv \<Longrightarrow> sv_inv (finish_connection result sv)"
  by (simp add: finish_connection_def sv_inv_same_gauges split: sum.split)

lemma close_receiver_inv: "sv_inv sv \<Longrightarrow> sv_inv (on_context r close_receiver sv)"
  by (rule sv_inv_same_context) (auto simp: close_receiver_def sv_inv_def sv_bounded_def)

lemma fold_retract_abort_inv:
  "sv_inv sv \<Longrightarrow> mset (map (Pair r) cids) \<subseteq># mset (sv_retracting sv) \<Longrightarrow> sv_inv (fold (retract_abort r) cids sv)"
proof (induction cids arbitrary: sv)
  case (Cons cid cids)
  have mem: "(r, cid) \<in> set (sv_retracting sv)"
    using Cons.prems(2) by (auto simp: insert_subset_eq_iff)
  have "mset (map (Pair r) cids) \<subseteq># mset (sv_retracting (retract_abort r cid sv))"
    using Cons.prems(2) by (simp add: retract_abort_def insert_subset_eq_iff)
  then show ?case
    using Cons.IH retract_inv(2) [OF Cons.prems(1) mem] by simp
qed simp

lemma abort_children_inv: "sv_inv sv \<Longrightarrow> sv_inv (abort_children r sv)"
proof -
  have "map (Pair r) (retracts_of r sv) = filter (\<lambda>(s, _). s = r) (sv_retracting sv)"
    unfolding retracts_of_def map_map by (rule map_idI) auto
  then have "mset (map (Pair r) (retracts_of r sv)) \<subseteq># mset (sv_retracting sv)"
    by (simp add: multiset_filter_subset)
  then show "sv_inv sv \<Longrightarrow> ?thesis"
    by (simp add: abort_children_def relay_abort_all_inv fold_retract_abort_inv)
qed

lemma control_end_inv:
  "sv_inv sv \<Longrightarrow> sv_inv (snd (control_break r cl sv))" "sv_inv sv \<Longrightarrow> sv_inv (snd (control_return r e sv))"
  by (simp_all add: control_break_def control_return_def session_guard_drop_inv close_receiver_inv
      remove_pending_inv abort_children_inv)

lemma drain_inv: "sv_inv sv \<Longrightarrow> sv_inv (snd (drain_pass notified sv))" "sv_inv sv \<Longrightarrow> sv_inv (drain_force sv)"
proof -
  have notify: "sv_inv sv \<Longrightarrow> sv_inv (drain_notify ms r sv)" for ms r sv
    by (auto simp: drain_notify_def try_send_def intro!: sv_inv_same_context split: option.splits)
  then have "sv_inv sv \<Longrightarrow> sv_inv (snd (drain_sessions ms active notified sv))" for ms active notified sv
    by (induction ms active notified sv rule: drain_sessions.induct) auto
  then show "sv_inv sv \<Longrightarrow> sv_inv (snd (drain_pass notified sv))" by (simp add: drain_pass_def)
  have cancel: "sv_inv sv \<Longrightarrow> sv_inv (on_context r (\<lambda>ctx. ctx\<lparr>sc_cancelled := True\<rparr>) sv)" for r sv
    by (rule sv_inv_same_context) (auto simp: sv_inv_def sv_bounded_def)
  then have "sv_inv sv \<Longrightarrow> sv_inv (drain_cancel active sv)" for active sv
    by (induction active sv rule: drain_cancel.induct) auto
  then show "sv_inv sv \<Longrightarrow> sv_inv (drain_force sv)" by (simp add: drain_force_def)
qed

lemma accept_connection_inv: "sv_inv sv \<Longrightarrow> sv_inv (snd (accept_connection sv))"
  by (auto simp: accept_connection_def admit_def handshake_guard_new_def sv_inv_def sv_defs enter_handshakes_def
      record_saturation_def record_termination_def reject_count_def)

lemma quic_data_inv: "sv_inv sv \<Longrightarrow> sv_inv (snd (handle_quic_data_stream first stream now sv))"
  by (auto simp: handle_quic_data_stream_def accept_data_hello_inv split: sum.splits message.splits)

section \<open>The effect of one turn\<close>

text \<open>A turn leaves the session view alone, binds one service, or unbinds one.\<close>

datatype turn_effect =
    Untouched
  | Bound service_id effective_bind service_entry
  | Unbound service_id service_entry

fun effect_view :: "session_id \<Rightarrow> turn_effect \<Rightarrow> session_view \<Rightarrow> session_view" where
  "effect_view sid Untouched v = v"
| "effect_view sid (Bound i e entry) v = view_bind (sid, i, e) v"
| "effect_view sid (Unbound i entry) v = view_unbind sid i v"

fun effect_services :: "turn_effect \<Rightarrow> control_loop \<Rightarrow> (service_id, service_entry) hashmap \<times> rstr list" where
  "effect_services Untouched cl = (cl_services cl, cl_names cl)"
| "effect_services (Bound i e entry) cl =
     (hm_insert i entry (cl_services cl), set_insert (name_str (se_name entry)) (cl_names cl))"
| "effect_services (Unbound i entry) cl =
     (hm_remove i (cl_services cl), removeAll (name_str (se_name entry)) (cl_names cl))"

fun effect_allowed :: "nat \<Rightarrow> turn_effect \<Rightarrow> control_loop \<Rightarrow> bool" where
  "effect_allowed n Untouched cl = True"
| "effect_allowed n (Bound i e entry) cl =
     (hm_len (cl_services cl) < n \<and> hm_get (cl_services cl) i = None \<and>
      name_str (se_name entry) \<notin> set (cl_names cl))"
| "effect_allowed n (Unbound i entry) cl = (hm_get (cl_services cl) i = Some entry)"

definition turn_ok :: "nat \<Rightarrow> session_id \<Rightarrow> control_loop \<Rightarrow> server \<Rightarrow> control_loop \<Rightarrow> server \<Rightarrow> turn_effect \<Rightarrow> bool" where
  "turn_ok n sid cl sv cl' sv' x \<longleftrightarrow>
     (sv_inv sv \<longrightarrow> sv_inv sv') \<and> effect_allowed n x cl \<and> view sv' = effect_view sid x (view sv) \<and>
     (cl_services cl', cl_names cl') = effect_services x cl"

lemma view_push_bind: "view (on_counters enter_services (on_counters (push_bind b) sv)) = view_bind b (view sv)"
  by (simp add: view_def view_bind_def push_bind_def enter_services_def session_ids_def)

lemma view_retain_binds:
  "view (on_counters (\<lambda>c. c\<lparr>ct_services := ct_services c - 1\<rparr>)
     (on_counters (retain_binds (\<lambda>(s, j, _). s \<noteq> sid \<or> j \<noteq> i)) sv)) = view_unbind sid i (view sv)"
  by (simp add: view_def view_unbind_def retain_binds_def session_ids_def)

lemma serve_registration_turn:
  assumes "serve_registration pc os elapsed register sid policy cl sv w = (result, cl', sv', w')"
  shows "\<exists>x. turn_ok (max_services policy (sv_counters sv)) sid cl sv cl' sv' x"
proof (cases "admit_service os register policy (sv_counters sv) cl")
  case (Inl code)
  then have "cl' = cl" and "sv' = on_counters (if code = REGISTRATION_ERROR_ADMISSION then record_saturation else reject_count) sv"
    using assms by (auto simp: serve_registration_def Let_def split: prod.splits)
  then have "turn_ok (max_services policy (sv_counters sv)) sid cl sv cl' sv' Untouched"
    by (simp add: turn_ok_def view_on_counters)
  then show ?thesis ..
next
  case (Inr e)
  let ?i = "rs_service_id register" and ?entry = "\<lparr>se_name = rs_name register, se_cancelled = False\<rparr>"
  have "sv' = on_counters enter_services (on_counters (push_bind (sid, ?i, e)) sv)"
    and "(cl_services cl', cl_names cl') = effect_services (Bound ?i e ?entry) cl"
    using assms Inr by (auto simp: serve_registration_def Let_def split: prod.splits)
  moreover have "sv_inv sv \<longrightarrow> sv_inv (on_counters enter_services (on_counters (push_bind (sid, ?i, e)) sv))"
    by (simp add: sv_inv_same_gauges push_bind_def gauges_def enter_services_def)
  ultimately have "turn_ok (max_services policy (sv_counters sv)) sid cl sv cl' sv' (Bound ?i e ?entry)"
    using admit_service_Inr [OF Inr] by (simp add: turn_ok_def view_push_bind)
  then show ?thesis ..
qed

lemma serve_unregistration_turn:
  assumes "serve_unregistration i r sid cl sv = (cl', sv')"
  shows "\<exists>x. turn_ok n sid cl sv cl' sv' x"
proof (cases "hm_get (cl_services cl) i")
  case None
  then have "turn_ok n sid cl sv cl' sv' Untouched"
    using assms by (simp add: serve_unregistration_def turn_ok_def)
  then show ?thesis ..
next
  case (Some entry)
  let ?sv = "on_counters (\<lambda>c. c\<lparr>ct_services := ct_services c - 1\<rparr>)
      (on_counters (retain_binds (\<lambda>(s, j, _). s \<noteq> sid \<or> j \<noteq> i)) sv)"
  have sv': "sv' = remove_service_pending r i ?sv"
    and cl': "(cl_services cl', cl_names cl') = effect_services (Unbound i entry) cl"
    using assms Some by (auto simp: serve_unregistration_def)
  have inv: "sv_inv sv \<longrightarrow> sv_inv sv'"
    unfolding sv' by (intro impI remove_pending_inv) (simp add: sv_inv_same_gauges gauges_def retain_binds_def)
  have "view sv' = view_unbind sid i (view sv)"
    unfolding sv' by (simp only: view_remove_pending view_retain_binds)
  then have "turn_ok n sid cl sv cl' sv' (Unbound i entry)"
    unfolding turn_ok_def using inv cl' Some by simp
  then show ?thesis ..
qed

lemma turn_untouched:
  "(sv_inv sv \<Longrightarrow> sv_inv sv') \<Longrightarrow> view sv' = view sv \<Longrightarrow> cl_services cl' = cl_services cl \<Longrightarrow>
     cl_names cl' = cl_names cl \<Longrightarrow> \<exists>x. turn_ok n sid cl sv cl' sv' x"
  by (rule exI [of _ Untouched]) (simp add: turn_ok_def)

lemma turn_ok_reset [simp]: "turn_ok n sid (reset_idle now c cl) sv cl' sv' x = turn_ok n sid cl sv cl' sv' x"
  by (cases x) (simp_all add: turn_ok_def reset_idle_def)

lemma reset_idle_fields [simp]:
  "cl_services (reset_idle now c cl) = cl_services cl" "cl_names (reset_idle now c cl) = cl_names cl"
  by (simp_all add: reset_idle_def)

lemma control_incoming_turn:
  assumes "control_incoming env incoming r sid cl sv w = (exit, cl', sv', w')"
  shows "\<exists>x. turn_ok (max_services (ce_bind_policy env) (sv_counters sv)) sid cl sv cl' sv' x"
proof (cases incoming)
  case (Inl e)
  then show ?thesis using assms by (auto simp: control_incoming_def intro!: turn_untouched)
next
  case (Inr m)
  show ?thesis
  proof (cases m)
    case (RegisterService register)
    then show ?thesis
      using assms Inr by (auto simp: control_incoming_def Let_def split: prod.splits
          dest!: serve_registration_turn)
  next
    case (UnregisterService i)
    then show ?thesis
      using assms Inr by (auto simp: control_incoming_def Let_def split: prod.splits
          dest!: serve_unregistration_turn)
  qed (use assms Inr in \<open>auto simp: control_incoming_def Let_def view_simps take_pending_inv
        intro!: turn_untouched split: prod.splits\<close>)
qed

lemma sv_inv_queue:
  "sv_inv sv \<Longrightarrow> hm_get (sv_contexts sv) r = Some ctx \<Longrightarrow> sc_control_tx ctx = Some ch \<Longrightarrow>
     length (ch_queue ch) \<le> ch_capacity ch"
  by (simp add: sv_inv_def sv_bounded_def)

lemma control_outgoing_turn:
  assumes "control_outgoing env r cl sv w = Some (exit, cl', sv', w')"
  shows "\<exists>x. turn_ok n sid cl sv cl' sv' x"
proof -
  obtain opens m later where q: "Option.bind (hm_get (sv_contexts sv) r) sc_control_tx = Some opens"
    "ch_queue opens = m # later"
    using assms by (auto simp: control_outgoing_def split: option.splits list.splits)
  let ?sv = "on_context r (\<lambda>ctx. ctx\<lparr>sc_control_tx := Some (opens\<lparr>ch_queue := later\<rparr>)\<rparr>) sv"
  have "sv' = ?sv" "cl_services cl' = cl_services cl" "cl_names cl' = cl_names cl"
    using assms q by (auto simp: control_outgoing_def Let_def split: sum.splits prod.splits)
  moreover have "sv_inv ?sv" if "sv_inv sv"
    using q that by (intro sv_inv_same_context) (auto dest: sv_inv_queue split: Option.bind_splits)
  ultimately show ?thesis by (intro turn_untouched) (simp_all add: view_on_context)
qed

lemma control_turn:
  assumes "control_turn_step env turn r sid cl sv w = Some (exit, cl', sv', w')"
  shows "\<exists>x. turn_ok (max_services (ce_bind_policy env) (sv_counters sv)) sid cl sv cl' sv' x"
proof (cases turn)
  case (TurnIncoming incoming)
  then show ?thesis using assms by (auto simp: control_turn_step_def dest: control_incoming_turn)
next
  case TurnOutgoing
  then show ?thesis using assms by (auto simp: control_turn_step_def dest: control_outgoing_turn)
qed (use assms in \<open>auto simp: control_turn_step_def view_on_counters sv_inv_same_gauges
      intro!: turn_untouched split: option.splits if_splits\<close>)

end
