(* ===== verification/Server_Correct.thy ===== *)
theory Server_Correct
  imports Server_Turns
begin

text \<open>
  Correctness of the server machine. Every step keeps the invariant and implements steps of the
  abstract registry, so both hold along every run from a fresh server; the properties read off what
  a snapshot reports, what a data stream may reach, and what the drain misses.
\<close>


section \<open>Opening and closing Sessions\<close>

lemma view_guard_drop:
  assumes "hm_get (session_ids sv) r = Some sid"
  shows "view (session_guard_drop r sv) = view_close r sid (view sv)"
proof -
  obtain ctx where ctx: "hm_get (sv_contexts sv) r = Some ctx" "sc_id ctx = sid"
    using assms by (auto simp: session_ids_get)
  have "session_ids (session_guard_drop r sv) = session_ids sv"
    using ctx(1) by (auto simp: session_guard_drop_def session_ids_def Let_def hm_modify_def)
  then show ?thesis
    using ctx by (simp add: view_def view_close_def session_guard_drop_def Let_def retain_binds_def)
qed

lemma session_ids_same [simp]:
  "session_ids (on_counters f sv) = session_ids sv" "session_ids (sv\<lparr>sv_registry := reg\<rparr>) = session_ids sv"
  "session_ids (sv\<lparr>sv_guards := gs\<rparr>) = session_ids sv"
  by (simp_all add: session_ids_def)

lemma view_ids: "vw_ids (view sv) = session_ids sv"
  by (simp add: view_def)

lemma view_control_end:
  assumes "hm_get (session_ids sv) r = Some sid"
  shows "view (snd (control_break r cl sv)) = view_close r sid (view sv)"
    "view (snd (control_return r e sv)) = view_close r sid (view sv)"
proof -
  have close: "view (on_context r close_receiver sv') = view sv'" for sv'
    by (rule view_on_context) (simp add: close_receiver_def)
  have drop: "view (session_guard_drop r sv') = view_close r sid (view sv)" if "view sv' = view sv" for sv'
  proof -
    have "session_ids sv' = session_ids sv" using that by (metis view_ids)
    with assms show ?thesis using view_guard_drop [of sv' r sid] that by simp
  qed
  show "view (snd (control_break r cl sv)) = view_close r sid (view sv)"
    unfolding control_break_def snd_conv by (rule drop) (simp only: close view_simps)
  show "view (snd (control_return r e sv)) = view_close r sid (view sv)"
    unfolding control_return_def snd_conv by (rule drop) (simp only: close view_simps)
qed

lemma hm_retain_True: "hm_inv m \<Longrightarrow> (\<And>k v. hm_get m k = Some v \<Longrightarrow> P k v) \<Longrightarrow> hm_retain P m = m"
  by (auto simp: hm_retain_def hm_get_in_set intro!: filter_True)

lemma registry_live:
  assumes "sessions_ok (view sv)"
  shows "hm_retain (\<lambda>_ weak. upgrade sv weak \<noteq> None) (sv_registry sv) = sv_registry sv"
proof (rule hm_retain_True)
  show "hm_inv (sv_registry sv)" using assms by (simp add: sessions_ok_def registry_ok_def view_def)
  fix sid r assume "hm_get (sv_registry sv) sid = Some r"
  then have "hm_get (session_ids sv) r = Some sid"
    using assms registry_ok_lookup [of "view sv" sid r] by (simp add: sessions_ok_def view_def)
  then show "upgrade sv r \<noteq> None" by (auto simp: upgrade_def session_ids_get)
qed

lemma guards_registry: "registry_ok v \<Longrightarrow> length (vw_guards v) = hm_len (vw_registry v)"
proof -
  assume ok: "registry_ok v"
  have "bij_betw (\<lambda>r. the (hm_get (vw_ids v) r)) (set (vw_guards v)) (dom (hm_get (vw_registry v)))"
  proof (rule bij_betwI')
    fix r s assume "r \<in> set (vw_guards v)" "s \<in> set (vw_guards v)"
    then show "the (hm_get (vw_ids v) r) = the (hm_get (vw_ids v) s) \<longleftrightarrow> r = s"
      using ok unfolding registry_ok_def by (metis option.exhaust_sel)
  next
    fix r assume "r \<in> set (vw_guards v)"
    then show "the (hm_get (vw_ids v) r) \<in> dom (hm_get (vw_registry v))"
      using ok registry_ok_lookup [OF ok] by (auto simp: registry_ok_def)
  next
    fix sid assume "sid \<in> dom (hm_get (vw_registry v))"
    then obtain r where "hm_get (vw_registry v) sid = Some r" by auto
    then show "\<exists>r \<in> set (vw_guards v). sid = the (hm_get (vw_ids v) r)"
      using registry_ok_lookup [OF ok] by force
  qed
  then have "card (set (vw_guards v)) = card (dom (hm_get (vw_registry v)))" by (rule bij_betw_same_card)
  then show ?thesis
    using ok hm.len_card [of "vw_registry v"] by (simp add: registry_ok_def distinct_card)
qed

lemma register_view:
  assumes ok: "sessions_ok (view sv)" and r: "hm_get (sv_contexts sv) r = None"
    and sv1_def: "sv1 = sv\<lparr>sv_contexts := hm_insert r (session_context_new sid p c) (sv_contexts sv)\<rparr>"
  shows "register_context r sid n sv1 =
    (if n \<le> length (sv_guards sv) then (Err ResourceExhausted, sv1)
     else (Ok (), sv1\<lparr>sv_registry := hm_insert sid r (sv_registry sv)\<rparr>))"
proof -
  have "upgrade sv1 weak \<noteq> None" if "upgrade sv weak \<noteq> None" for weak
    using that by (auto simp: upgrade_def sv1_def)
  moreover have "\<forall>(k, weak) \<in> set (sv_registry sv). upgrade sv weak \<noteq> None"
    using registry_live [OF ok] unfolding hm_retain_def by (auto simp: filter_id_conv)
  ultimately have "hm_retain (\<lambda>_ weak. upgrade sv1 weak \<noteq> None) (sv_registry sv) = sv_registry sv"
    unfolding hm_retain_def by (intro filter_True) auto
  moreover have "hm_len (sv_registry sv) = length (sv_guards sv)"
    using guards_registry [of "view sv"] ok by (simp add: sessions_ok_def view_def)
  ultimately show ?thesis by (simp add: register_context_def sv1_def)
qed

lemma view_insert_context:
  assumes "hm_get (sv_contexts sv) r = None"
  shows "view (sv\<lparr>sv_contexts := hm_insert r ctx (sv_contexts sv)\<rparr>) =
    (view sv)\<lparr>vw_ids := hm_insert r (sc_id ctx) (vw_ids (view sv))\<rparr>"
  by (simp add: view_def session_ids_insert) (simp add: session_ids_def)

lemma view_drop_inserted:
  assumes "hm_get (sv_contexts sv) r = None"
  shows "view (context_drop r (on_counters record_saturation
    (sv\<lparr>sv_contexts := hm_insert r ctx (sv_contexts sv)\<rparr>))) = view sv"
proof -
  have "hm_remove r (hm_insert r ctx (sv_contexts sv)) = sv_contexts sv"
    using assms by (simp add: hm_insert_fresh) (simp add: hm_remove_def hm_remove_absent [unfolded hm_remove_def])
  then show ?thesis
    using assms by (simp add: context_drop_def view_def session_ids_def record_saturation_def
        record_termination_def reject_count_def)
qed

text \<open>Establishing a Session leaves the view alone or opens the Session.\<close>

definition opens :: "handshake_env \<Rightarrow> ctx_ref \<Rightarrow> session_view \<Rightarrow> session_view \<Rightarrow> bool" where
  "opens env r v v' \<longleftrightarrow>
     (\<exists>sid. he_session_id env = Some sid \<and> length (vw_guards v) < rl_sessions (rp_limits (vw_policy v)) \<and>
        v' = view_open r sid v)"

lemma establish_view:
  assumes ok: "sessions_ok (view sv)" and fresh: "fresh_session env r sv"
    and est: "establish env r sv = (outcome, sv')"
  shows "if is_ok outcome then opens env r (view sv) (view sv') else view sv' = view sv"
proof (cases "he_session_id env = None \<or> he_cancelled env")
  case True
  then show ?thesis
    using est by (cases "he_session_id env") (auto simp: establish_def Let_def view_simps)
next
  case False
  then obtain sid where sid: "he_session_id env = Some sid" "\<not> he_cancelled env" by auto
  let ?sv = "handshake_guard_drop sv"
  let ?ctx = "session_context_new sid (he_principal env) (sv_counters ?sv)"
  let ?sv1 = "?sv\<lparr>sv_contexts := hm_insert r ?ctx (sv_contexts ?sv)\<rparr>"
  let ?n = "rl_sessions (rp_limits (vw_policy (view sv)))"
  have v: "view ?sv = view sv" by (simp add: view_simps)
  have r: "hm_get (sv_contexts ?sv) r = None"
    using fresh by (simp add: fresh_session_def handshake_guard_drop_def)
  have reg: "register_context r sid ?n ?sv1 =
    (if ?n \<le> length (vw_guards (view sv)) then (Err ResourceExhausted, ?sv1)
     else (Ok (), ?sv1\<lparr>sv_registry := hm_insert sid r (sv_registry ?sv)\<rparr>))"
    using register_view [where sid = sid and p = "he_principal env" and c = "sv_counters ?sv" and n = ?n, OF _ r refl] ok
    by (simp add: view_simps) (simp add: view_def handshake_guard_drop_def)
  have n: "rl_sessions (rp_limits (ct_policy (sv_counters ?sv1))) = ?n"
    by (simp add: view_def handshake_guard_drop_def)
  have v2: "view (session_guard_new r (?sv1\<lparr>sv_registry := hm_insert sid r (sv_registry ?sv)\<rparr>)) =
      view_open r sid (view sv)"
    using view_insert_context [OF r, of ?ctx] v
    by (simp add: view_def view_open_def session_guard_new_def enter_sessions_def session_ids_def session_context_new_def)
  show ?thesis
    using est sid reg n view_drop_inserted [OF r, of ?ctx] v v2
    by (cases "?n \<le> length (vw_guards (view sv))") (auto simp: establish_def Let_def opens_def)
qed


section \<open>The registry of the view\<close>

definition reg_view :: "session_view \<Rightarrow> registry_spec" where
  "reg_view v sid =
     (case hm_get (vw_registry v) sid of None \<Rightarrow> None | Some _ \<Rightarrow> Some (bind_of (vw_binds v) sid))"

lemma registry_of_view: "registry_of sv = reg_view (view sv)"
  by (simp add: fun_eq_iff registry_of_def reg_view_def view_def split: option.split)

lemma reg_view_unbound:
  "sessions_ok v \<Longrightarrow> hm_get (vw_registry v) sid = None \<Longrightarrow> bind_of (vw_binds v) sid = Map.empty"
  by (auto simp: fun_eq_iff sessions_ok_def binds_ok_def bind_of_None bind_key_def)

lemma fresh_unregistered:
  "sessions_ok v \<Longrightarrow> (\<And>s. hm_get (vw_ids v) s \<noteq> Some sid) \<Longrightarrow> hm_get (vw_registry v) sid = None"
  using registry_ok_lookup [of v sid] by (cases "hm_get (vw_registry v) sid") (auto simp: sessions_ok_def)

lemma reg_view_open:
  assumes "sessions_ok v" and "\<And>s. hm_get (vw_ids v) s \<noteq> Some sid"
  shows "reg_view (view_open r sid v) = (reg_view v)(sid \<mapsto> Map.empty)" "sid \<notin> dom (reg_view v)"
  using reg_view_unbound [OF assms(1) fresh_unregistered [OF assms]] fresh_unregistered [OF assms]
  by (auto simp: fun_eq_iff reg_view_def view_open_def split: option.splits)

lemma reg_view_close:
  assumes "sessions_ok v"
  shows "reg_view (view_close r sid v) = (reg_view v)(sid := None)"
proof -
  have "distinct (map bind_key (vw_binds v))" using assms by (simp add: sessions_ok_def binds_ok_def)
  then show ?thesis
    by (auto simp: fun_eq_iff reg_view_def view_close_def Let_def bind_of_filter split: option.splits)
qed

lemma dom_reg_view: "dom (reg_view v) = dom (hm_get (vw_registry v))"
  by (auto simp: reg_view_def dom_def split: option.splits)

lemma reg_view_card:
  assumes "sessions_ok v"
  shows "card (dom (reg_view v)) = length (vw_guards v)"
proof -
  have reg: "registry_ok v" using assms by (simp add: sessions_ok_def)
  then have "hm_inv (vw_registry v)" by (simp add: registry_ok_def)
  then show ?thesis using guards_registry [OF reg] hm.len_card [of "vw_registry v"] by (simp add: dom_reg_view)
qed

lemma reg_view_bound: "hm_get (vw_registry v) sid = Some r \<Longrightarrow> reg_view v sid = Some (bind_of (vw_binds v) sid)"
  by (simp add: reg_view_def)

lemma reg_view_bind:
  assumes "hm_get (vw_registry v) sid = Some r" and "bind_of (vw_binds v) sid i = None"
  shows "reg_view (view_bind (sid, i, e) v) = (reg_view v)(sid \<mapsto> (bind_of (vw_binds v) sid)(i \<mapsto> e))"
  using assms by (auto simp: fun_eq_iff reg_view_def view_bind_def bind_of_append split: option.splits)

lemma reg_view_unbind:
  assumes "sessions_ok v" and "hm_get (vw_registry v) sid = Some r"
  shows "reg_view (view_unbind sid i v) = (reg_view v)(sid \<mapsto> (bind_of (vw_binds v) sid)(i := None))"
proof -
  have "distinct (map bind_key (vw_binds v))" using assms by (simp add: sessions_ok_def binds_ok_def)
  then show ?thesis
    using assms(2) by (auto simp: fun_eq_iff reg_view_def view_unbind_def bind_of_filter split: option.splits)
qed

section \<open>Every step keeps the invariant and implements a registry step\<close>

text \<open>The two ceilings of the abstract registry.\<close>

definition view_step :: "bind_policy \<Rightarrow> session_view \<Rightarrow> session_view \<Rightarrow> bool" where
  "view_step policy v v' \<longleftrightarrow> vw_policy v' = vw_policy v \<and>
     (registry_step (rl_sessions (rp_limits (vw_policy v))) (view_max_services policy v))\<^sup>*\<^sup>*
       (reg_view v) (reg_view v')"

lemma view_step_refl: "view_step policy v v"
  by (simp add: view_step_def)

lemma view_step_trans: "view_step policy u v \<Longrightarrow> view_step policy v w \<Longrightarrow> view_step policy u w"
  by (auto simp: view_step_def view_max_services_def)

lemma loop_ok_cong:
  "cl_services cl' = cl_services cl \<Longrightarrow> cl_names cl' = cl_names cl \<Longrightarrow> loop_ok n binds sid cl' = loop_ok n binds sid cl"
  by (simp add: loop_ok_def)

lemma loop_ok_card:
  assumes "loop_ok n binds sid cl"
  shows "card (dom (bind_of binds sid)) = hm_len (cl_services cl)"
proof -
  have "dom (bind_of binds sid) = dom (hm_get (cl_services cl))"
    using loop_ok_binds [OF assms] by (auto simp: dom_def)
  then show ?thesis using assms hm.len_card [of "cl_services cl"] by (simp add: loop_ok_def)
qed

lemma loops_ok_guard: "loops_ok policy loops v \<Longrightarrow> hm_get loops r = Some cl \<Longrightarrow> r \<in> set (vw_guards v)"
  unfolding loops_ok_def by (metis option.distinct(1))

lemma turn_view_step:
  assumes ok: "sessions_ok v" "loops_ok policy loops v" and cl: "hm_get loops r = Some cl"
    and sid: "hm_get (vw_ids v) r = Some sid"
    and allowed: "effect_allowed (view_max_services policy v) x cl"
    and new: "(cl_services cl', cl_names cl') = effect_services x cl"
  shows "sessions_ok (effect_view sid x v) \<and> loops_ok policy (hm_insert r cl' loops) (effect_view sid x v) \<and>
    view_step policy v (effect_view sid x v)"
proof -
  have r: "r \<in> set (vw_guards v)" using ok(2) cl by (rule loops_ok_guard)
  have reg: "hm_get (vw_registry v) sid = Some r" using ok(1) r sid by (simp add: sessions_ok_def registry_ok_lookup)
  have loop: "loop_ok (view_max_services policy v) (vw_binds v) sid cl"
    using ok(2) cl sid by (simp add: loops_ok_def)
  have d: "distinct (map bind_key (vw_binds v))" using ok(1) by (simp add: sessions_ok_def binds_ok_def)
  note update = loops_ok_update [OF ok(2,1) r sid]
  show ?thesis
  proof (cases x)
    case Untouched
    then have "loop_ok (view_max_services policy v) (vw_binds v) sid cl'"
      using loop new loop_ok_cong [of cl' cl] by simp
    then show ?thesis using Untouched ok(1) update [of v cl'] by (simp add: view_step_refl)
  next
    case (Bound i e entry)
    have i: "bind_of (vw_binds v) sid i = None" using Bound allowed loop_ok_binds [OF loop] by simp
    have "loop_ok (view_max_services policy v) (vw_binds v @ [(sid, i, e)]) sid cl'"
      using loop_ok_register [OF loop, of i entry e] Bound allowed new
        loop_ok_cong [of cl' "cl\<lparr>cl_names := set_insert (name_str (se_name entry)) (cl_names cl),
          cl_services := hm_insert i entry (cl_services cl)\<rparr>"] by simp
    then have "loops_ok policy (hm_insert r cl' loops) (view_bind (sid, i, e) v)"
      using update [of "view_bind (sid, i, e) v" cl']
      by (simp add: view_bind_def fun_eq_iff bind_of_append split: option.split)
    moreover have "view_step policy v (view_bind (sid, i, e) v)"
      unfolding view_step_def reg_view_bind [OF reg i]
      using Bound allowed i loop_ok_card [OF loop]
      by (auto simp: view_bind_def intro!: r_into_rtranclp registry_step.bind_service [where s = "reg_view v" and sid = sid, OF reg_view_bound [OF reg]])
    ultimately show ?thesis using Bound sessions_ok_bind [OF ok(1) r sid i] by simp
  next
    case (Unbound i entry)
    obtain e where i: "bind_of (vw_binds v) sid i = Some e"
      using Unbound allowed loop_ok_binds [OF loop, of i] by auto
    have "loop_ok (view_max_services policy v) (filter (\<lambda>(s, j, _). s \<noteq> sid \<or> j \<noteq> i) (vw_binds v)) sid cl'"
      using loop_ok_unregister [OF loop d, of i entry] Unbound allowed new
        loop_ok_cong [of cl' "cl\<lparr>cl_services := hm_remove i (cl_services cl),
          cl_names := removeAll (name_str (se_name entry)) (cl_names cl)\<rparr>"] by simp
    then have "loops_ok policy (hm_insert r cl' loops) (view_unbind sid i v)"
      using update [of "view_unbind sid i v" cl']
      by (simp add: view_unbind_def fun_eq_iff bind_of_filter [OF d] split: option.split)
    moreover have "view_step policy v (view_unbind sid i v)"
      unfolding view_step_def reg_view_unbind [OF ok(1) reg]
      using i by (auto simp: view_unbind_def intro!: r_into_rtranclp registry_step.unbind_service [where s = "reg_view v" and sid = sid, OF reg_view_bound [OF reg]])
    ultimately show ?thesis using Unbound sessions_ok_unbind [OF ok(1) i] by simp
  qed
qed

lemma close_view_step:
  assumes ok: "sessions_ok v" "loops_ok policy loops v" and cl: "hm_get loops r = Some cl"
    and sid: "hm_get (vw_ids v) r = Some sid"
  shows "sessions_ok (view_close r sid v) \<and> loops_ok policy (hm_remove r loops) (view_close r sid v) \<and>
    view_step policy v (view_close r sid v)"
proof -
  have r: "r \<in> set (vw_guards v)" using ok(2) cl by (rule loops_ok_guard)
  have "hm_get (vw_registry v) sid = Some r" using ok(1) r sid by (simp add: sessions_ok_def registry_ok_lookup)
  then have "sid \<in> dom (reg_view v)" by (auto simp: dom_reg_view)
  then have "view_step policy v (view_close r sid v)"
    unfolding view_step_def reg_view_close [OF ok(1)]
    by (auto simp: view_close_def Let_def intro!: r_into_rtranclp registry_step.close_session)
  then show ?thesis using sessions_ok_close [OF ok(1) r sid] loops_ok_close [OF ok(2,1) r sid] by simp
qed

lemma open_view_step:
  assumes ok: "sessions_ok v" "loops_ok policy loops v" and fresh: "hm_get (vw_ids v) r = None"
    "\<And>s. hm_get (vw_ids v) s \<noteq> Some sid"
    and room: "length (vw_guards v) < rl_sessions (rp_limits (vw_policy v))"
  shows "sessions_ok (view_open r sid v) \<and> view_step policy v (view_open r sid v) \<and>
    loops_ok policy (hm_insert r (control_loop_new caps now c) loops) (view_open r sid v)"
proof -
  note reg = reg_view_open [OF ok(1) fresh(2)]
  have "card (dom (reg_view v)) < rl_sessions (rp_limits (vw_policy v))"
    using room by (simp add: reg_view_card [OF ok(1)])
  then have "view_step policy v (view_open r sid v)"
    unfolding view_step_def reg(1) using reg(2)
    by (auto simp: view_open_def intro!: r_into_rtranclp registry_step.open_session)
  then show ?thesis using sessions_ok_open [OF ok(1) fresh room] loops_ok_open [OF ok(2,1) fresh] by simp
qed

lemma opening_ok_other: "opening_ok loops opening \<Longrightarrow> r \<notin> set opening \<Longrightarrow> opening_ok (hm_insert r cl loops) opening"
  by (auto simp: opening_ok_def)

lemma opening_ok_close: "opening_ok loops opening \<Longrightarrow> opening_ok (hm_remove r loops) (removeAll r opening)"
  by (auto simp: opening_ok_def)

section \<open>Steps of the machine\<close>

definition good_step :: "server_system \<Rightarrow> server_system \<Rightarrow> bool" where
  "good_step sy sy' \<longleftrightarrow> system_inv sy' \<and> sy_policy sy' = sy_policy sy \<and>
     view_step (sy_policy sy) (view (sy_server sy)) (view (sy_server sy'))"

lemma good_stepI:
  "sv_inv (sy_server sy') \<Longrightarrow> sessions_ok (view (sy_server sy')) \<Longrightarrow>
   loops_ok (sy_policy sy) (sy_loops sy') (view (sy_server sy')) \<Longrightarrow>
   opening_ok (sy_loops sy') (sy_opening sy') \<Longrightarrow> sy_policy sy' = sy_policy sy \<Longrightarrow>
   view_step (sy_policy sy) (view (sy_server sy)) (view (sy_server sy')) \<Longrightarrow> good_step sy sy'"
  by (simp add: good_step_def system_inv_def)

text \<open>Most events change nothing that Sessions are about.\<close>

lemma good_on_server:
  assumes "system_inv sy" and "sv_inv (f (sy_server sy))" and "view (f (sy_server sy)) = view (sy_server sy)"
  shows "good_step sy (on_server f sy)"
  using assms by (simp add: good_step_def system_inv_def on_server_def view_step_refl)

lemma reg_view_ids: "reg_view (v\<lparr>vw_ids := m\<rparr>) = reg_view v"
  by (simp add: fun_eq_iff reg_view_def split: option.split)

lemma good_context_drop:
  assumes inv: "system_inv sy" and r: "held r (sy_server sy) = 0" "r \<notin> set (sv_guards (sy_server sy))"
  shows "good_step sy (on_server (context_drop r) sy)"
proof -
  let ?sv = "sy_server sy" and ?sv' = "context_drop r (sy_server sy)"
  have "session_ids (sv\<lparr>sv_contexts := hm_remove r m\<rparr>) = hm_remove r (session_ids (sv\<lparr>sv_contexts := m\<rparr>))" for sv m
    by (induction m) (auto simp: session_ids_def hm_remove_Cons hm_remove_absent)
  from this [of "sv_contexts ?sv" ?sv] have ids: "session_ids ?sv' = hm_remove r (session_ids ?sv)"
    by (auto simp: context_drop_def session_ids_get hm_remove_absent split: option.split)
  then have v: "view ?sv' = (view ?sv)\<lparr>vw_ids := hm_remove r (vw_ids (view ?sv))\<rparr>"
    by (simp add: view_def context_drop_def split: option.split)
  have g: "r \<notin> set (vw_guards (view ?sv))" using r(2) by (simp add: view_def)
  have "registry_ok (view ?sv')"
    using inv g unfolding v system_inv_def sessions_ok_def registry_ok_def by (auto split: if_splits)
  then have "sessions_ok (view ?sv')"
    using inv unfolding v system_inv_def sessions_ok_def binds_ok_def by simp
  moreover have "loops_ok (sy_policy sy) (sy_loops sy) (view ?sv')"
  proof (rule loops_ok_same_view)
    show "loops_ok (sy_policy sy) (sy_loops sy) (view ?sv)" using inv by (simp add: system_inv_def)
  qed (use g v in auto)
  moreover have "view_step (sy_policy sy) (view ?sv) (view ?sv')"
    unfolding v view_step_def by (simp add: reg_view_ids)
  ultimately show ?thesis
    using inv context_drop_inv [OF _ r(1)] by (intro good_stepI) (simp_all add: on_server_def system_inv_def)
qed

lemma good_end_loop:
  assumes inv: "system_inv sy" and cl: "hm_get (sy_loops sy) r = Some cl"
    and sid: "hm_get (session_ids (sy_server sy)) r = Some sid"
    and ended: "sv_inv (snd ended)" "view (snd ended) = view_close r sid (view (sy_server sy))"
  shows "good_step sy (end_loop r ended sy)"
  using inv ended close_view_step [of "view (sy_server sy)" "sy_policy sy" "sy_loops sy" r cl sid] cl sid
  by (intro good_stepI)
    (simp_all add: end_loop_def case_prod_beta finish_connection_inv view_simps system_inv_def view_ids opening_ok_close)

lemma good_step_trans: "good_step sy sy' \<Longrightarrow> good_step sy' sy'' \<Longrightarrow> good_step sy sy''"
  by (auto simp: good_step_def intro: view_step_trans)

lemma good_turn:
  assumes inv: "system_inv sy" and step: "step_turn r env turn w sy = Some sy'"
  shows "good_step sy sy'"
proof -
  let ?v = "view (sy_server sy)" and ?env = "env\<lparr>ce_bind_policy := sy_policy sy\<rparr>"
  obtain cl sid exit cl' sv' w' where cl: "hm_get (sy_loops sy) r = Some cl"
    and sid: "hm_get (session_ids (sy_server sy)) r = Some sid"
    and turn: "control_turn_step ?env turn r sid cl (sy_server sy) w = Some (exit, cl', sv', w')"
    using step by (auto simp: step_turn_def split: if_splits option.splits)
  let ?mid = "sy\<lparr>sy_server := sv', sy_loops := hm_insert r cl' (sy_loops sy)\<rparr>"
  have sy': "sy' = (case exit of LoopContinue \<Rightarrow> ?mid | LoopBreak \<Rightarrow> ?mid\<lparr>sy_draining := r # sy_draining sy\<rparr>
      | LoopReturn e \<Rightarrow> end_loop r (control_return r e sv') ?mid)"
    using step cl sid turn by (simp add: step_turn_def Let_def split: if_splits)
  obtain x where x: "turn_ok (view_max_services (sy_policy sy) ?v) sid cl (sy_server sy) cl' sv' x"
    using control_turn [OF turn] by (auto simp: max_services_def view_max_services_def view_def)
  have "sessions_ok (effect_view sid x ?v) \<and> loops_ok (sy_policy sy) (hm_insert r cl' (sy_loops sy)) (effect_view sid x ?v) \<and>
      view_step (sy_policy sy) ?v (effect_view sid x ?v)"
    using inv x cl sid by (intro turn_view_step) (auto simp: system_inv_def turn_ok_def view_ids)
  moreover have sv': "view sv' = effect_view sid x ?v" "sv_inv sv'"
    using x inv by (simp_all add: turn_ok_def system_inv_def)
  moreover have "r \<notin> set (sy_opening sy)" using step by (auto simp: step_turn_def split: if_splits)
  then have "opening_ok (hm_insert r cl' (sy_loops sy)) (sy_opening sy)"
    using inv by (intro opening_ok_other) (simp_all add: system_inv_def)
  ultimately have mid: "good_step sy ?mid" by (intro good_stepI) simp_all
  show ?thesis
  proof (cases exit)
    case (LoopReturn e)
    have "vw_ids (effect_view sid x ?v) = vw_ids ?v" by (cases x) (simp_all add: view_bind_def view_unbind_def)
    then have ids: "hm_get (session_ids sv') r = Some sid" using sid sv'(1) by (metis view_ids)
    have "good_step ?mid (end_loop r (control_return r e sv') ?mid)"
      using mid ids view_control_end(2) [OF ids] control_end_inv(2) [OF sv'(2)]
      by (intro good_end_loop [where cl = cl' and sid = sid]) (simp_all add: good_step_def)
    with mid LoopReturn sy' show ?thesis using good_step_trans by simp
  qed (use mid sy' in \<open>simp_all add: good_step_def system_inv_def\<close>)
qed

lemma good_teardown:
  assumes inv: "system_inv sy" and step: "step_teardown r sy = Some sy'"
  shows "good_step sy sy'"
proof -
  obtain cl where cl: "hm_get (sy_loops sy) r = Some cl"
    and sy': "sy' = end_loop r (control_break r cl (sy_server sy)) sy"
    using step by (auto simp: step_teardown_def split: option.splits if_splits)
  have "r \<in> set (vw_guards (view (sy_server sy)))"
    using inv cl by (intro loops_ok_guard [of "sy_policy sy" "sy_loops sy"]) (simp_all add: system_inv_def)
  then obtain sid where sid: "hm_get (session_ids (sy_server sy)) r = Some sid"
    using inv by (auto simp: system_inv_def sessions_ok_def registry_ok_def view_ids)
  then show ?thesis
    unfolding sy' using inv cl view_control_end(1) [OF sid] control_end_inv(1)
    by (intro good_end_loop) (simp_all add: system_inv_def)
qed

text \<open>The first message: a data stream, a refused peer, or a new Session.\<close>

lemma authenticate_counters:
  "authenticate env version offered rd w l c = (result, rd', w', l', c') \<Longrightarrow>
     c' = c \<or> (\<exists>n. c' = c\<lparr>ct_rejected := n\<rparr>)"
  by (auto simp: authenticate_def Let_def reject_authentication_def reject_count_def
      split: if_splits sum.splits prod.splits message.splits)

lemma establish_inv:
  assumes inv: "sv_inv sv" "0 < sv_handshakes sv" and fresh: "fresh_session env r sv"
  shows "sv_inv (snd (establish env r sv))"
proof (cases "he_session_id env = None \<or> he_cancelled env")
  case True
  then show ?thesis
    using inv by (cases "he_session_id env") (auto simp: establish_def Let_def handshake_guard_inv)
next
  case False
  then obtain sid where sid: "he_session_id env = Some sid" "\<not> he_cancelled env" by auto
  let ?sv = "handshake_guard_drop sv"
  let ?ctx = "session_context_new sid (he_principal env) (sv_counters ?sv)"
  let ?sv1 = "?sv\<lparr>sv_contexts := hm_insert r ?ctx (sv_contexts ?sv)\<rparr>"
  let ?n = "rl_sessions (rp_limits (ct_policy (sv_counters ?sv1)))"
  have r: "hm_get (sv_contexts ?sv) r = None"
    using fresh by (simp add: fresh_session_def handshake_guard_drop_def)
  have inv0: "sv_inv ?sv" using inv by (rule handshake_guard_inv)
  have inv1: "sv_inv ?sv1" using context_insert_inv [OF inv0 r] .
  have inv2: "sv_inv (snd (register_context r sid ?n ?sv1))" using register_context_inv [OF inv1] .
  have "held r ?sv = 0" using inv0 r by (simp add: sv_inv_def sv_permits_def)
  then have held: "held r (on_counters record_saturation (snd (register_context r sid ?n ?sv1))) = 0"
    by (simp add: held_def register_context_def Let_def)
  show ?thesis
    using sid inv2 held
    by (auto simp: establish_def Let_def context_drop_inv session_guard_inv split: prod.splits sum.splits)
qed

lemma prologue_step:
  assumes inv: "sv_inv sv" "0 < sv_handshakes sv" and ok: "sessions_ok (view sv)" and fresh: "fresh_session env r sv"
    and pro: "serve_control_prologue env version offered r rd w l sv = (outcome, rd', w', l', sv')"
  shows "sv_inv sv' \<and> (if is_ok outcome then opens env r (view sv) (view sv') else view sv' = view sv)"
proof -
  obtain result rd1 w1 l1 c1 where auth: "authenticate env version offered rd w l (sv_counters sv) = (result, rd1, w1, l1, c1)"
    by (metis prod_cases5)
  let ?sv = "sv\<lparr>sv_counters := c1\<rparr>"
  have c1: "gauges c1 = gauges (sv_counters sv)" "session_counts c1 = session_counts (sv_counters sv)"
    using authenticate_counters [OF auth] by (auto simp: gauges_def session_counts_def)
  have sv: "?sv = on_counters (\<lambda>_. c1) sv" by (simp add: on_counters_def)
  have inv': "sv_inv ?sv" "0 < sv_handshakes ?sv" and v: "view ?sv = view sv" and fresh': "fresh_session env r ?sv"
    using inv c1 fresh by (simp_all add: sv sv_inv_same_gauges view_on_counters fresh_session_def split: option.splits)
  show ?thesis
  proof (cases result)
    case (Inl e)
    then have "sv' = handshake_guard_drop ?sv" "outcome = Err e"
      using pro auth by (simp_all add: serve_control_prologue_def Let_def)
    then show ?thesis using handshake_guard_inv [OF inv'] v by (simp add: view_simps)
  next
    case (Inr negotiated)
    obtain out sv2 where est: "establish env r ?sv = (out, sv2)" by (cases "establish env r ?sv")
    then have sv2: "sv' = sv2" "is_ok outcome = is_ok out"
      using pro auth Inr by (auto simp: serve_control_prologue_def Let_def split: sum.splits)
    have "sv_inv sv2" using establish_inv [OF inv' fresh'] est by simp
    then show ?thesis using establish_view [OF _ fresh' est] ok sv2 unfolding v by simp
  qed
qed

lemma accept_data_hello_handshakes [simp]:
  "sv_handshakes (snd (accept_data_hello stream hello p now sv)) = sv_handshakes sv"
  by (auto simp: accept_data_hello_def take_pending_def deliver_def split: option.splits)

lemma good_first:
  assumes inv: "system_inv sy" and hs: "0 < sv_handshakes (sy_server sy)" and fresh: "fresh_session env r (sy_server sy)"
  shows "good_step sy (step_first env stream r first rd w sy)"
proof -
  let ?sv = "sy_server sy"
  have parts: "sv_inv ?sv" "sessions_ok (view ?sv)" "loops_ok (sy_policy sy) (sy_loops sy) (view ?sv)"
      "opening_ok (sy_loops sy) (sy_opening sy)"
    using inv by (simp_all add: system_inv_def)
  have plain: "good_step sy (sy\<lparr>sy_server := finish_connection result (handshake_guard_drop sv)\<rparr>)"
    if "sv_inv sv" "view sv = view ?sv" "sv_handshakes sv = sv_handshakes ?sv" for result sv
    using that parts hs by (intro good_stepI) (simp_all add: finish_connection_inv handshake_guard_inv view_simps view_step_refl)
  show ?thesis
  proof (cases first)
    case (DataHello hello)
    then show ?thesis
      using plain [of "snd (accept_data_hello stream hello (he_principal env) (he_now env) ?sv)"] parts(1)
      by (simp add: step_first_def handle_first_def case_prod_beta view_simps accept_data_hello_inv)
  next
    case (ClientHello version offered)
    obtain outcome rd' w' l' sv' where
      pro: "serve_control_prologue env version offered r rd w (sy_limiter sy) ?sv = (outcome, rd', w', l', sv')"
      by (metis prod_cases5)
    note step = prologue_step [OF parts(1) hs parts(2) fresh pro]
    show ?thesis
    proof (cases outcome)
      case (Inl e)
      then show ?thesis
        using ClientHello pro step parts
        by (intro good_stepI) (simp_all add: step_first_def handle_first_def finish_connection_inv view_simps view_step_refl)
    next
      case (Inr caps)
      then obtain sid where sid: "he_session_id env = Some sid"
        "length (vw_guards (view ?sv)) < rl_sessions (rp_limits (vw_policy (view ?sv)))" "view sv' = view_open r sid (view ?sv)"
        using step by (auto simp: opens_def)
      have r: "hm_get (vw_ids (view ?sv)) r = None"
        using fresh by (simp add: fresh_session_def view_ids session_ids_get)
      have other: "hm_get (vw_ids (view ?sv)) s \<noteq> Some sid" for s
        using fresh sid(1) by (force simp: fresh_session_def view_ids hm_get_def hm_values_def dest: map_of_SomeD)
      let ?cl = "control_loop_new caps (he_now env) (sv_counters sv')"
      have "opening_ok (hm_insert r ?cl (sy_loops sy)) (r # sy_opening sy)"
        using parts(4) by (auto simp: opening_ok_def control_loop_new_def)
      then show ?thesis
        using ClientHello pro step sid(3) Inr open_view_step [OF parts(2,3) r other sid(2)]
        by (intro good_stepI) (simp_all add: step_first_def handle_first_def)
    qed
  qed (use plain [of "on_counters reject_count ?sv"] parts(1) in
      \<open>simp_all add: step_first_def handle_first_def view_on_counters\<close>)
qed

lemma good_acknowledge:
  assumes inv: "system_inv sy" and step: "step_acknowledge r env w sy = Some sy'"
  shows "good_step sy sy'"
proof -
  let ?sv = "sy_server sy"
  obtain cl sid out w' sv' where cl: "hm_get (sy_loops sy) r = Some cl" and sid: "hm_get (session_ids ?sv) r = Some sid"
    and ack: "acknowledge env (cl_negotiated cl) r sid w ?sv = (out, w', sv')" and r: "r \<in> set (sy_opening sy)"
    using step by (auto simp: step_acknowledge_def split: option.splits if_splits) (metis prod_cases3)
  have parts: "sv_inv ?sv" "sessions_ok (view ?sv)" "loops_ok (sy_policy sy) (sy_loops sy) (view ?sv)"
      "opening_ok (sy_loops sy) (sy_opening sy)"
    using inv by (simp_all add: system_inv_def)
  show ?thesis
  proof (cases out)
    case (Inl e)
    then have sv': "sv' = session_guard_drop r ?sv" and sy': "sy' = end_loop r (Err e, sv') sy"
      using ack step cl sid r
      by (auto simp: acknowledge_def step_acknowledge_def Let_def split: prod.splits sum.splits)
    show ?thesis
      unfolding sy' by (rule good_end_loop [OF inv cl sid])
        (simp_all add: sv' session_guard_drop_inv parts view_guard_drop [OF sid])
  next
    case (Inr cl')
    then have sv': "\<exists>k. sv' = on_context r (\<lambda>ctx. ctx\<lparr>sc_control_tx := Some (channel_new k)\<rparr>) ?sv"
      and cl': "cl_services cl' = []" "cl_names cl' = []"
      and sy': "sy' = sy\<lparr>sy_server := sv', sy_loops := hm_insert r cl' (sy_loops sy), sy_opening := removeAll r (sy_opening sy)\<rparr>"
      using ack step cl sid r
      by (auto simp: acknowledge_def step_acknowledge_def Let_def control_loop_new_def split: prod.splits sum.splits)
    have v: "view sv' = view ?sv" using sv' by (auto simp: view_on_context)
    have "sv_inv sv'"
      using sv' parts(1) by (auto simp: channel_new_def intro!: sv_inv_same_context)
    moreover have "cl_services cl = []" "cl_names cl = []" using parts(4) r cl by (auto simp: opening_ok_def)
    then have "loop_ok (view_max_services (sy_policy sy) (view ?sv)) (vw_binds (view ?sv)) sid cl'"
      using parts(3) cl sid cl' loop_ok_cong [of cl' cl] by (simp add: loops_ok_def view_ids)
    then have "loops_ok (sy_policy sy) (hm_insert r cl' (sy_loops sy)) (view ?sv)"
      using loops_ok_update [OF parts(3,2) loops_ok_guard [OF parts(3) cl], of sid "view ?sv" cl'] sid by (simp add: view_ids)
    moreover have "opening_ok (hm_insert r cl' (sy_loops sy)) (removeAll r (sy_opening sy))"
      using parts(4) by (auto simp: opening_ok_def)
    ultimately show ?thesis
      unfolding sy' using v parts(2) by (intro good_stepI) (simp_all add: view_step_refl)
  qed
qed

lemma server_step_good:
  assumes inv: "system_inv sy" and step: "server_step sy ev = Some sy'"
  shows "good_step sy sy'"
proof (cases ev)
  case (EvFirst env stream r first rd w)
  then show ?thesis using step good_first [OF inv] by (auto split: if_splits)
next
  case (EvAcknowledge r env w)
  then show ?thesis using good_acknowledge [OF inv] step by simp
next
  case (EvTurn r env turn w)
  then show ?thesis using good_turn [OF inv] step by simp
next
  case (EvTeardown r)
  then show ?thesis using good_teardown [OF inv] step by simp
next
  case (EvContextDrop r)
  then show ?thesis using good_context_drop [OF inv] step by (auto split: if_splits)
qed (use step inv in \<open>auto simp: view_simps system_inv_def accept_connection_inv finish_connection_inv
      handshake_guard_inv quic_data_inv service_accept_inv retract_inv relay_resolve_inv relay_claim_inv
      relay_report_inv service_stop_inv drain_inv intro!: good_on_server [OF inv] split: if_splits\<close>)

definition policies_are :: "bind_policy \<Rightarrow> runtime_policy \<Rightarrow> server_system \<Rightarrow> bool" where
  "policies_are policy rt sy \<longleftrightarrow>
     system_inv sy \<and> sy_policy sy = policy \<and> ct_policy (sv_counters (sy_server sy)) = rt"

lemma view_policy: "vw_policy (view sv) = ct_policy (sv_counters sv)"
  by (simp add: view_def)

lemma good_step_policies:
  "policies_are policy rt sy \<Longrightarrow> good_step sy sy' \<Longrightarrow>
     policies_are policy rt sy' \<and>
     (registry_step (rl_sessions (rp_limits rt)) (min (max_services_per_session policy) (rl_services_per_session (rp_limits rt))))\<^sup>*\<^sup>*
       (registry_of (sy_server sy)) (registry_of (sy_server sy'))"
  by (simp add: policies_are_def good_step_def view_step_def view_policy registry_of_view view_max_services_def)

interpretation srv: simulation_system server_step "policies_are policy rt" "\<lambda>sy. registry_of (sy_server sy)"
    "(registry_step (rl_sessions (rp_limits rt))
       (min (max_services_per_session policy) (rl_services_per_session (rp_limits rt))))\<^sup>*\<^sup>*"
  for policy rt
proof unfold_locales
  fix s e t assume "policies_are policy rt s" "server_step s e = Some t"
  then have "good_step s t" using server_step_good by (simp add: policies_are_def)
  with \<open>policies_are policy rt s\<close> show "policies_are policy rt t"
    and "(registry_step (rl_sessions (rp_limits rt))
       (min (max_services_per_session policy) (rl_services_per_session (rp_limits rt))))\<^sup>*\<^sup>*
       (registry_of (sy_server s)) (registry_of (sy_server t))"
    using good_step_policies by blast+
qed

lemma system_new_inv: "system_inv (system_new policy (with_policy rt))"
  by (simp add: system_inv_def system_new_def accept_context_new_def with_policy_def sv_inv_def sv_defs
      pending_total_def held_def sessions_ok_def registry_ok_def binds_ok_def loops_ok_def opening_ok_def view_def session_ids_def)

lemma system_new_policies: "policies_are policy rt (system_new policy (with_policy rt))"
  unfolding policies_are_def by (rule conjI [OF system_new_inv])
    (simp add: system_new_def accept_context_new_def with_policy_def)

end
