(* ===== verification/Server_Properties.thy ===== *)
theory Server_Properties
  imports Server_Correct
begin

text \<open>
  The properties of the server machine: it implements the abstract registry, its snapshots are exact,
  a data stream reaches only its own relay, registrations are decided by stated conditions, and the
  drain can miss a Session. The sample run authenticates a client with the concrete codec, registers
  a service and accepts a connection on it.
\<close>

section \<open>A sample run\<close>

definition sample_env :: handshake_env where
  "sample_env = \<lparr>he_postcard = wire_codec, he_ct_eq = (=), he_token = SecretToken [1], he_source = IpV4 [127, 0, 0, 1],
     he_principal = None, he_now = 0, he_hello_elapsed = None, he_auth_elapsed = False, he_ok_elapsed = None,
     he_session_id = Some (SessionId (replicate 16 7)), he_cancelled = False\<rparr>"

definition sample_loop_env :: control_env where
  "sample_loop_env = \<lparr>ce_postcard = wire_codec, ce_os_bind = (\<lambda>a. Some (Ok a)), ce_bind_policy = bind_policy_default,
     ce_elapsed = None, ce_now = 0\<rparr>"

definition sample_writer :: writer where "sample_writer = \<lparr>wr_out = [], wr_fault = None\<rparr>"

definition sample_auth :: reader where
  "sample_auth = \<lparr>rd_bytes = (case encode_frame wire_codec (Auth [1]) of Inr f \<Rightarrow> f | Inl _ \<Rightarrow> []), rd_end = None\<rparr>"

definition sample_run :: "server_event list" where
  "sample_run =
    [EvConnect,
     EvFirst sample_env 0 0 (ClientHello CURRENT capabilities_supported) sample_auth sample_writer,
     EvAcknowledge 0 sample_env sample_writer,
     EvTurn 0 sample_loop_env (TurnIncoming (Ok (RegisterService \<lparr>rs_service_id = ServiceId 1, rs_name = ServiceName [97],
       rs_requested_bind = Loopback 8080, rs_target = \<lparr>tt_host = [97], tt_port = 1\<rparr>\<rparr>))) sample_writer,
     EvServiceAccept 0 (ServiceId 1) 3 (Some (ConnectionId (replicate 16 9))) 5 0]"

lemma write_bounded_wire:
  assumes "wf_message m"
  shows "\<exists>w'. write_bounded wire_codec None m \<lparr>wr_out = b, wr_fault = None\<rparr> = (Ok (), \<lparr>wr_out = w', wr_fault = None\<rparr>)"
  using write_messages_read_back [OF wire.postcard_bounded_axioms, of "[m]" "\<lparr>wr_out = b, wr_fault = None\<rparr>"] assms
  by (auto simp: write_bounded_def split: prod.splits sum.splits)

lemma sample_auth_read: "\<exists>rd. read_message wire_codec sample_auth = (Ok (Auth [1]), rd)"
proof -
  have wf: "wf_message (Auth [1])" by (simp add: const_defs)
  then obtain f where f: "encode_frame wire_codec (Auth [1]) = Ok f"
    using write_bounded_wire [OF wf, of "[]"]
    by (auto simp: write_bounded_def write_message_def split: sum.splits)
  show ?thesis
    using read_message_encoded [OF wire.postcard_bounded_axioms wf f, where r = "\<lparr>rd_bytes = [], rd_end = None\<rparr>" and rest = "[]"]
    by (simp add: sample_auth_def f)
qed

lemma sample_negotiated: "intersect capabilities_supported capabilities_supported = capabilities_supported"
  by (simp add: capabilities_supported_def const_defs)

lemma sample_authenticate: "\<exists>rd w l. \<forall>c. authenticate sample_env CURRENT capabilities_supported sample_auth sample_writer
    (auth_failure_limiter_new AUTH_FAILURES_PER_SOURCE AUTH_FAILURE_WINDOW MAX_AUTH_SOURCES) c =
    (Ok capabilities_supported, rd, w, l, c)"
proof -
  have "wf_message (ServerHello CURRENT capabilities_supported)"
    by (simp add: wf_caps_def capabilities_supported_def const_defs)
  then obtain w' where w': "write_bounded wire_codec None (ServerHello CURRENT capabilities_supported) sample_writer =
      (Ok (), \<lparr>wr_out = w', wr_fault = None\<rparr>)"
    using write_bounded_wire [of _ "[]"] unfolding sample_writer_def by blast
  obtain rd where rd: "read_message wire_codec sample_auth = (Ok (Auth [1]), rd)" using sample_auth_read by blast
  obtain l where "is_blocked_at (IpV4 [127, 0, 0, 1]) 0
      (auth_failure_limiter_new AUTH_FAILURES_PER_SOURCE AUTH_FAILURE_WINDOW MAX_AUTH_SOURCES) = (False, l)"
    by (simp add: is_blocked_at_def auth_failure_limiter_new_def prune_def Let_def hm_map_def hm_retain_def hm_get_def)
  moreover have "verify_token (=) (SecretToken [1]) [1]" by (simp add: verify_token_def const_defs)
  ultimately show ?thesis
    using w' rd by (simp add: authenticate_def sample_env_def sample_negotiated Let_def)
qed

lemma sample_writes:
  "\<exists>w. write_bounded wire_codec None (AuthOk (SessionId (replicate 16 7))) sample_writer = (Ok (), w)"
  "\<exists>w. write_bounded wire_codec None (RegisterAck (ServiceId 1) \<lparr>eb_address = ipv6_localhost, eb_port = 8080\<rparr>)
     sample_writer = (Ok (), w)"
  using write_bounded_wire [of "AuthOk (SessionId (replicate 16 7))" "[]"]
    write_bounded_wire [of "RegisterAck (ServiceId 1) \<lparr>eb_address = ipv6_localhost, eb_port = 8080\<rparr>" "[]"]
  unfolding sample_writer_def by (auto simp: ipv6_localhost_def)

definition sample_hello :: data_hello where
  "sample_hello = \<lparr>dh_session_id = SessionId (replicate 16 7), dh_service_id = ServiceId 1,
     dh_connection_id = ConnectionId (replicate 16 9)\<rparr>"

lemma sample_reachable:
  "\<exists>sy. run_events server_step (system_new bind_policy_default (with_policy runtime_policy_default)) sample_run = Some sy \<and>
     fst (accept_data_hello 4 sample_hello None 0 (sy_server sy)) = Ok ()"
proof -
  obtain rd w l where auth: "authenticate sample_env CURRENT capabilities_supported sample_auth sample_writer
    (auth_failure_limiter_new AUTH_FAILURES_PER_SOURCE AUTH_FAILURE_WINDOW MAX_AUTH_SOURCES) c =
    (Ok capabilities_supported, rd, w, l, c)" for c using sample_authenticate by blast
  obtain w1 w2 where writes:
    "write_bounded wire_codec None (AuthOk (SessionId (replicate 16 7))) sample_writer = (Ok (), w1)"
    "write_bounded wire_codec None (RegisterAck (ServiceId 1) \<lparr>eb_address = ipv6_localhost, eb_port = 8080\<rparr>)
     sample_writer = (Ok (), w2)" using sample_writes by blast
  have env: "he_session_id sample_env = Some (SessionId (replicate 16 7))" "\<not> he_cancelled sample_env"
    "he_principal sample_env = None" "he_now sample_env = 0" "he_postcard sample_env = wire_codec" "he_ok_elapsed sample_env = None"
    by (simp_all add: sample_env_def)
  show ?thesis
    by (simp add: sample_run_def system_new_def accept_context_new_def on_server_def accept_connection_def admit_def
      handshake_guard_new_def runtime_policy_default_def resource_limits_default_def with_policy_def fresh_session_def env 
      step_first_def handle_first_def serve_control_prologue_def auth Let_def on_counters_def session_ids_def hm_values_def establish_def
      handshake_guard_drop_def register_context_def upgrade_def session_guard_new_def enter_sessions_def enter_handshakes_def hm_retain_def
      session_context_new_def step_acknowledge_def acknowledge_def writes on_context_def control_loop_new_def hm_insert_def hm_get_def hm_modify_def
      step_turn_def control_turn_step_def control_incoming_def sample_loop_env_def serve_registration_def admit_service_def max_services_def
      bind_policy_default_def permits_address_def permits_port_def hm_len_def hm_contains_def hm_remove_def
      push_bind_def enter_services_def exit_of_def set_insert_def reset_idle_def fresh_connection_def service_accept_def
      enter_pending_def enter_active_def acquire_connection_def channel_new_def try_send_def
      sample_hello_def accept_data_hello_def take_pending_def deliver_def timeout_policy_default_def from_secs_def)
qed

section \<open>Runs of the server\<close>

lemma reachable_inv:
  assumes "run_events server_step (system_new policy (with_policy rt)) evs = Some sy"
  shows "system_inv sy \<and> ct_policy (sv_counters (sy_server sy)) = rt"
  using srv.run_inv [OF system_new_policies assms] by (simp add: policies_are_def)



text \<open>C5: every snapshot of a running server is exact and within the limits. In every reachable
  state the reported sessions are the open Sessions, the reported services are the listed binds and
  these are the bound services of open Sessions, and pending connections, relays and handshakes are
  those that exist. Sessions, handshakes, and the pending and active connections of each Session
  stay below their ceilings.\<close>

theorem server_snapshot_exact:
  assumes run: "run_events server_step (system_new policy (with_policy rt)) evs = Some sy"
    and sv: "sv = sy_server sy" and s: "s = take_snapshot now (sv_counters sv)"
  shows "sn_active_sessions s = of_nat (card (dom (registry_of sv))) \<and>
    card (dom (registry_of sv)) \<le> rl_sessions (rp_limits rt) \<and>
    sn_registered_services s = of_nat (length (sn_effective_binds s)) \<and> distinct (sn_effective_binds s) \<and>
    (\<forall>sid i e. (sid, i, e) \<in> set (sn_effective_binds s) \<longleftrightarrow> (\<exists>m. registry_of sv sid = Some m \<and> m i = Some e)) \<and>
    sn_pending_connections s = of_nat (pending_total sv) \<and>
    sn_active_connections s = of_nat (hm_len (sv_relays sv)) \<and>
    sn_active_handshakes s = of_nat (sv_handshakes sv) \<and> sv_handshakes sv \<le> rl_accepted_handshakes (rp_limits rt) \<and>
    (\<forall>r ctx. hm_get (sv_contexts sv) r = Some ctx \<longrightarrow>
       hm_len (sc_pending ctx) \<le> rl_pending_per_session (rp_limits rt) \<and>
       held r sv \<le> rl_active_connections_per_session (rp_limits rt))"
proof -
  have inv: "sv_inv sv" "sessions_ok (view sv)" "ct_policy (sv_counters sv) = rt"
    using reachable_inv [OF run] sv by (auto simp: system_inv_def)
  have "card (dom (registry_of sv)) = length (sv_guards sv)"
    unfolding registry_of_view reg_view_card [OF inv(2)] by (simp add: view_def)
  moreover have "ct_sessions (sv_counters sv) = of_nat (length (sv_guards sv))"
    "length (sv_guards sv) \<le> rl_sessions (rp_limits rt)"
    using inv(2,3) by (simp_all add: sessions_ok_def registry_ok_def view_def)
  moreover have b: "ct_services (sv_counters sv) = of_nat (length (ct_binds (sv_counters sv)))"
    "distinct (map bind_key (ct_binds (sv_counters sv)))"
    using inv(2) by (simp_all add: sessions_ok_def binds_ok_def view_def)
  moreover have "(sid, i, e) \<in> set (ct_binds (sv_counters sv)) \<longleftrightarrow> (\<exists>m. registry_of sv sid = Some m \<and> m i = Some e)" for sid i e
  proof -
    have "hm_get (sv_registry sv) sid \<noteq> None" if "(sid, i, e) \<in> set (ct_binds (sv_counters sv))"
      using that inv(2) by (force simp: sessions_ok_def binds_ok_def view_def)
    then show ?thesis
      using bind_of_Some [OF b(2), of sid i e] by (auto simp: registry_of_def split: option.split)
  qed
  moreover have "ct_pending (sv_counters sv) = of_nat (pending_total sv)"
    "ct_active_connections (sv_counters sv) = of_nat (hm_len (sv_relays sv))"
    "ct_handshakes (sv_counters sv) = of_nat (sv_handshakes sv)" "sv_handshakes sv \<le> rl_accepted_handshakes (rp_limits rt)"
    using inv(1,3) by (auto simp: sv_inv_def sv_pending_balanced_def sv_active_balanced_def sv_handshakes_balanced_def)
  moreover have "hm_len (sc_pending ctx) \<le> rl_pending_per_session (rp_limits rt) \<and>
      held r sv \<le> rl_active_connections_per_session (rp_limits rt)" if "hm_get (sv_contexts sv) r = Some ctx" for r ctx
    using inv(1,3) that by (auto simp: sv_inv_def sv_bounded_def sv_permits_def dest: spec [of _ r])
  ultimately show ?thesis
    unfolding s take_snapshot_def by (simp add: distinct_map)
qed

theorem server_snapshot_exact_witness:
  "\<exists>sy. run_events server_step (system_new bind_policy_default (with_policy runtime_policy_default)) sample_run = Some sy \<and>
     sn_active_sessions (take_snapshot 0 (sv_counters (sy_server sy))) = of_nat (card (dom (registry_of (sy_server sy)))) \<and>
     sn_active_connections (take_snapshot 0 (sv_counters (sy_server sy))) = of_nat (hm_len (sv_relays (sy_server sy)))"
proof -
  obtain sy where run: "run_events server_step (system_new bind_policy_default (with_policy runtime_policy_default)) sample_run = Some sy"
    using sample_reachable by blast
  show ?thesis using run server_snapshot_exact [OF run refl refl, of 0] by blast
qed

text \<open>C6: a data stream reaches only the connection it names, once. When a \<open>DataHello\<close> is accepted in
  a reachable state, its Session is live and was authenticated as the same principal, the connection
  is pending for the named service and has not expired, and the stream goes to the relay task that
  waits for exactly this connection of this Session and to no other. The same \<open>DataHello\<close> is never
  accepted again from there.\<close>

theorem data_hello_reaches_own_relay:
  assumes run: "run_events server_step (system_new policy (with_policy rt)) evs = Some sy"
    and hello: "accept_data_hello stream hello p now (sy_server sy) = (Ok (), sv')"
  shows "\<exists>r ctx entry task. hm_get (sv_registry (sy_server sy)) (dh_session_id hello) = Some r \<and>
    hm_get (sv_contexts (sy_server sy)) r = Some ctx \<and> sc_id ctx = dh_session_id hello \<and> sc_principal ctx = p \<and>
    hm_get (sc_pending ctx) (dh_connection_id hello) = Some entry \<and>
    pe_service_id entry = dh_service_id hello \<and> now < pe_expires entry \<and>
    hm_get (sv_relays (sy_server sy)) (pe_data_tx entry) = Some task \<and> rt_stage task = RelayWaiting \<and>
    rt_context task = r \<and> rt_connection task = dh_connection_id hello \<and>
    (\<forall>tx. hm_get (sv_relays sv') tx =
       (if tx = pe_data_tx entry then Some (task\<lparr>rt_stage := RelayDelivered stream\<rparr>)
        else hm_get (sv_relays (sy_server sy)) tx)) \<and>
    (\<forall>stream' p' now'. \<not> is_ok (fst (accept_data_hello stream' hello p' now' sv')))"
proof -
  let ?sv = "sy_server sy" and ?cid = "dh_connection_id hello"
  have inv: "sv_inv ?sv" "sessions_ok (view ?sv)" using reachable_inv [OF run] by (auto simp: system_inv_def)
  obtain r ctx entry where reg: "hm_get (sv_registry ?sv) (dh_session_id hello) = Some r"
    and ctx: "hm_get (sv_contexts ?sv) r = Some ctx" "sc_principal ctx = p"
    and entry: "hm_get (sc_pending ctx) ?cid = Some entry" "pe_service_id entry = dh_service_id hello" "now < pe_expires entry"
    and del: "deliver (pe_data_tx entry) stream (snd (take_pending r ?cid ?sv)) = (Ok (), sv')"
    using hello by (auto simp: accept_data_hello_def upgrade_def take_pending_def not_le
        split: option.splits if_splits Option.bind_splits)
  have id: "sc_id ctx = dh_session_id hello"
    using inv(2) reg ctx(1) registry_ok_lookup [of "view ?sv" "dh_session_id hello" r]
    by (simp add: sessions_ok_def view_def session_ids_get)
  have relays: "sv_relays (snd (take_pending r ?cid ?sv)) = sv_relays ?sv"
    by (simp add: take_pending_def split: option.split)
  obtain task where task: "hm_get (sv_relays ?sv) (pe_data_tx entry) = Some task" "rt_stage task = RelayWaiting"
    and sv': "sv' = (snd (take_pending r ?cid ?sv))\<lparr>sv_relays := hm_modify (pe_data_tx entry)
      (\<lambda>task. task\<lparr>rt_stage := RelayDelivered stream\<rparr>) (sv_relays ?sv)\<rparr>"
    using del by (auto simp: deliver_def relays split: option.splits if_splits)
  have own: "rt_context task = r \<and> rt_connection task = ?cid"
    using inv(1) ctx(1) entry(1) task(1) by (simp add: sv_inv_def sv_correlated_def)
  have "hm_get (sv_contexts sv') r = Some (ctx\<lparr>sc_pending := hm_remove ?cid (sc_pending ctx)\<rparr>)"
    "sv_registry sv' = sv_registry ?sv"
    using ctx(1) entry(1) by (simp_all add: sv' take_pending_def)
  then have "\<not> is_ok (fst (accept_data_hello stream' hello p' now' sv'))" for stream' p' now'
    using reg by (simp add: accept_data_hello_def upgrade_def take_pending_def)
  then show ?thesis
    using reg ctx id entry task own by (intro exI [of _ r] exI [of _ ctx] exI [of _ entry] exI [of _ task])
      (simp add: sv')
qed

theorem data_hello_reaches_own_relay_witness:
  "\<exists>sy sv'. run_events server_step (system_new bind_policy_default (with_policy runtime_policy_default)) sample_run = Some sy \<and>
     accept_data_hello 4 sample_hello None 0 (sy_server sy) = (Ok (), sv') \<and>
     \<not> is_ok (fst (accept_data_hello 6 sample_hello None 0 sv'))"
proof -
  obtain sy sv' where run: "run_events server_step (system_new bind_policy_default (with_policy runtime_policy_default)) sample_run = Some sy"
    and hello: "accept_data_hello 4 sample_hello None 0 (sy_server sy) = (Ok (), sv')"
    using sample_reachable by (metis prod.collapse)
  show ?thesis using run hello data_hello_reaches_own_relay [OF run hello] by blast
qed

section \<open>Registration\<close>

definition service_admissible :: "os_bind \<Rightarrow> register_service \<Rightarrow> bind_policy \<Rightarrow> counters \<Rightarrow> control_loop \<Rightarrow> bool" where
  "service_admissible os register policy c cl \<longleftrightarrow>
     hm_len (cl_services cl) < max_services policy c \<and> hm_get (cl_services cl) (rs_service_id register) = None \<and>
     name_str (rs_name register) \<notin> set (cl_names cl) \<and>
     (\<exists>addr local. bind_to_socket (rs_requested_bind register) policy = Ok addr \<and> os addr = Some (Ok local))"

lemma admit_service_iff:
  "service_admissible os register policy c cl \<longleftrightarrow> is_ok (admit_service os register policy c cl)"
  by (auto simp: service_admissible_def admit_service_def hm_contains_def not_le is_ok_conv split: sum.splits option.splits)

lemma admit_service_code:
  "admit_service os register policy c cl = Inl code \<Longrightarrow>
     code \<in> {REGISTRATION_ERROR_DUPLICATE, REGISTRATION_ERROR_BIND, REGISTRATION_ERROR_LISTENER, REGISTRATION_ERROR_ADMISSION}"
  by (auto simp: admit_service_def split: if_splits sum.splits option.splits)

lemma registration_diagnostic: "\<exists>d. bounded_diagnostic_new (lit ''service registration rejected'') = Ok d"
  by (simp add: bounded_diagnostic_new_def lit_def const_defs str_len_def str_bytes_def utf8_char_def is_control_def
      is_format_char_def)



section \<open>The drain\<close>

lemma drain_notify_other: "r \<noteq> s \<Longrightarrow> hm_get (sv_contexts (drain_notify ms s sv)) r = hm_get (sv_contexts sv) r"
  by (simp add: drain_notify_def split: option.split)

lemma drain_sessions_notified:
  "set notified \<union> sc_id ` snd ` set active \<subseteq> set (fst (drain_sessions ms active notified sv))"
  by (induction ms active notified sv rule: drain_sessions.induct) (auto simp: image_iff)

lemma drain_sessions_skip:
  assumes "\<And>ctx. (r, ctx) \<in> set active \<Longrightarrow> sc_id ctx \<in> set notified"
  shows "hm_get (sv_contexts (snd (drain_sessions ms active notified sv))) r = hm_get (sv_contexts sv) r"
  using assms
proof (induction ms active notified sv rule: drain_sessions.induct)
  case (2 ms s session active notified sv)
  show ?case
  proof (cases "sc_id session \<in> set notified")
    case False
    then have "r \<noteq> s" using 2(3) [of session] by auto
    with 2 False show ?thesis by (simp add: drain_notify_other)
  qed (use 2 in simp)
qed simp

lemma drain_sessions_silent:
  assumes "hm_get (sv_contexts sv) r = Some ctx" and "sc_control_tx ctx = None"
  shows "hm_get (sv_contexts (snd (drain_sessions ms active notified sv))) r = Some ctx"
  using assms
proof (induction ms active notified sv rule: drain_sessions.induct)
  case (2 ms s session active notified sv)
  have "hm_get (sv_contexts (drain_notify ms s sv)) r = Some ctx"
    using 2(3,4) by (cases "r = s") (simp_all add: drain_notify_other, simp add: drain_notify_def)
  with 2 show ?case by simp
qed simp

text \<open>C8: the drain can miss a Session for good. A Session that is registered but has not published
  its queue yet, because its acknowledgement is still being written, is marked as notified without
  being sent anything; every later pass skips it, whatever its queue looks like then, so it gets no
  \<open>Drain\<close> message before it is cancelled at the deadline.\<close>

theorem drain_misses_opening_session:
  assumes "(r, ctx) \<in> set (live sv)" and "sc_control_tx ctx = None"
    and "drain_pass notified sv = (notified', sv')"
    and "set notified' \<subseteq> set later" and "\<And>ctx'. (r, ctx') \<in> set (live sv'') \<Longrightarrow> sc_id ctx' = sc_id ctx"
  shows "hm_get (sv_contexts sv') r = Some ctx \<and> sc_id ctx \<in> set notified' \<and>
    hm_get (sv_contexts (snd (drain_pass later sv''))) r = hm_get (sv_contexts sv'') r"
proof -
  have "hm_get (sv_contexts sv) r = Some ctx"
    using assms(1) by (auto simp: live_def List.map_filter_def upgrade_def split: if_splits)
  then have first: "hm_get (sv_contexts sv') r = Some ctx"
    using drain_sessions_silent [OF _ assms(2)] assms(3) by (metis drain_pass_def snd_conv)
  have marked: "sc_id ctx \<in> set notified'"
    using drain_sessions_notified [of notified "live sv" "drain_deadline_ms (sv_counters sv)" sv] assms(1,3)
    by (force simp: drain_pass_def)
  have "hm_get (sv_contexts (snd (drain_pass later sv''))) r = hm_get (sv_contexts sv'') r"
    unfolding drain_pass_def using marked assms(4,5) by (intro drain_sessions_skip) auto
  with first marked show ?thesis by simp
qed

theorem drain_misses_opening_session_witness:
  "let sv0 = ac_server (accept_context_new bind_policy_default (with_policy runtime_policy_default));
       ctx = session_context_new (SessionId [7]) None (sv_counters sv0);
       sv = sv0\<lparr>sv_contexts := [(0, ctx)], sv_registry := [(SessionId [7], 0)], sv_guards := [0]\<rparr>;
       ready = sv\<lparr>sv_contexts := [(0, ctx\<lparr>sc_control_tx := Some (channel_new 8)\<rparr>)]\<rparr>
   in hm_get (sv_contexts (snd (drain_pass (fst (drain_pass [] sv)) ready))) 0 = hm_get (sv_contexts ready) 0"
proof -
  let ?sv0 = "ac_server (accept_context_new bind_policy_default (with_policy runtime_policy_default))"
  let ?ctx = "session_context_new (SessionId [7]) None (sv_counters ?sv0)"
  let ?sv = "?sv0\<lparr>sv_contexts := [(0, ?ctx)], sv_registry := [(SessionId [7], 0)], sv_guards := [0]\<rparr>"
  let ?ready = "?sv\<lparr>sv_contexts := [(0, ?ctx\<lparr>sc_control_tx := Some (channel_new 8)\<rparr>)]\<rparr>"
  have "(0, ?ctx) \<in> set (live ?sv)" "sc_control_tx ?ctx = None"
    "\<And>ctx'. (0, ctx') \<in> set (live ?ready) \<Longrightarrow> sc_id ctx' = sc_id ?ctx"
    by (simp_all add: live_def List.map_filter_def upgrade_def hm_values_def hm_get_def session_context_new_def)
  from drain_misses_opening_session [OF this(1,2) surjective_pairing subset_refl this(3)]
  show ?thesis by (simp add: Let_def)
qed

end
