(* ===== verification/Client_Session.thy ===== *)
theory Client_Session
  imports Reconnect Channel Wire_IO
begin

text \<open>
  One authenticated Session of the client: \<open>run_session\<close> of \<open>crates/eggtunnel/src/client.rs\<close> and the
  handling of one \<open>Open\<close> (\<open>client/open.rs\<close>). The handshake and the initial registration run before
  the Session is ready; then each branch of the \<open>select!\<close> is one operation, and which branch is
  taken next is an argument, as are the messages read, the writes that exceed their budget and the
  outcomes of connecting. Answers to the callers of the client handle are collected in the order
  they are sent.
\<close>

section \<open>Messages under a budget\<close>

text \<open>\<open>elapsed\<close> is \<open>Some n\<close> when the budget runs out after the peer took \<open>n\<close> bytes; a read that exceeds
  its budget has consumed nothing that matters, since the Session ends.\<close>

definition write_control :: "postcard \<Rightarrow> nat option \<Rightarrow> message \<Rightarrow> writer \<Rightarrow> (tunnel_error + unit) \<times> writer" where
  "write_control pc elapsed m w =
     (case elapsed of
        None \<Rightarrow> write_message pc m w
      | Some n \<Rightarrow>
          (case encode_frame pc m of
             Inl e \<Rightarrow> (Err (Protocol e), w)
           | Inr frame \<Rightarrow> (Err Timeout, w\<lparr>wr_out := wr_out w @ take n frame\<rparr>)))"

definition handshake_write :: "postcard \<Rightarrow> nat option \<Rightarrow> message \<Rightarrow> writer \<Rightarrow> (tunnel_error + unit) \<times> writer" where
  "handshake_write pc elapsed m w =
     (case elapsed of
        None \<Rightarrow> write_message pc m w
      | Some n \<Rightarrow>
          (case encode_frame pc m of
             Inl e \<Rightarrow> (Err (Protocol e), w)
           | Inr frame \<Rightarrow> (Err Timeout, w\<lparr>wr_out := wr_out w @ take n frame\<rparr>)))"

definition handshake_read :: "postcard \<Rightarrow> bool \<Rightarrow> reader \<Rightarrow> (tunnel_error + message) \<times> reader" where
  "handshake_read pc elapsed rd = (if elapsed then (Err Timeout, rd) else read_message pc rd)"

text \<open>The read of the loop is a new future in every turn. When another branch is taken it is dropped, and
  the \<open>n\<close> bytes it has consumed are gone.\<close>

definition read_abandoned :: "nat \<Rightarrow> reader \<Rightarrow> reader" where
  "read_abandoned n rd = rd\<lparr>rd_bytes := drop n (rd_bytes rd)\<rparr>"

definition negotiate_capabilities :: "capabilities \<Rightarrow> capabilities \<Rightarrow> capabilities" where
  "negotiate_capabilities offered received = intersect offered received"

definition registration_error_code :: "u16 \<Rightarrow> tunnel_error" where
  "registration_error_code code =
     (if code = 1 then ServiceAlreadyExists
      else if code = 5 then ResourceExhausted
      else Authorization)"

section \<open>The handshake\<close>

record client_handshake =
  hv_postcard :: postcard
  hv_token :: secret_token
  hv_hello_elapsed :: "nat option"
  hv_server_elapsed :: bool
  hv_auth_elapsed :: "nat option"
  hv_ok_elapsed :: bool
  hv_observed :: "u64 list"
  hv_register_elapsed :: "service_id \<Rightarrow> nat option"
  hv_ack_elapsed :: "service_id \<Rightarrow> bool"

text \<open>Up to \<open>AuthOk\<close>: the negotiated capabilities and the identifier of the Session.\<close>

definition client_authenticate ::
  "client_handshake \<Rightarrow> reader \<Rightarrow> writer \<Rightarrow> (tunnel_error + capabilities \<times> session_id) \<times> reader \<times> writer" where
  "client_authenticate env rd w =
     (let pc = hv_postcard env; offered = capabilities_supported
      in case handshake_write pc (hv_hello_elapsed env) (ClientHello CURRENT offered) w of
           (Inl e, w) \<Rightarrow> (Err e, rd, w)
         | (Inr _, w) \<Rightarrow>
      case handshake_read pc (hv_server_elapsed env) rd of
           (Inl e, rd) \<Rightarrow> (Err e, rd, w)
         | (Inr (ServerHello version received), rd) \<Rightarrow>
             if pv_major version \<noteq> pv_major CURRENT then (Err (Protocol UnexpectedMessage), rd, w)
             else
               let negotiated = negotiate_capabilities offered received
               in (case auth_new (expose (hv_token env)) of
                     Inl e \<Rightarrow> (Err (Protocol e), rd, w)
                   | Inr auth \<Rightarrow>
                       (case handshake_write pc (hv_auth_elapsed env) auth w of
                          (Inl e, w) \<Rightarrow> (Err e, rd, w)
                        | (Inr _, w) \<Rightarrow>
                            (case handshake_read pc (hv_ok_elapsed env) rd of
                               (Inl e, rd) \<Rightarrow> (Err e, rd, w)
                             | (Inr (AuthOk sid), rd) \<Rightarrow> (Ok (negotiated, sid), rd, w)
                             | (Inr _, rd) \<Rightarrow> (Err Authentication, rd, w))))
         | (Inr _, rd) \<Rightarrow> (Err (Protocol UnexpectedMessage), rd, w))"

definition registration_of :: "client_service \<Rightarrow> register_service" where
  "registration_of service =
     \<lparr>rs_service_id = cs_id service, rs_name = cs_name service,
      rs_requested_bind = cs_requested_bind service, rs_target = cs_target service\<rparr>"

text \<open>The desired services are registered one after the other; any other answer than the matching
  acknowledgement ends the Session.\<close>

fun initial_registration ::
  "client_handshake \<Rightarrow> session_id \<Rightarrow> client_service list \<Rightarrow> reader \<Rightarrow> writer \<Rightarrow> counters \<Rightarrow>
     (tunnel_error + unit) \<times> reader \<times> writer \<times> counters" where
  "initial_registration env sid [] rd w c = (Ok (), rd, w, c)"
| "initial_registration env sid (service # rest) rd w c =
     (case handshake_write (hv_postcard env) (hv_register_elapsed env (cs_id service))
             (RegisterService (registration_of service)) w of
        (Inl e, w) \<Rightarrow> (Err e, rd, w, c)
      | (Inr _, w) \<Rightarrow>
          (case handshake_read (hv_postcard env) (hv_ack_elapsed env (cs_id service)) rd of
             (Inl e, rd) \<Rightarrow> (Err e, rd, w, c)
           | (Inr (RegisterAck i effective), rd) \<Rightarrow>
               if i = cs_id service
               then initial_registration env sid rest rd w (push_bind (sid, cs_id service, effective) c)
               else (Err Authorization, rd, w, c)
           | (Inr _, rd) \<Rightarrow> (Err Authorization, rd, w, c)))"

section \<open>The Session\<close>

record open_task =
  ot_service :: client_service
  ot_connection :: connection_id

text \<open>\<open>cn_permits\<close> are the free permits of the semaphore and \<open>cn_opens\<close> the tasks that hold the
  others; \<open>cn_cancelled\<close> is the token of the Session, of which the tasks hold children.\<close>

record client_session =
  cn_session_id :: session_id
  cn_negotiated :: capabilities
  cn_generation :: u64
  cn_state :: service_state
  cn_counters :: counters
  cn_out :: channel
  cn_permits :: nat
  cn_opens :: "(nat, open_task) hashmap"
  cn_cancelled :: bool
  cn_heartbeat :: heartbeat_probe
  cn_timed_out :: bool
  cn_peer_drain :: "u32 option"
  cn_answers :: "command_answer list"

definition session_mode :: "capabilities \<Rightarrow> counters \<Rightarrow> registration_mode" where
  "session_mode negotiated c =
     (if has_cap negotiated CAPABILITY_REGISTER_REJECT
      then CorrelatedBounded (rl_client_command_queue (rp_limits (ct_policy c)))
      else LegacySerial)"

text \<open>The counters of a ready Session are stored, not added.\<close>

definition session_ready ::
  "session_id \<Rightarrow> capabilities \<Rightarrow> u64 \<Rightarrow> service_state \<Rightarrow> command_answer list \<Rightarrow> counters \<Rightarrow> client_session" where
  "session_ready sid negotiated generation st sent c =
     (let st = activate_initial st;
          limits = rp_limits (ct_policy c)
      in \<lparr>cn_session_id = sid, cn_negotiated = negotiated, cn_generation = generation, cn_state = st,
          cn_counters = c\<lparr>ct_connected := 1, ct_services := of_nat (length (ss_desired st)), ct_sessions := 1\<rparr>,
          cn_out = channel_new (rl_control_queue limits), cn_permits = rl_client_open_tasks limits,
          cn_opens = [], cn_cancelled = False, cn_heartbeat = heartbeat_new, cn_timed_out = False,
          cn_peer_drain = None, cn_answers = sent\<rparr>)"

text \<open>Everything before the loop. A failure leaves the registration state as it is then; the
  reconnect delay is reset only by a ready Session.\<close>

definition session_start ::
  "client_handshake \<Rightarrow> reader \<Rightarrow> writer \<Rightarrow> supervisor \<Rightarrow> counters \<Rightarrow>
     (tunnel_error \<times> command_answer list \<times> counters + client_session) \<times> supervisor \<times> reader \<times> writer" where
  "session_start env rd w s c =
     (case client_authenticate env rd w of
        (Inl e, rd, w) \<Rightarrow> (Inl (e, [], c), s, rd, w)
      | (Inr (negotiated, sid), rd, w) \<Rightarrow>
          (case begin_session (hv_observed env) c of
             (Inl e, c) \<Rightarrow> (Inl (e, [], c), s, rd, w)
           | (Inr generation, c) \<Rightarrow>
               (case set_mode (session_mode negotiated c) (sup_services s) of (sent, st) \<Rightarrow>
                  let st = clear_active st; sent = map RegisterAnswer sent
                  in case initial_registration env sid (ss_desired st) rd w c of
                       (Inl e, rd, w, c) \<Rightarrow> (Inl (e, sent, c), s\<lparr>sup_services := st\<rparr>, rd, w)
                     | (Inr _, rd, w, c) \<Rightarrow>
                         (Inr (session_ready sid negotiated generation st sent c),
                          s\<lparr>sup_services := st, sup_reconnect_delay := to_reconnect_initial (rp_timeouts (ct_policy c))\<rparr>,
                          rd, w))))"

section \<open>The branches of the loop\<close>

datatype session_exit = SessionContinue | SessionBreak | SessionReturn tunnel_error

record session_env =
  sx_postcard :: postcard
  sx_elapsed :: "nat option"
  sx_now :: instant
  sx_closed :: "reply list"
  sx_task :: nat

text \<open>\<open>let _ = try_send(..)\<close>: a message that does not fit is dropped.\<close>

definition offer :: "message \<Rightarrow> client_session \<Rightarrow> client_session" where
  "offer m cn = (case try_send m (cn_out cn) of None \<Rightarrow> cn | Some ch \<Rightarrow> cn\<lparr>cn_out := ch\<rparr>)"

definition on_client_counters :: "(counters \<Rightarrow> counters) \<Rightarrow> client_session \<Rightarrow> client_session" where
  "on_client_counters f cn = cn\<lparr>cn_counters := f (cn_counters cn)\<rparr>"

definition tell :: "command_answer list \<Rightarrow> client_session \<Rightarrow> client_session" where
  "tell sent cn = cn\<lparr>cn_answers := cn_answers cn @ sent\<rparr>"

definition session_heartbeat :: "session_env \<Rightarrow> client_session \<Rightarrow> client_session" where
  "session_heartbeat env cn =
     (if has_outstanding (cn_heartbeat cn) then on_client_counters record_heartbeat_missed cn
      else
        case next_nonce (cn_heartbeat cn) of (nonce, h) \<Rightarrow>
          (case try_send (Ping nonce) (cn_out cn) of
             Some ch \<Rightarrow> cn\<lparr>cn_out := ch, cn_heartbeat := mark_sent nonce (sx_now env) h\<rparr>
           | None \<Rightarrow> on_client_counters record_heartbeat_missed (cn\<lparr>cn_heartbeat := h\<rparr>)))"

definition session_open :: "session_env \<Rightarrow> service_id \<Rightarrow> connection_id \<Rightarrow> client_session \<Rightarrow> client_session" where
  "session_open env i cid cn =
     (case hm_get (ss_active (cn_state cn)) i of
        None \<Rightarrow>
          offer (OpenReject cid 1)
            (on_client_counters (record_termination TcAuthorization \<circ> reject_count) cn)
      | Some service \<Rightarrow>
          if cn_permits cn = 0
          then offer (OpenReject cid 2)
                 (on_client_counters (record_termination TcResourceExhausted \<circ> reject_count) cn)
          else on_client_counters enter_open_tasks
                 (cn\<lparr>cn_permits := cn_permits cn - 1,
                    cn_opens := hm_insert (sx_task env) \<lparr>ot_service = service, ot_connection = cid\<rparr> (cn_opens cn)\<rparr>))"

definition services_store :: "service_state \<Rightarrow> counters \<Rightarrow> counters" where
  "services_store st c = c\<lparr>ct_services := of_nat (hm_len (ss_active st))\<rparr>"

definition services_high_water :: "service_state \<Rightarrow> counters \<Rightarrow> counters" where
  "services_high_water st c =
     c\<lparr>ct_high_water_services := max (ct_high_water_services c) (of_nat (hm_len (ss_active st)))\<rparr>"

definition session_ack ::
  "session_env \<Rightarrow> service_id \<Rightarrow> effective_bind \<Rightarrow> client_session \<Rightarrow> writer \<Rightarrow> session_exit \<times> client_session \<times> writer" where
  "session_ack env i effective cn w =
     (case take_ack (\<lambda>r. r \<in> set (sx_closed env)) i (cn_generation cn) (cn_state cn) of
        (AckUnexpected, st) \<Rightarrow> (SessionReturn (Protocol UnexpectedMessage), cn\<lparr>cn_state := st\<rparr>, w)
      | (AckStale r, st) \<Rightarrow>
          (SessionContinue, tell (map RegisterAnswer (send (Err Disconnected) r)) (cn\<lparr>cn_state := st\<rparr>), w)
      | (AckAbandoned, st) \<Rightarrow>
          (SessionContinue, cn\<lparr>cn_state := st\<rparr>,
           snd (write_control (sx_postcard env) (sx_elapsed env) (UnregisterService i) w))
      | (AckCommit service r, st) \<Rightarrow>
          let st = commit service st
          in (SessionContinue,
              tell (map RegisterAnswer (send (Ok effective) r))
                (on_client_counters
                  (services_high_water st \<circ> services_store st \<circ> push_bind (cn_session_id cn, cs_id service, effective))
                  (cn\<lparr>cn_state := st\<rparr>)), w))"

definition session_error :: "u16 \<Rightarrow> client_session \<Rightarrow> session_exit \<times> client_session" where
  "session_error code cn =
     (case reject (cn_state cn) of
        (Some r, st) \<Rightarrow>
          (SessionContinue,
           tell (map RegisterAnswer (send (Err (registration_error_code code)) r)) (cn\<lparr>cn_state := st\<rparr>))
      | (None, st) \<Rightarrow> (SessionReturn Authorization, cn\<lparr>cn_state := st\<rparr>))"

definition session_reject :: "service_id \<Rightarrow> u16 \<Rightarrow> client_session \<Rightarrow> session_exit \<times> client_session" where
  "session_reject i code cn =
     (if \<not> has_cap (cn_negotiated cn) CAPABILITY_REGISTER_REJECT
      then (SessionReturn (Protocol UnexpectedMessage), cn)
      else case take_reject i (cn_generation cn) (cn_state cn) of
             (RejReject r, st) \<Rightarrow>
               (SessionContinue,
                tell (map RegisterAnswer (send (Err (registration_error_code code)) r)) (cn\<lparr>cn_state := st\<rparr>))
           | (RejStale r, st) \<Rightarrow>
               (SessionContinue,
                tell (map RegisterAnswer (send (Err Disconnected) r)) (cn\<lparr>cn_state := st\<rparr>))
           | (RejUnknown, st) \<Rightarrow> (SessionReturn (Protocol UnexpectedMessage), cn\<lparr>cn_state := st\<rparr>))"

definition session_incoming ::
  "session_env \<Rightarrow> tunnel_error + message \<Rightarrow> client_session \<Rightarrow> writer \<Rightarrow> session_exit \<times> client_session \<times> writer" where
  "session_incoming env incoming cn w =
     (case incoming of
        Inl e \<Rightarrow> (SessionReturn e, cn, w)
      | Inr m \<Rightarrow>
          (case m of
             Open i cid \<Rightarrow> (SessionContinue, session_open env i cid cn, w)
           | Ping nonce \<Rightarrow> (SessionContinue, offer (Pong nonce) cn, w)
           | Pong nonce \<Rightarrow>
               (case matching_pong nonce (cn_heartbeat cn) of
                  (Some sent_at, h) \<Rightarrow>
                    (SessionContinue,
                     on_client_counters (record_heartbeat_pong (sx_now env) sent_at) (cn\<lparr>cn_heartbeat := h\<rparr>), w)
                | (None, h) \<Rightarrow> (SessionContinue, cn\<lparr>cn_heartbeat := h\<rparr>, w))
           | RegisterAck i effective \<Rightarrow> session_ack env i effective cn w
           | Error code d \<Rightarrow> (case session_error code cn of (exit, cn) \<Rightarrow> (exit, cn, w))
           | RegisterReject i code d \<Rightarrow> (case session_reject i code cn of (exit, cn) \<Rightarrow> (exit, cn, w))
           | Drain deadline_ms \<Rightarrow>
               (SessionBreak, cn\<lparr>cn_peer_drain := Some deadline_ms, cn_cancelled := True\<rparr>, w)
           | _ \<Rightarrow> (SessionReturn (Protocol UnexpectedMessage), cn, w)))"

definition session_expire :: "session_env \<Rightarrow> client_session \<Rightarrow> session_exit \<times> client_session" where
  "session_expire env cn =
     (case expire_overdue (sx_now env) (cn_state cn) of (verdict, sent, st) \<Rightarrow>
        let cn = tell (map RegisterAnswer sent) (cn\<lparr>cn_state := st\<rparr>)
        in case verdict of
             ExpLegacy \<Rightarrow> (SessionBreak, cn\<lparr>cn_timed_out := True\<rparr>)
           | _ \<Rightarrow> (SessionContinue, cn))"

text \<open>The count of desired and outstanding services is compared with the ceiling in plain numbers:
  both are far below the range of \<open>usize\<close>.\<close>

definition session_register ::
  "session_env \<Rightarrow> client_service \<Rightarrow> reply \<Rightarrow> client_session \<Rightarrow> writer \<Rightarrow> session_exit \<times> client_session \<times> writer" where
  "session_register env service r cn w =
     (let st = cn_state cn; policy = ct_policy (cn_counters cn)
      in if rl_services_per_session (rp_limits policy) \<le> length (ss_desired st) + unacknowledged st
         then (SessionContinue, tell [RegisterAnswer (r, Err ResourceExhausted)] cn, w)
         else if r \<in> set (sx_closed env) then (SessionContinue, cn, w)
         else case begin_registration service (cn_generation cn) r st of
           (Inl (e, r), st) \<Rightarrow> (SessionContinue, tell [RegisterAnswer (r, Err e)] (cn\<lparr>cn_state := st\<rparr>), w)
         | (Inr _, st) \<Rightarrow>
             (case sx_elapsed env of
                None \<Rightarrow>
                  (case write_message (sx_postcard env) (RegisterService (registration_of service)) w of
                     (Inl e, w) \<Rightarrow> (SessionReturn e, cn\<lparr>cn_state := st\<rparr>, w)
                   | (Inr _, w) \<Rightarrow>
                       (SessionContinue, cn\<lparr>cn_state :=
                          arm_deadline (cs_id service) (sx_now env + to_handshake (rp_timeouts policy)) st\<rparr>, w))
              | Some n \<Rightarrow>
                  let w = snd (write_control (sx_postcard env) (Some n) (RegisterService (registration_of service)) w)
                  in (case ss_mode st of
                        LegacySerial \<Rightarrow>
                          (case pending_write_timeout st of (sent, st) \<Rightarrow>
                             (SessionBreak,
                              tell (map RegisterAnswer sent) (cn\<lparr>cn_state := st, cn_timed_out := True\<rparr>), w))
                      | CorrelatedBounded _ \<Rightarrow>
                          (case abandon (cs_id service) st of (sent, st) \<Rightarrow>
                             (SessionContinue, tell (map RegisterAnswer sent) (cn\<lparr>cn_state := st\<rparr>), w)))))"

definition session_unregister ::
  "session_env \<Rightarrow> service_id \<Rightarrow> reply \<Rightarrow> client_session \<Rightarrow> writer \<Rightarrow> session_exit \<times> client_session \<times> writer" where
  "session_unregister env i r cn w =
     (case unregister i (cn_state cn) of (was_present, sent, st) \<Rightarrow>
        let cn = tell (map RegisterAnswer sent) (cn\<lparr>cn_state := st\<rparr>);
            written = write_control (sx_postcard env) (sx_elapsed env) (UnregisterService i) w
        in if was_present
           then
             let cn = on_client_counters (retain_binds (\<lambda>(_, j, _). j \<noteq> i) \<circ> services_store st) cn
             in case written of
                  (Inl e, w) \<Rightarrow> (SessionReturn e, cn, w)
                | (Inr _, w) \<Rightarrow> (SessionContinue, tell [UnregisterAnswer r] cn, w)
           else (SessionContinue, tell [UnregisterAnswer r] cn, snd written))"

definition session_outgoing ::
  "session_env \<Rightarrow> client_session \<Rightarrow> writer \<Rightarrow> (session_exit \<times> client_session \<times> writer) option" where
  "session_outgoing env cn w =
     (case ch_queue (cn_out cn) of
        [] \<Rightarrow> None
      | m # later \<Rightarrow>
          let cn = cn\<lparr>cn_out := (cn_out cn)\<lparr>ch_queue := later\<rparr>\<rparr>
          in case write_control (sx_postcard env) (sx_elapsed env) m w of
               (Inl e, w) \<Rightarrow> Some (SessionReturn e, cn, w)
             | (Inr _, w) \<Rightarrow> Some (SessionContinue, cn, w))"

definition client_drain_ms :: "counters \<Rightarrow> u32" where
  "client_drain_ms c =
     (let ms = as_millis (to_relay_drain (rp_timeouts (ct_policy c)))
      in if ms < 2 ^ 32 then of_nat ms else - 1)"

definition session_cancel :: "session_env \<Rightarrow> client_session \<Rightarrow> writer \<Rightarrow> session_exit \<times> client_session \<times> writer" where
  "session_cancel env cn w =
     (SessionBreak, cn\<lparr>cn_cancelled := True\<rparr>,
      snd (write_control (sx_postcard env) (sx_elapsed env) (Drain (client_drain_ms (cn_counters cn))) w))"

text \<open>A finished task is reaped; its permit and its guard went when it ended (\<open>open_end\<close>).\<close>

datatype session_turn =
    TurnCancel
  | TurnHeartbeat
  | TurnDeadline
  | TurnRead "tunnel_error + message"
  | TurnWrite
  | TurnCommand client_command
  | TurnReap join_result

definition session_turn_step ::
  "session_env \<Rightarrow> session_turn \<Rightarrow> client_session \<Rightarrow> writer \<Rightarrow> (session_exit \<times> client_session \<times> writer) option" where
  "session_turn_step env turn cn w =
     (case turn of
        TurnCancel \<Rightarrow> Some (session_cancel env cn w)
      | TurnHeartbeat \<Rightarrow> Some (SessionContinue, session_heartbeat env cn, w)
      | TurnDeadline \<Rightarrow>
          (case next_deadline (cn_state cn) of
             None \<Rightarrow> None
           | Some deadline \<Rightarrow>
               if deadline \<le> sx_now env
               then (case session_expire env cn of (exit, cn) \<Rightarrow> Some (exit, cn, w)) else None)
      | TurnRead incoming \<Rightarrow> Some (session_incoming env incoming cn w)
      | TurnWrite \<Rightarrow> session_outgoing env cn w
      | TurnCommand (CmdRegister service r) \<Rightarrow> Some (session_register env service r cn w)
      | TurnCommand (CmdUnregister i r) \<Rightarrow> Some (session_unregister env i r cn w)
      | TurnReap result \<Rightarrow> Some (SessionContinue, on_client_counters (record_join_result result) cn, w))"

section \<open>Teardown\<close>

definition client_drain_wait :: "client_session \<Rightarrow> duration" where
  "client_drain_wait cn =
     (let grace = to_shutdown_grace (rp_timeouts (ct_policy (cn_counters cn)))
      in case cn_peer_drain cn of
           Some peer_ms \<Rightarrow>
             if has_cap (cn_negotiated cn) CAPABILITY_DRAIN_DEADLINE
             then min (from_millis (unat peer_ms)) grace else grace
         | None \<Rightarrow> grace)"

text \<open>Dropping the tasks: each releases its permit and its guard.\<close>

definition drop_opens :: "client_session \<Rightarrow> client_session" where
  "drop_opens cn =
     on_client_counters (\<lambda>c. c\<lparr>ct_open_tasks := ct_open_tasks c - of_nat (hm_len (cn_opens cn))\<rparr>)
       (cn\<lparr>cn_permits := cn_permits cn + hm_len (cn_opens cn), cn_opens := []\<rparr>)"

definition session_break :: "bool \<Rightarrow> client_session \<Rightarrow> (tunnel_error + unit) \<times> client_session" where
  "session_break cancelled cn =
     (let cn = on_client_counters (\<lambda>c. c\<lparr>ct_connected := 0\<rparr>) (drop_opens cn);
          e = (if cn_timed_out cn then Timeout else if cancelled then Cancelled else Disconnected)
      in case finish_pending e (cn_state cn) of (sent, st) \<Rightarrow>
           (if cn_timed_out cn then Err Timeout else Ok (),
            on_client_counters (\<lambda>c. c\<lparr>ct_sessions := 0\<rparr>)
              (tell (map RegisterAnswer sent) (cn\<lparr>cn_state := clear_active st\<rparr>))))"

text \<open>An early return drops the locals only.\<close>

definition session_return :: "tunnel_error \<Rightarrow> client_session \<Rightarrow> (tunnel_error + unit) \<times> client_session" where
  "session_return e cn = (Err e, on_client_counters (\<lambda>c. c\<lparr>ct_sessions := 0\<rparr>) (drop_opens cn))"

section \<open>Handling an open\<close>

text \<open>The outcome of a step raced against cancellation and a timeout.\<close>

datatype 'a raced = RaceCancelled | RaceTimeout | RaceDone 'a

definition race_result :: "('e \<Rightarrow> tunnel_error) \<Rightarrow> ('e + 'a) raced \<Rightarrow> tunnel_error + 'a" where
  "race_result convert outcome =
     (case outcome of
        RaceCancelled \<Rightarrow> Err Cancelled
      | RaceTimeout \<Rightarrow> Err Timeout
      | RaceDone result \<Rightarrow> map_err convert result)"

datatype target_error = TargetRefused | TargetFailed

fun target_tunnel_error :: "target_error \<Rightarrow> tunnel_error" where
  "target_tunnel_error TargetRefused = Target"
| "target_tunnel_error TargetFailed = Io (OtherIo 0)"

definition tcp_target_error :: "io_kind \<Rightarrow> target_error" where
  "tcp_target_error k = (if k = ConnectionRefused then TargetRefused else TargetFailed)"

datatype data_transport =
    DataStream bool "(tunnel_error + unit) raced" "(unit + unit) raced" "(unit + unit) raced"
  | DataQuic "(unit + unit) raced"

text \<open>The connection of the data stream: TCP with its own error, TLS, and WebSocket framing when
  chosen; or one QUIC stream.\<close>

fun open_data :: "data_transport \<Rightarrow> tunnel_error + unit" where
  "open_data (DataStream websocket tcp tls ws) =
     and_then (race_result (\<lambda>e. e) tcp) (\<lambda>_.
     and_then (race_result (\<lambda>_. Tls) tls) (\<lambda>_.
       if websocket then race_result (\<lambda>_. Tls) ws else Ok ()))"
| "open_data (DataQuic stream) = race_result (\<lambda>_. Disconnected) stream"

record open_env =
  oe_target :: "(target_error + unit) raced"
  oe_transport :: data_transport
  oe_hello_elapsed :: "nat option"
  oe_upstream :: u64
  oe_downstream :: u64

text \<open>The task up to the relay, whose report counts the same bytes on success and on failure. The
  task is in the table until its end, when the permit and the guard go.\<close>

definition open_connect ::
  "postcard \<Rightarrow> open_env \<Rightarrow> session_id \<Rightarrow> open_task \<Rightarrow> writer \<Rightarrow> (tunnel_error + unit) \<times> writer" where
  "open_connect pc env sid task data =
     (case and_then (race_result target_tunnel_error (oe_target env)) (\<lambda>_. open_data (oe_transport env)) of
        Inl e \<Rightarrow> (Err e, data)
      | Inr _ \<Rightarrow>
          handshake_write pc (oe_hello_elapsed env)
            (DataHello \<lparr>dh_session_id = sid, dh_service_id = cs_id (ot_service task),
              dh_connection_id = ot_connection task\<rparr>) data)"

definition handle_open :: "postcard \<Rightarrow> open_env \<Rightarrow> nat \<Rightarrow> writer \<Rightarrow> client_session \<Rightarrow> client_session \<times> writer" where
  "handle_open pc env tid data cn =
     (case hm_get (cn_opens cn) tid of
        None \<Rightarrow> (cn, data)
      | Some task \<Rightarrow>
          (case open_connect pc env (cn_session_id cn) task data of (result, data) \<Rightarrow>
             let cn = (case result of
                   Inr _ \<Rightarrow>
                     on_client_counters (\<lambda>c. c\<lparr>ct_bytes_upstream := ct_bytes_upstream c + oe_upstream env,
                       ct_bytes_downstream := ct_bytes_downstream c + oe_downstream env\<rparr>) cn
                 | Inl _ \<Rightarrow>
                     if cn_cancelled cn then cn
                     else case try_send (OpenReject (ot_connection task) 1) (cn_out cn) of
                            Some ch \<Rightarrow> cn\<lparr>cn_out := ch\<rparr>
                          | None \<Rightarrow> on_client_counters reject_count cn)
             in (on_client_counters (\<lambda>c. c\<lparr>ct_open_tasks := ct_open_tasks c - 1\<rparr>)
                   (cn\<lparr>cn_permits := cn_permits cn + 1, cn_opens := hm_remove tid (cn_opens cn)\<rparr>), data)))"

end
