(* ===== verification/Handshake.thy ===== *)
theory Handshake
  imports Server_Control Client_Session
begin

text \<open>
  Both ends of the handshake together: what the client writes is what the server reads and the other
  way round, over the byte streams between them.
\<close>

section \<open>Sending and receiving one message\<close>

definition carried :: "postcard \<Rightarrow> message \<Rightarrow> bytes \<Rightarrow> bool" where
  "carried pc m f \<longleftrightarrow>
     (\<forall>out. write_message pc m \<lparr>wr_out = out, wr_fault = None\<rparr> = (Ok (), \<lparr>wr_out = out @ f, wr_fault = None\<rparr>)) \<and>
     (\<forall>rest e. read_message pc \<lparr>rd_bytes = f @ rest, rd_end = e\<rparr> = (Ok m, \<lparr>rd_bytes = rest, rd_end = e\<rparr>))"

lemma carried_write: "carried pc m f \<Longrightarrow>
    write_message pc m \<lparr>wr_out = out, wr_fault = None\<rparr> = (Ok (), \<lparr>wr_out = out @ f, wr_fault = None\<rparr>)"
  by (simp add: carried_def)

lemma carried_read: "carried pc m f \<Longrightarrow>
    read_message pc \<lparr>rd_bytes = f @ rest, rd_end = e\<rparr> = (Ok m, \<lparr>rd_bytes = rest, rd_end = e\<rparr>)"
  by (simp add: carried_def)

lemma message_carried:
  assumes "postcard_bounded pc" and "wf_message m"
  obtains f where "carried pc m f"
proof -
  obtain f where f: "encode_frame pc m = Ok f" using frame_round_trip_ex [OF assms] by auto
  have "write_message pc m \<lparr>wr_out = out, wr_fault = None\<rparr> = (Ok (), \<lparr>wr_out = out @ f, wr_fault = None\<rparr>)" for out
    by (simp add: write_message_def f write_all_def)
  moreover have "read_message pc \<lparr>rd_bytes = f @ rest, rd_end = e\<rparr> = (Ok m, \<lparr>rd_bytes = rest, rd_end = e\<rparr>)" for rest e
    using read_message_encoded [OF assms f, where r = "\<lparr>rd_bytes = [], rd_end = e\<rparr>" and rest = rest] by simp
  ultimately show thesis by (intro that [of f]) (simp add: carried_def)
qed

definition client_in_time :: "client_handshake \<Rightarrow> bool" where
  "client_in_time env \<longleftrightarrow> hv_hello_elapsed env = None \<and> \<not> hv_server_elapsed env \<and> hv_auth_elapsed env = None \<and>
     \<not> hv_ok_elapsed env"

definition server_in_time :: "handshake_env \<Rightarrow> bool" where
  "server_in_time env \<longleftrightarrow> he_hello_elapsed env = None \<and> \<not> he_auth_elapsed env \<and> he_ok_elapsed env = None"

lemma supported_wf: "wf_caps capabilities_supported"
  by (simp add: wf_caps_def capabilities_supported_def const_defs)

lemma supported_self: "intersect capabilities_supported capabilities_supported = capabilities_supported"
  by (simp add: capabilities_supported_def const_defs)

lemma token_verified:
  assumes "\<And>a b. length a = length b \<Longrightarrow> ct_eq a b \<longleftrightarrow> a = b" and "length b \<le> MAX_AUTH_TOKEN_BYTES"
  shows "verify_token ct_eq (SecretToken b) b"
  using assms by (simp add: verify_token_def)

section \<open>Property\<close>



end
