(* ===== verification/Client_Correct.thy ===== *)
theory Client_Correct
  imports Handshake Event_System
begin

text \<open>
  Correctness of a client Session. The machine of its turns and open tasks keeps the registration
  state consistent and the counters exact.
\<close>

section \<open>The machine of a Session\<close>

text \<open>A turn of the loop, with a fresh name for a task it may spawn, or the end of an open task. The
  exit of a turn is not part of the state: the machine goes on, which covers every prefix.\<close>

datatype client_event =
    EvSessionTurn session_env session_turn writer
  | EvOpenEnd postcard open_env nat writer

fun client_step :: "client_session \<Rightarrow> client_event \<Rightarrow> client_session option" where
  "client_step cn (EvSessionTurn env turn w) =
     (if hm_get (cn_opens cn) (sx_task env) \<noteq> None then None
      else map_option (\<lambda>(_, cn, _). cn) (session_turn_step env turn cn w))"
| "client_step cn (EvOpenEnd pc env tid data) = Some (fst (handle_open pc env tid data cn))"

section \<open>Invariant\<close>

definition bind_ids :: "bind_entry list \<Rightarrow> service_id list" where
  "bind_ids = map (\<lambda>(_, i, _). i)"

definition binds_match :: "session_id \<Rightarrow> bind_entry list \<Rightarrow> (service_id, client_service) hashmap \<Rightarrow> bool" where
  "binds_match sid binds active \<longleftrightarrow>
     distinct (bind_ids binds) \<and> set (bind_ids binds) = dom (hm_get active) \<and> fst ` set binds \<subseteq> {sid}"

definition services_exact :: "client_session \<Rightarrow> bool" where
  "services_exact cn \<longleftrightarrow> ss_inv (cn_state cn) \<and>
     ct_services (cn_counters cn) = of_nat (hm_len (ss_active (cn_state cn))) \<and>
     binds_match (cn_session_id cn) (ct_binds (cn_counters cn)) (ss_active (cn_state cn))"

definition opens_exact :: "client_session \<Rightarrow> bool" where
  "opens_exact cn \<longleftrightarrow> hm_inv (cn_opens cn) \<and>
     ct_open_tasks (cn_counters cn) = of_nat (hm_len (cn_opens cn)) \<and>
     cn_permits cn + hm_len (cn_opens cn) = rl_client_open_tasks (rp_limits (ct_policy (cn_counters cn)))"

definition client_inv :: "client_session \<Rightarrow> bool" where
  "client_inv cn \<longleftrightarrow> services_exact cn \<and> opens_exact cn \<and> channel_ok (cn_out cn)"

section \<open>Lemmas\<close>

named_theorems client_simps "fields that an operation of the Session leaves alone"

definition service_counts :: "counters \<Rightarrow> usize \<times> bind_entry list" where
  "service_counts c = (ct_services c, ct_binds c)"

definition open_counts :: "counters \<Rightarrow> usize \<times> runtime_policy" where
  "open_counts c = (ct_open_tasks c, ct_policy c)"

lemma counts_simps [simp]:
  "service_counts (reject_count c) = service_counts c" "open_counts (reject_count c) = open_counts c"
  "service_counts (record_termination t c) = service_counts c" "open_counts (record_termination t c) = open_counts c"
  "service_counts (record_join_result j c) = service_counts c" "open_counts (record_join_result j c) = open_counts c"
  "service_counts (record_heartbeat_missed c) = service_counts c" "open_counts (record_heartbeat_missed c) = open_counts c"
  "service_counts (record_heartbeat_pong now sent c) = service_counts c" "open_counts (record_heartbeat_pong now sent c) = open_counts c"
  "service_counts (enter_open_tasks c) = service_counts c"
  "service_counts (c\<lparr>ct_open_tasks := n\<rparr>) = service_counts c"
  "service_counts (c\<lparr>ct_bytes_upstream := x, ct_bytes_downstream := y\<rparr>) = service_counts c"
  "open_counts (c\<lparr>ct_bytes_upstream := x, ct_bytes_downstream := y\<rparr>) = open_counts c"
  "open_counts (push_bind b c) = open_counts c" "open_counts (retain_binds P c) = open_counts c"
  "open_counts (services_store st c) = open_counts c" "open_counts (services_high_water st c) = open_counts c"
  by (simp_all add: service_counts_def open_counts_def reject_count_def record_termination_def record_join_result_def
      record_heartbeat_missed_def record_heartbeat_pong_def enter_open_tasks_def push_bind_def retain_binds_def
      services_store_def services_high_water_def)

text \<open>Each part of the invariant reads only some fields.\<close>

definition services_part :: "client_session \<Rightarrow> session_id \<times> service_state \<times> usize \<times> bind_entry list" where
  "services_part cn = (cn_session_id cn, cn_state cn, service_counts (cn_counters cn))"

definition opens_part :: "client_session \<Rightarrow> nat \<times> (nat, open_task) hashmap \<times> usize \<times> runtime_policy" where
  "opens_part cn = (cn_permits cn, cn_opens cn, open_counts (cn_counters cn))"

lemma services_part_exact: "services_part cn' = services_part cn \<Longrightarrow> services_exact cn' \<longleftrightarrow> services_exact cn"
  by (simp add: services_part_def services_exact_def service_counts_def)

lemma opens_part_exact: "opens_part cn' = opens_part cn \<Longrightarrow> opens_exact cn' \<longleftrightarrow> opens_exact cn"
  by (simp add: opens_part_def opens_exact_def open_counts_def)

lemma tell_parts [simp]:
  "services_part (tell sent cn) = services_part cn" "opens_part (tell sent cn) = opens_part cn" "cn_out (tell sent cn) = cn_out cn"
  "services_exact (tell sent cn) \<longleftrightarrow> services_exact cn" "opens_exact (tell sent cn) \<longleftrightarrow> opens_exact cn"
  by (simp_all add: tell_def services_part_def opens_part_def services_exact_def opens_exact_def)

lemma on_client_counters_fields [simp]:
  "cn_state (on_client_counters f cn) = cn_state cn" "cn_counters (on_client_counters f cn) = f (cn_counters cn)"
  "cn_out (on_client_counters f cn) = cn_out cn" "cn_permits (on_client_counters f cn) = cn_permits cn"
  "cn_opens (on_client_counters f cn) = cn_opens cn" "cn_session_id (on_client_counters f cn) = cn_session_id cn"
  by (simp_all add: on_client_counters_def)

lemma counters_parts:
  "service_counts (f (cn_counters cn)) = service_counts (cn_counters cn) \<Longrightarrow> services_part (on_client_counters f cn) = services_part cn"
  "open_counts (f (cn_counters cn)) = open_counts (cn_counters cn) \<Longrightarrow> opens_part (on_client_counters f cn) = opens_part cn"
  by (simp_all add: services_part_def opens_part_def)

lemma offer_parts [simp]: "services_part (offer m cn) = services_part cn" "opens_part (offer m cn) = opens_part cn"
  by (simp_all add: offer_def services_part_def opens_part_def split: option.split)

lemma offer_ok [simp]: "channel_ok (cn_out cn) \<Longrightarrow> channel_ok (cn_out (offer m cn))"
  by (auto simp: offer_def dest: try_send_ok split: option.split)

lemma client_invI:
  assumes "client_inv cn" and "services_part cn' = services_part cn" and "opens_part cn' = opens_part cn"
    and "channel_ok (cn_out cn) \<Longrightarrow> channel_ok (cn_out cn')"
  shows "client_inv cn'"
  using assms services_part_exact [of cn' cn] opens_part_exact [of cn' cn] by (simp add: client_inv_def)

lemma client_inv_services:
  "client_inv cn \<Longrightarrow> services_exact cn' \<Longrightarrow> opens_part cn' = opens_part cn \<Longrightarrow> cn_out cn' = cn_out cn \<Longrightarrow> client_inv cn'"
  using opens_part_exact [of cn' cn] by (simp add: client_inv_def)

text \<open>Operations of the registration state that leave the active services alone.\<close>

lemma active_simps [simp]:
  "ss_active (snd (begin_registration s g r st)) = ss_active st"
  "ss_active (arm_deadline i d st) = ss_active st"
  "ss_active (snd (pending_write_timeout st)) = ss_active st"
  "ss_active (snd (take_ack closed i g st)) = ss_active st"
  "ss_active (snd (take_reject i g st)) = ss_active st"
  "ss_active (snd (reject st)) = ss_active st"
  "ss_active (snd (abandon i st)) = ss_active st"
  "ss_active (snd (snd (expire_overdue now st))) = ss_active st"
  by (auto simp: begin_registration_def arm_deadline_def pending_write_timeout_def take_ack_def take_transaction_def
      take_reject_def reject_def abandon_def tombstone_def expire_overdue_def Let_def
      split: option.splits registration_mode.splits)

lemma state_update_inv:
  assumes "client_inv cn" and "ss_inv st" and "ss_active st = ss_active (cn_state cn)"
  shows "client_inv (cn\<lparr>cn_state := st\<rparr>)"
  using assms by (simp add: client_inv_def services_exact_def opens_exact_def)

lemma tell_inv [simp]: "client_inv (tell sent cn) \<longleftrightarrow> client_inv cn"
  by (simp add: client_inv_def)

section \<open>Turns\<close>

lemma heartbeat_inv: "client_inv cn \<Longrightarrow> client_inv (session_heartbeat env cn)"
  by (erule client_invI)
    (auto simp: session_heartbeat_def next_nonce_def services_part_def opens_part_def dest: try_send_ok split: option.split)

lemma open_grow:
  assumes "opens_exact cn" and "hm_get (cn_opens cn) tid = None" and "cn_permits cn \<noteq> 0"
  shows "opens_exact (on_client_counters enter_open_tasks
    (cn\<lparr>cn_permits := cn_permits cn - 1, cn_opens := hm_insert tid task (cn_opens cn)\<rparr>))"
proof -
  have "hm_len (hm_insert tid task (cn_opens cn)) = Suc (hm_len (cn_opens cn))"
    using assms by (intro hm.len_insert_fresh) (simp_all add: opens_exact_def)
  then show ?thesis using assms by (simp add: opens_exact_def enter_open_tasks_def)
qed

lemma open_inv:
  assumes "client_inv cn" and "hm_get (cn_opens cn) (sx_task env) = None"
  shows "client_inv (session_open env i cid cn)"
proof (cases "hm_get (ss_active (cn_state cn)) i = None \<or> cn_permits cn = 0")
  case True
  then show ?thesis
    using assms(1) by (elim disjE; intro client_invI [OF assms(1)])
      (auto simp: session_open_def counters_parts split: option.split)
next
  case False
  then obtain service where s: "hm_get (ss_active (cn_state cn)) i = Some service" "cn_permits cn \<noteq> 0" by auto
  let ?cn = "cn\<lparr>cn_permits := cn_permits cn - 1,
    cn_opens := hm_insert (sx_task env) \<lparr>ot_service = service, ot_connection = cid\<rparr> (cn_opens cn)\<rparr>"
  have "services_part (on_client_counters enter_open_tasks ?cn) = services_part cn"
    by (simp add: counters_parts) (simp add: services_part_def)
  then show ?thesis
    using assms s open_grow [OF _ assms(2) s(2)] services_part_exact [of "on_client_counters enter_open_tasks ?cn" cn]
    by (simp add: client_inv_def session_open_def)
qed

lemma commit_exact:
  assumes "services_exact cn" and "ss_inv (commit s st)" and "clash_free s st" and "ss_inv st"
    and "ss_active st = ss_active (cn_state cn)"
  shows "services_exact (on_client_counters
    (services_high_water (commit s st) \<circ> services_store (commit s st) \<circ> push_bind (cn_session_id cn, cs_id s, e))
    (cn\<lparr>cn_state := commit s st\<rparr>))"
proof -
  have "hm_get (ss_active st) (cs_id s) = None"
  proof (rule ccontr)
    assume "hm_get (ss_active st) (cs_id s) \<noteq> None"
    then obtain t where "hm_get (ss_active st) (cs_id s) = Some t" by auto
    then have "t \<in> set (ss_desired st)" "cs_id t = cs_id s" using assms(4) by (auto simp: ss_inv_def ss_actives_def)
    then show False using assms(3) by (auto simp: clash_free_def same_service_def)
  qed
  moreover have "binds_match (cn_session_id cn) (ct_binds (cn_counters cn)) (ss_active st)"
    using assms(1,5) by (simp add: services_exact_def)
  ultimately have "binds_match (cn_session_id cn) (ct_binds (cn_counters cn) @ [(cn_session_id cn, cs_id s, e)])
      (ss_active (commit s st))"
    by (auto simp: binds_match_def bind_ids_def commit_def)
  then show ?thesis
    using assms(2) by (simp add: services_exact_def services_high_water_def services_store_def push_bind_def)
qed

lemma ack_inv:
  assumes inv: "client_inv cn" and ack: "session_ack env i e cn w = (exit, cn', w')"
  shows "client_inv cn'"
proof -
  let ?closed = "\<lambda>r. r \<in> set (sx_closed env)"
  obtain d st where d: "take_ack ?closed i (cn_generation cn) (cn_state cn) = (d, st)" by fastforce
  have ss: "ss_inv (cn_state cn)" using inv by (simp add: client_inv_def services_exact_def)
  have st: "ss_inv st" "ss_active st = ss_active (cn_state cn)"
    using take_ack_inv [OF ss, of ?closed i "cn_generation cn"] active_simps(4) [of ?closed i "cn_generation cn" "cn_state cn"] d
    by simp_all
  show ?thesis
  proof (cases d)
    case (AckCommit s r)
    have clash: "clash_free s st" using take_ack_commit [OF ss] d AckCommit by blast
    have "services_exact (on_client_counters
        (services_high_water (commit s st) \<circ> services_store (commit s st) \<circ> push_bind (cn_session_id cn, cs_id s, e))
        (cn\<lparr>cn_state := commit s st\<rparr>))"
      using inv clash st by (intro commit_exact) (simp_all add: client_inv_def commit_inv)
    moreover have "opens_part (on_client_counters
        (services_high_water (commit s st) \<circ> services_store (commit s st) \<circ> push_bind (cn_session_id cn, cs_id s, e))
        (cn\<lparr>cn_state := commit s st\<rparr>)) = opens_part cn"
      by (simp add: counters_parts) (simp add: opens_part_def)
    ultimately have "client_inv (on_client_counters
        (services_high_water (commit s st) \<circ> services_store (commit s st) \<circ> push_bind (cn_session_id cn, cs_id s, e))
        (cn\<lparr>cn_state := commit s st\<rparr>))"
      by (rule client_inv_services [OF inv]) simp
    then show ?thesis using ack d AckCommit by (auto simp: session_ack_def Let_def)
  qed (use ack d state_update_inv [OF inv st] in \<open>auto simp: session_ack_def\<close>)
qed

lemma bind_ids_filter: "bind_ids (filter (\<lambda>(_, j, _). j \<noteq> i) binds) = filter (\<lambda>j. j \<noteq> i) (bind_ids binds)"
  by (induction binds) (auto simp: bind_ids_def)

lemma unregister_exact:
  assumes inv: "client_inv cn" and u: "unregister i (cn_state cn) = (was, sent, st)"
  shows "if was then client_inv (on_client_counters (retain_binds (\<lambda>(_, j, _). j \<noteq> i) \<circ> services_store st) (cn\<lparr>cn_state := st\<rparr>))
    else client_inv (cn\<lparr>cn_state := st\<rparr>)"
proof -
  have ss: "ss_inv (cn_state cn)" and b: "binds_match (cn_session_id cn) (ct_binds (cn_counters cn)) (ss_active (cn_state cn))"
    using inv by (simp_all add: client_inv_def services_exact_def)
  have st: "ss_inv st" using unregister_inv [OF ss, of i] u by simp
  have active: "ss_active st = hm_remove i (ss_active (cn_state cn))" and was: "was = hm_contains (ss_active (cn_state cn)) i"
    using u by (auto simp: unregister_def Let_def tombstone_def split: option.splits if_splits)
  show ?thesis
  proof (cases was)
    case True
    have "binds_match (cn_session_id cn) (filter (\<lambda>(_, j, _). j \<noteq> i) (ct_binds (cn_counters cn))) (ss_active st)"
      using b unfolding active binds_match_def bind_ids_filter hm.dom_remove by auto
    then have "services_exact (on_client_counters (retain_binds (\<lambda>(_, j, _). j \<noteq> i) \<circ> services_store st) (cn\<lparr>cn_state := st\<rparr>))"
      using st by (simp add: services_exact_def retain_binds_def services_store_def)
    moreover have "opens_part (on_client_counters (retain_binds (\<lambda>(_, j, _). j \<noteq> i) \<circ> services_store st) (cn\<lparr>cn_state := st\<rparr>)) = opens_part cn"
      by (simp add: counters_parts) (simp add: opens_part_def)
    ultimately have "client_inv (on_client_counters (retain_binds (\<lambda>(_, j, _). j \<noteq> i) \<circ> services_store st) (cn\<lparr>cn_state := st\<rparr>))"
      by (rule client_inv_services [OF inv]) simp
    then show ?thesis using True by simp
  next
    case False
    then have "ss_active st = ss_active (cn_state cn)"
      using active was by (simp add: hm_contains_def hm_remove_absent)
    then show ?thesis using False state_update_inv [OF inv st] by simp
  qed
qed

lemma error_inv: "client_inv cn \<Longrightarrow> session_error code cn = (exit, cn') \<Longrightarrow> client_inv cn'"
proof -
  assume inv: "client_inv cn" and step: "session_error code cn = (exit, cn')"
  obtain r st where r: "reject (cn_state cn) = (r, st)" by fastforce
  have "client_inv (cn\<lparr>cn_state := st\<rparr>)"
    using inv reject_inv [of "cn_state cn"] active_simps(6) [of "cn_state cn"] r
    by (intro state_update_inv) (simp_all add: client_inv_def services_exact_def)
  then show ?thesis using step r by (auto simp: session_error_def split: option.splits)
qed

lemma session_reject_inv: "client_inv cn \<Longrightarrow> session_reject i code cn = (exit, cn') \<Longrightarrow> client_inv cn'"
proof -
  assume inv: "client_inv cn" and step: "session_reject i code cn = (exit, cn')"
  obtain d st where d: "take_reject i (cn_generation cn) (cn_state cn) = (d, st)" by fastforce
  have "client_inv (cn\<lparr>cn_state := st\<rparr>)"
    using inv take_reject_inv [of "cn_state cn" i "cn_generation cn"] active_simps(5) [of i "cn_generation cn" "cn_state cn"] d
    by (intro state_update_inv) (simp_all add: client_inv_def services_exact_def)
  then show ?thesis using step d inv by (auto simp: session_reject_def split: if_splits reject_disposition.splits)
qed

lemma incoming_inv:
  assumes inv: "client_inv cn" and fresh: "hm_get (cn_opens cn) (sx_task env) = None"
    and step: "session_incoming env incoming cn w = (exit, cn', w')"
  shows "client_inv cn'"
proof (cases incoming)
  case (Inr m)
  have same: "client_inv (cn\<lparr>cn_heartbeat := h\<rparr>)" "client_inv (cn\<lparr>cn_peer_drain := x, cn_cancelled := y\<rparr>)" for h x y
    using inv by (simp_all add: client_inv_def services_exact_def opens_exact_def)
  show ?thesis
  proof (cases m)
    case (Open i cid)
    then show ?thesis using Inr step open_inv [OF inv fresh] by (auto simp: session_incoming_def)
  next
    case (RegisterAck i e)
    then show ?thesis using Inr step ack_inv [OF inv] by (auto simp: session_incoming_def)
  next
    case (Error code d)
    then show ?thesis using Inr step error_inv [OF inv] by (auto simp: session_incoming_def split: prod.splits)
  next
    case (RegisterReject i code d)
    then show ?thesis using Inr step session_reject_inv [OF inv] by (auto simp: session_incoming_def split: prod.splits)
  next
    case (Ping nonce)
    then show ?thesis using Inr step client_invI [OF inv, of "offer (Pong nonce) cn"] by (auto simp: session_incoming_def)
  next
    case (Pong nonce)
    have "client_inv (on_client_counters (record_heartbeat_pong now sent) (cn\<lparr>cn_heartbeat := h\<rparr>))" for now sent h
      by (rule client_invI [OF same(1)]) (simp_all add: counters_parts)
    then show ?thesis using Pong Inr step same(1)
      by (auto simp: session_incoming_def split: prod.splits option.splits)
  qed (use Inr step inv same(2) in \<open>auto simp: session_incoming_def\<close>)
qed (use step inv in \<open>auto simp: session_incoming_def\<close>)

lemma expire_inv: "client_inv cn \<Longrightarrow> session_expire env cn = (exit, cn') \<Longrightarrow> client_inv cn'"
proof -
  assume inv: "client_inv cn" and step: "session_expire env cn = (exit, cn')"
  obtain v sent st where v: "expire_overdue (sx_now env) (cn_state cn) = (v, sent, st)" by (metis prod_cases3)
  have "client_inv (cn\<lparr>cn_state := st\<rparr>)"
    using inv expire_overdue_inv [of "cn_state cn" "sx_now env"] active_simps(8) [of "sx_now env" "cn_state cn"] v
    by (intro state_update_inv) (simp_all add: client_inv_def services_exact_def)
  then have "client_inv ((tell (map RegisterAnswer sent) (cn\<lparr>cn_state := st\<rparr>))\<lparr>cn_timed_out := b\<rparr>)" for b
    by (simp add: client_inv_def services_exact_def opens_exact_def tell_def)
  then show ?thesis
    using step v \<open>client_inv (cn\<lparr>cn_state := st\<rparr>)\<close> by (auto simp: session_expire_def Let_def split: expiry.splits)
qed

lemma unregister_turn_inv:
  assumes inv: "client_inv cn" and step: "session_unregister env i r cn w = (exit, cn', w')"
  shows "client_inv cn'"
proof -
  obtain was sent st where u: "unregister i (cn_state cn) = (was, sent, st)" by (metis prod_cases3)
  have move: "on_client_counters f (tell x (cn\<lparr>cn_state := st\<rparr>)) = tell x (on_client_counters f (cn\<lparr>cn_state := st\<rparr>))" for f x
    by (simp add: tell_def on_client_counters_def)
  show ?thesis
    using step u unregister_exact [OF inv u]
    by (auto simp: session_unregister_def Let_def move split: if_splits prod.splits sum.splits)
qed



lemma register_turn_inv:
  assumes inv: "client_inv cn" and step: "session_register env s r cn w = (exit, cn', w')"
  shows "client_inv cn'"
proof -
  have ss: "ss_inv (cn_state cn)" using inv by (simp add: client_inv_def services_exact_def)
  obtain res st where b: "begin_registration s (cn_generation cn) r (cn_state cn) = (res, st)" by fastforce
  have st: "ss_inv st" "ss_active st = ss_active (cn_state cn)"
    using begin_registration_inv [OF ss, of s "cn_generation cn" r] active_simps(1) [of s "cn_generation cn" r "cn_state cn"] b by simp_all
  have upd: "client_inv (cn\<lparr>cn_state := st'\<rparr>)" if "ss_inv st'" "ss_active st' = ss_active st" for st'
    using that st state_update_inv [OF inv] by simp
  have upd2: "client_inv (cn\<lparr>cn_state := st', cn_timed_out := b\<rparr>)" if "ss_inv st'" "ss_active st' = ss_active st" for st' b
    using upd [OF that] by (simp add: client_inv_def services_exact_def opens_exact_def)
  obtain tsent tst where t: "pending_write_timeout st = (tsent, tst)" by fastforce
  obtain asent ast where a: "abandon (cs_id s) st = (asent, ast)" by fastforce
  have late: "client_inv (cn\<lparr>cn_state := tst, cn_timed_out := True\<rparr>)" "client_inv (cn\<lparr>cn_state := ast\<rparr>)"
    using upd2 [OF pending_write_timeout_inv [OF st(1)] active_simps(3)] upd [OF abandon_inv [OF st(1)] active_simps(7)] t a
    by (metis snd_conv)+
  note arm = upd [OF arm_deadline_inv [OF st(1)] active_simps(2)]
  show ?thesis
    using step b t a inv upd [OF st(1) refl] arm late
    by (auto simp: session_register_def Let_def split: if_splits sum.splits option.splits registration_mode.splits prod.splits)
qed

lemma outgoing_inv:
  assumes inv: "client_inv cn" and step: "session_outgoing env cn w = Some (exit, cn', w')"
  shows "client_inv cn'"
proof -
  obtain m later where q: "ch_queue (cn_out cn) = m # later"
    using step by (auto simp: session_outgoing_def split: list.splits)
  have "client_inv (cn\<lparr>cn_out := (cn_out cn)\<lparr>ch_queue := later\<rparr>\<rparr>)"
    using inv q by (simp add: client_inv_def services_exact_def opens_exact_def channel_ok_def)
  then show ?thesis using step q by (auto simp: session_outgoing_def Let_def split: prod.splits sum.splits)
qed

lemma turn_inv:
  assumes inv: "client_inv cn" and fresh: "hm_get (cn_opens cn) (sx_task env) = None"
    and step: "session_turn_step env turn cn w = Some (exit, cn', w')"
  shows "client_inv cn'"
proof (cases turn)
  case TurnCancel
  then show ?thesis
    using step inv by (auto simp: session_turn_step_def session_cancel_def client_inv_def services_exact_def opens_exact_def)
next
  case TurnHeartbeat
  then show ?thesis using step heartbeat_inv [OF inv] by (auto simp: session_turn_step_def)
next
  case TurnDeadline
  then show ?thesis
    using step expire_inv [OF inv] by (auto simp: session_turn_step_def split: option.splits if_splits prod.splits)
next
  case (TurnRead incoming)
  then show ?thesis using step incoming_inv [OF inv fresh] by (auto simp: session_turn_step_def)
next
  case TurnWrite
  then show ?thesis using step outgoing_inv [OF inv] by (auto simp: session_turn_step_def)
next
  case (TurnCommand command)
  then show ?thesis
    using step register_turn_inv [OF inv] unregister_turn_inv [OF inv]
    by (cases command) (auto simp: session_turn_step_def)
next
  case (TurnReap result)
  then show ?thesis
    using step client_invI [OF inv, of "on_client_counters (record_join_result result) cn"]
    by (auto simp: session_turn_step_def counters_parts)
qed

lemma open_end_inv:
  assumes inv: "client_inv cn" and t: "hm_get (cn_opens cn) tid = Some task"
  shows "client_inv (on_client_counters (\<lambda>c. c\<lparr>ct_open_tasks := ct_open_tasks c - 1\<rparr>)
    (cn\<lparr>cn_permits := cn_permits cn + 1, cn_opens := hm_remove tid (cn_opens cn)\<rparr>))"
proof -
  have "hm_len (cn_opens cn) = Suc (hm_len (hm_remove tid (cn_opens cn)))"
    using inv t by (intro hm.len_remove_present) (auto simp: client_inv_def opens_exact_def)
  then show ?thesis using inv by (simp add: client_inv_def services_exact_def opens_exact_def)
qed

lemma handle_open_inv: "client_inv cn \<Longrightarrow> client_inv (fst (handle_open pc env tid data cn))"
proof (cases "hm_get (cn_opens cn) tid")
  case (Some task)
  assume inv: "client_inv cn"
  have counted: "client_inv (on_client_counters f cn) \<and> hm_get (cn_opens (on_client_counters f cn)) tid = Some task"
    if "service_counts (f (cn_counters cn)) = service_counts (cn_counters cn)" "open_counts (f (cn_counters cn)) = open_counts (cn_counters cn)" for f
    using that client_invI [OF inv, of "on_client_counters f cn"] Some by (simp add: counters_parts)
  have sent: "client_inv (cn\<lparr>cn_out := ch\<rparr>) \<and> hm_get (cn_opens (cn\<lparr>cn_out := ch\<rparr>)) tid = Some task"
    if "try_send m (cn_out cn) = Some ch" for m ch
    using inv try_send_ok [OF that] Some by (simp add: client_inv_def services_exact_def opens_exact_def)
  have ended: "client_inv (on_client_counters (\<lambda>c. c\<lparr>ct_open_tasks := ct_open_tasks c - 1\<rparr>)
      (cn'\<lparr>cn_permits := cn_permits cn' + 1, cn_opens := hm_remove tid (cn_opens cn')\<rparr>))"
    if "client_inv cn' \<and> hm_get (cn_opens cn') tid = Some task" for cn'
    using that open_end_inv by blast
  let ?mid = "case fst (open_connect pc env (cn_session_id cn) task data) of
      Inr _ \<Rightarrow> on_client_counters (\<lambda>c. c\<lparr>ct_bytes_upstream := ct_bytes_upstream c + oe_upstream env,
        ct_bytes_downstream := ct_bytes_downstream c + oe_downstream env\<rparr>) cn
    | Inl _ \<Rightarrow> if cn_cancelled cn then cn
        else case try_send (OpenReject (ot_connection task) 1) (cn_out cn) of
               Some ch \<Rightarrow> cn\<lparr>cn_out := ch\<rparr> | None \<Rightarrow> on_client_counters reject_count cn"
  have "client_inv ?mid \<and> hm_get (cn_opens ?mid) tid = Some task"
    using inv Some sent counted [of reject_count]
      counted [of "\<lambda>c. c\<lparr>ct_bytes_upstream := ct_bytes_upstream c + oe_upstream env,
        ct_bytes_downstream := ct_bytes_downstream c + oe_downstream env\<rparr>"]
    by (simp split: sum.split option.split)
  from ended [OF this] show ?thesis using Some by (simp add: handle_open_def Let_def case_prod_beta)
qed (simp add: handle_open_def)

interpretation cli: invariant_system client_step client_inv
proof unfold_locales
  fix s e t assume "client_inv s" "client_step s e = Some t"
  then show "client_inv t"
    by (cases e) (auto split: if_splits intro: turn_inv handle_open_inv)
qed

section \<open>Start and end\<close>

lemma initial_registration_counters:
  "initial_registration env sid ss rd w c = (Ok (), rd', w', c') \<Longrightarrow>
     \<exists>es. length es = length ss \<and> c' = c\<lparr>ct_binds := ct_binds c @ map (\<lambda>(s, e). (sid, cs_id s, e)) (zip ss es)\<rparr>"
proof (induction env sid ss rd w c rule: initial_registration.induct)
  case (2 env sid service rest rd w c)
  then obtain w1 rd1 i e where step: "i = cs_id service"
    "initial_registration env sid rest rd1 w1 (push_bind (sid, cs_id service, e) c) = (Ok (), rd', w', c')"
    and ih: "initial_registration env sid rest rd1 w1 (push_bind (sid, cs_id service, e) c) = (Ok (), rd', w', c') \<Longrightarrow>
      \<exists>es. length es = length rest \<and> c' = (push_bind (sid, cs_id service, e) c)\<lparr>ct_binds :=
        ct_binds (push_bind (sid, cs_id service, e) c) @ map (\<lambda>(s, e). (sid, cs_id s, e)) (zip rest es)\<rparr>"
    by (auto split: sum.splits prod.splits message.splits if_splits)
  then obtain es where "length es = length rest" "c' = (push_bind (sid, cs_id service, e) c)\<lparr>ct_binds :=
        ct_binds (push_bind (sid, cs_id service, e) c) @ map (\<lambda>(s, e). (sid, cs_id s, e)) (zip rest es)\<rparr>" by blast
  then show ?case by (intro exI [of _ "e # es"]) (simp add: push_bind_def)
qed (auto intro!: exI [of _ "[]"])

lemma activate_initial_dom: "dom (hm_get (ss_active (activate_initial st))) = cs_id ` set (ss_desired st)"
proof -
  have "dom (hm_get (foldl (\<lambda>m s. hm_insert (cs_id s) s m) m ss)) = dom (hm_get m) \<union> cs_id ` set ss" for m ss
    by (induction ss arbitrary: m) (simp_all add: hm.dom_insert)
  from this [of "[]" "ss_desired st"] show ?thesis by (simp add: activate_initial_def hm.dom_empty)
qed

lemma bind_ids_zip: "length es = length ss \<Longrightarrow> bind_ids (map (\<lambda>(s, e). (sid, cs_id s, e)) (zip ss es)) = map cs_id ss"
proof (induction ss arbitrary: es)
  case (Cons s ss)
  then show ?case by (cases es) (simp_all add: bind_ids_def)
qed (simp add: bind_ids_def)

lemma session_ready_inv:
  assumes "ss_inv st" and "ct_binds c = map (\<lambda>(s, e). (sid, cs_id s, e)) (zip (ss_desired st) es)"
    and "length es = length (ss_desired st)" and "ct_open_tasks c = 0"
  shows "client_inv (session_ready sid negotiated generation st sent c)"
proof -
  let ?st = "activate_initial st"
  have d: "distinct (map cs_id (ss_desired st))" using assms(1) by (simp add: ss_inv_def ss_unique_def unique_services_def)
  have "hm_inv (ss_active ?st)" using activate_initial_inv [OF assms(1)] by (simp add: ss_inv_def ss_tables_def)
  then have "hm_len (ss_active ?st) = card (cs_id ` set (ss_desired st))"
    using hm.len_card activate_initial_dom by metis
  then have len: "hm_len (ss_active ?st) = length (ss_desired st)"
    using distinct_card [OF d] by simp
  have "bind_ids (ct_binds c) = map cs_id (ss_desired st)"
    unfolding assms(2) using assms(3) by (rule bind_ids_zip)
  then have "binds_match sid (ct_binds c) (ss_active ?st)"
    using d activate_initial_dom [of st] assms(2) by (auto simp: binds_match_def)
  then show ?thesis
    using assms(4) len activate_initial_inv [OF assms(1)]
    by (simp add: client_inv_def services_exact_def opens_exact_def session_ready_def Let_def activate_initial_def)
qed

lemma session_start_inv:
  assumes "ss_inv (sup_services s)" and "ct_binds c = []" and "ct_open_tasks c = 0"
    and "session_start env rd w s c = (Inr cn, s', rd', w')"
  shows "client_inv cn"
proof -
  obtain negotiated sid rd1 w1 g c1 sent st rd2 w2 c2 where
    g: "begin_session (hv_observed env) c = (Ok g, c1)"
    and m: "set_mode (session_mode negotiated c1) (sup_services s) = (sent, st)"
    and init: "initial_registration env sid (ss_desired (clear_active st)) rd1 w1 c1 = (Ok (), rd2, w2, c2)"
    and cn: "cn = session_ready sid negotiated g (clear_active st) (map RegisterAnswer sent) c2"
    using assms(4) by (auto simp: session_start_def Let_def split: prod.splits sum.splits)
  have st: "ss_inv (clear_active st)"
    using set_mode_inv [OF assms(1)] m clear_active_inv by (metis snd_conv)
  have c1: "ct_binds c1 = []" "ct_open_tasks c1 = 0"
    using g assms(2,3) by (auto simp: begin_session_def split: sum.splits)
  obtain es where "length es = length (ss_desired (clear_active st))"
    "c2 = c1\<lparr>ct_binds := ct_binds c1 @ map (\<lambda>(s, e). (sid, cs_id s, e)) (zip (ss_desired (clear_active st)) es)\<rparr>"
    using initial_registration_counters [OF init] by blast
  with st c1 show ?thesis unfolding cn by (intro session_ready_inv [where es = es]) simp_all
qed

section \<open>A read that is given up\<close>

lemma frame_starts: "encode_frame pc m = Ok f \<Longrightarrow> \<exists>y. f = [69, 84, 85, 78, 0] @ y"
  by (auto simp: encode_frame_Ok header_def MAGIC_def be16_def const_defs)

lemma bad_magic_read:
  assumes "HEADER_LEN \<le> length d" and "take 4 d \<noteq> MAGIC"
  shows "fst (read_message pc \<lparr>rd_bytes = d, rd_end = e\<rparr>) = Err (Protocol InvalidMagic)"
proof -
  have "take 4 (take HEADER_LEN d) = take 4 d" by (simp add: HEADER_LEN_def)
  then have "decode_frame pc (take HEADER_LEN d) = Err InvalidMagic"
    using assms by (simp add: decode_frame_def)
  then show ?thesis using assms(1) by (simp add: read_message_def read_exact_def)
qed

section \<open>Properties\<close>

text \<open>C9: a client Session keeps exact books. From the moment it is ready, through every sequence of
  control turns and open tasks, the snapshot reports the active services and one bind for each of
  them under the identifier of the Session, and exactly the open tasks that run, at most the
  configured number; the registration state stays consistent and the queue within its capacity.
  When the loop ends, no task, no active service and no outstanding registration is left and the
  Session is reported closed; an early return also leaves no task behind.\<close>

theorem client_session_exact:
  assumes start: "session_start env rd w s c = (Inr cn0, s', rd', w')"
    and fresh: "ss_inv (sup_services s)" "ct_binds c = []" "ct_open_tasks c = 0"
    and run: "run_events client_step cn0 evs = Some cn" and snap: "sn = take_snapshot now (cn_counters cn)"
  shows "sn_registered_services sn = of_nat (hm_len (ss_active (cn_state cn))) \<and>
    distinct (bind_ids (sn_effective_binds sn)) \<and>
    (\<forall>i. i \<in> set (bind_ids (sn_effective_binds sn)) \<longleftrightarrow> hm_get (ss_active (cn_state cn)) i \<noteq> None) \<and>
    fst ` set (sn_effective_binds sn) \<subseteq> {cn_session_id cn} \<and>
    sn_active_client_open_tasks sn = of_nat (hm_len (cn_opens cn)) \<and>
    hm_len (cn_opens cn) \<le> rl_client_open_tasks (rp_limits (ct_policy (cn_counters cn))) \<and>
    ss_inv (cn_state cn) \<and> length (ch_queue (cn_out cn)) \<le> ch_capacity (cn_out cn) \<and>
    (\<forall>cancelled result cn'. session_break cancelled cn = (result, cn') \<longrightarrow>
       ct_open_tasks (cn_counters cn') = 0 \<and> ct_connected (cn_counters cn') = 0 \<and> ct_sessions (cn_counters cn') = 0 \<and>
       unacknowledged (cn_state cn') = 0 \<and> ss_active (cn_state cn') = []) \<and>
    (\<forall>e result cn'. session_return e cn = (result, cn') \<longrightarrow>
       ct_open_tasks (cn_counters cn') = 0 \<and> ct_sessions (cn_counters cn') = 0)"
proof -
  have inv: "client_inv cn" using cli.run_inv [OF session_start_inv [OF fresh start] run] .
  have a: "ct_services (cn_counters cn) = of_nat (hm_len (ss_active (cn_state cn)))"
    "distinct (bind_ids (ct_binds (cn_counters cn)))" "set (bind_ids (ct_binds (cn_counters cn))) = dom (hm_get (ss_active (cn_state cn)))"
    "fst ` set (ct_binds (cn_counters cn)) \<subseteq> {cn_session_id cn}" "ss_inv (cn_state cn)"
    using inv by (simp_all add: client_inv_def services_exact_def binds_match_def)
  have b: "ct_open_tasks (cn_counters cn) = of_nat (hm_len (cn_opens cn))"
    "hm_len (cn_opens cn) \<le> rl_client_open_tasks (rp_limits (ct_policy (cn_counters cn)))" "channel_ok (cn_out cn)"
    using inv by (simp_all add: client_inv_def opens_exact_def)
  have ended: "ct_open_tasks (cn_counters cn') = 0 \<and> ct_connected (cn_counters cn') = 0 \<and> ct_sessions (cn_counters cn') = 0 \<and>
       unacknowledged (cn_state cn') = 0 \<and> ss_active (cn_state cn') = []"
    if "session_break cancelled cn = (result, cn')" for cancelled result cn'
    using that b(1) by (auto simp: session_break_def drop_opens_def Let_def finish_pending_def clear_active_def
        tell_def unacknowledged_def hm_len_def)
  have returned: "ct_open_tasks (cn_counters cn') = 0 \<and> ct_sessions (cn_counters cn') = 0"
    if "session_return e cn = (result, cn')" for e result cn'
    using that b(1) by (auto simp: session_return_def drop_opens_def)
  show ?thesis
    unfolding snap take_snapshot_def using a b ended returned by (simp add: channel_ok_def domIff)
qed

definition sample_service :: client_service where
  "sample_service = \<lparr>cs_id = ServiceId 7, cs_name = ServiceName (lit ''web''), cs_requested_bind = Loopback 8080,
     cs_target = \<lparr>tt_host = lit ''localhost'', tt_port = 80\<rparr>\<rparr>"

definition sample_handshake :: client_handshake where
  "sample_handshake = \<lparr>hv_postcard = wire_codec, hv_token = SecretToken [1], hv_hello_elapsed = None, hv_server_elapsed = False,
     hv_auth_elapsed = None, hv_ok_elapsed = False, hv_observed = [], hv_register_elapsed = \<lambda>_. None, hv_ack_elapsed = \<lambda>_. False\<rparr>"

definition sample_opening :: client_event where
  "sample_opening = EvSessionTurn \<lparr>sx_postcard = wire_codec, sx_elapsed = None, sx_now = 0, sx_closed = [], sx_task = 0\<rparr>
     (TurnRead (Ok (Open (ServiceId 7) (ConnectionId (replicate 16 3))))) \<lparr>wr_out = [], wr_fault = None\<rparr>"

lemma sample_started:
  "\<exists>rd cn0 s' rd' w' cn.
     session_start sample_handshake rd \<lparr>wr_out = [], wr_fault = None\<rparr> (supervisor_new [sample_service] 0)
       (with_policy runtime_policy_default) = (Inr cn0, s', rd', w') \<and>
     run_events client_step cn0 [sample_opening] = Some cn \<and> hm_len (ss_active (cn_state cn)) = 1 \<and> hm_len (cn_opens cn) = 1"
proof -
  let ?sid = "SessionId (replicate 16 7)"
  let ?bind = "\<lparr>eb_address = replicate 16 0, eb_port = 8080\<rparr>"
  note codec = wire.postcard_bounded_axioms
  have wf: "wf_message (ClientHello CURRENT capabilities_supported)" "wf_message (ServerHello CURRENT capabilities_supported)"
    "wf_message (Auth [1])" "wf_message (AuthOk ?sid)" "wf_message (RegisterAck (ServiceId 7) ?bind)"
    using supported_wf by (simp_all add: const_defs)
  have "registration_of sample_service = \<lparr>rs_service_id = ServiceId 7, rs_name = ServiceName (lit ''web''),
      rs_requested_bind = Loopback 8080, rs_target = \<lparr>tt_host = lit ''localhost'', tt_port = 80\<rparr>\<rparr>"
    by (simp add: registration_of_def sample_service_def)
  then obtain f6 where c6: "carried wire_codec (RegisterService (registration_of sample_service)) f6"
    using message_carried [OF codec sample_message_wf] by auto
  obtain f1 where c1: "carried wire_codec (ClientHello CURRENT capabilities_supported) f1" using message_carried [OF codec wf(1)] .
  obtain f2 where c2: "carried wire_codec (ServerHello CURRENT capabilities_supported) f2" using message_carried [OF codec wf(2)] .
  obtain f3 where c3: "carried wire_codec (Auth [1]) f3" using message_carried [OF codec wf(3)] .
  obtain f4 where c4: "carried wire_codec (AuthOk ?sid) f4" using message_carried [OF codec wf(4)] .
  obtain f5 where c5: "carried wire_codec (RegisterAck (ServiceId 7) ?bind) f5" using message_carried [OF codec wf(5)] .
  note sent = c1 c2 c3 c4 c5 c6
  note wire = sent [THEN carried_write] sent [THEN carried_read]
  let ?start = "session_start sample_handshake \<lparr>rd_bytes = f2 @ f4 @ f5 @ [], rd_end = None\<rparr> \<lparr>wr_out = [], wr_fault = None\<rparr>
      (supervisor_new [sample_service] 0) (with_policy runtime_policy_default)"
  let ?cn = "session_ready ?sid capabilities_supported 1 ((service_state_new [sample_service])\<lparr>ss_mode := session_mode capabilities_supported
      (with_policy runtime_policy_default)\<rparr>) [] ((with_policy runtime_policy_default)\<lparr>ct_session_generation := 1, ct_binds := [(?sid, ServiceId 7, ?bind)]\<rparr>)"
  have auth: "client_authenticate sample_handshake \<lparr>rd_bytes = f2 @ f4 @ f5 @ [], rd_end = None\<rparr> \<lparr>wr_out = [], wr_fault = None\<rparr> =
      (Ok (capabilities_supported, ?sid), \<lparr>rd_bytes = f5 @ [], rd_end = None\<rparr>, \<lparr>wr_out = f1 @ f3, wr_fault = None\<rparr>)"
    by (simp add: client_authenticate_def sample_handshake_def handshake_write_def handshake_read_def wire
        auth_new_def negotiate_capabilities_def supported_self const_defs del: append_Nil2)
  have begun: "begin_session [] (with_policy runtime_policy_default) = (Ok 1, (with_policy runtime_policy_default)\<lparr>ct_session_generation := 1\<rparr>)"
    by (simp add: begin_session_def with_policy_def advance_generation.simps checked_add_def ok_or_def)
  have fresh: "ct_binds (with_policy p) = []" for p by (simp add: with_policy_def)
  have sid: "cs_id sample_service = ServiceId 7" by (simp add: sample_service_def)
  have start: "fst ?start = Inr ?cn"
    unfolding session_start_def auth
    by (simp add: begun sample_handshake_def set_mode_def finish_pending_def supervisor_new_def service_state_new_def clear_active_def
        answer_all_def opt_list_def hm_values_def List.map_filter_def handshake_write_def handshake_read_def wire push_bind_def fresh sid session_mode_def Let_def
        del: append_Nil2)
  have run: "\<exists>cn. run_events client_step ?cn [sample_opening] = Some cn \<and> hm_len (ss_active (cn_state cn)) = 1 \<and> hm_len (cn_opens cn) = 1"
    by (simp add: sample_opening_def session_turn_step_def session_incoming_def session_open_def session_ready_def activate_initial_def
        hm_get_def hm_insert_def hm_len_def sample_service_def service_state_new_def with_policy_def runtime_policy_default_def
        resource_limits_default_def on_client_counters_def Let_def)
  obtain s' rd' w' where "?start = (Inr ?cn, s', rd', w')" using start by (metis prod.collapse)
  with run show ?thesis by blast
qed

theorem client_session_exact_witness:
  "\<exists>rd cn0 s' rd' w' cn.
     session_start sample_handshake rd \<lparr>wr_out = [], wr_fault = None\<rparr> (supervisor_new [sample_service] 0)
       (with_policy runtime_policy_default) = (Inr cn0, s', rd', w') \<and>
     run_events client_step cn0 [sample_opening] = Some cn \<and>
     sn_registered_services (take_snapshot 0 (cn_counters cn)) = 1 \<and>
     sn_active_client_open_tasks (take_snapshot 0 (cn_counters cn)) = 1"
proof -
  obtain rd cn0 s' rd' w' cn where start: "session_start sample_handshake rd \<lparr>wr_out = [], wr_fault = None\<rparr>
      (supervisor_new [sample_service] 0) (with_policy runtime_policy_default) = (Inr cn0, s', rd', w')"
    and run: "run_events client_step cn0 [sample_opening] = Some cn" "hm_len (ss_active (cn_state cn)) = 1" "hm_len (cn_opens cn) = 1"
    using sample_started by blast
  have "ss_inv (sup_services (supervisor_new [sample_service] 0))"
    by (simp add: supervisor_new_def ss_inv_new unique_services_def)
  then have "sn_registered_services (take_snapshot 0 (cn_counters cn)) = of_nat (hm_len (ss_active (cn_state cn)))"
    "sn_active_client_open_tasks (take_snapshot 0 (cn_counters cn)) = of_nat (hm_len (cn_opens cn))"
    using client_session_exact [OF start _ _ _ run(1) refl, where now = 0] by (simp_all add: with_policy_def)
  with start run show ?thesis
    by (intro exI [of _ rd] exI [of _ cn0] exI [of _ s'] exI [of _ rd'] exI [of _ w'] exI [of _ cn]) simp
qed

text \<open>C17: a read that is given up inside a frame breaks the stream. The loop of a Session creates the read
  anew in every turn and drops it when another branch is taken; if the dropped read had consumed one
  to four bytes of a frame, the next one starts inside that frame and the Session ends with
  \<open>InvalidMagic\<close>, although the peer sent a valid message.\<close>

theorem abandoned_read_ends_session:
  assumes f: "encode_frame pc m = Ok f" and k: "0 < k" "k \<le> 4" and len: "HEADER_LEN + k \<le> length (f @ rest)"
  shows "fst (read_message pc (read_abandoned k \<lparr>rd_bytes = f @ rest, rd_end = e\<rparr>)) = Err (Protocol InvalidMagic) \<and>
    session_incoming env (fst (read_message pc (read_abandoned k \<lparr>rd_bytes = f @ rest, rd_end = e\<rparr>))) cn w =
      (SessionReturn (Protocol InvalidMagic), cn, w)"
proof -
  obtain y where y: "f = [69, 84, 85, 78, 0] @ y" using frame_starts [OF f] by blast
  have "k = 1 \<or> k = 2 \<or> k = 3 \<or> k = 4" using k by arith
  then have "take 4 (drop k (f @ rest)) \<noteq> MAGIC" by (auto simp: y MAGIC_def)
  moreover have "HEADER_LEN \<le> length (drop k (f @ rest))" using len by simp
  ultimately have "fst (read_message pc (read_abandoned k \<lparr>rd_bytes = f @ rest, rd_end = e\<rparr>)) = Err (Protocol InvalidMagic)"
    unfolding read_abandoned_def by (simp add: bad_magic_read)
  then show ?thesis by (simp add: session_incoming_def)
qed

theorem abandoned_read_ends_session_witness:
  "\<exists>f. encode_frame wire_codec (Ping 5) = Ok f \<and>
     fst (read_message wire_codec (read_abandoned 2 \<lparr>rd_bytes = f @ f, rd_end = None\<rparr>)) = Err (Protocol InvalidMagic)"
proof -
  obtain f where f: "encode_frame wire_codec (Ping 5) = Ok f"
    using frame_round_trip_ex [OF wire.postcard_bounded_axioms, of "Ping 5"] unfolding wf_message.simps by blast
  have "HEADER_LEN \<le> length f"
    using f by (auto simp: encode_frame_Ok header_def MAGIC_def be16_def be32_def HEADER_LEN_def)
  then have "HEADER_LEN + 2 \<le> length (f @ f)" by (simp add: HEADER_LEN_def)
  from abandoned_read_ends_session [OF f _ _ this] f show ?thesis by auto
qed

end
