(* ===== verification/Tls_Material.thy ===== *)
theory Tls_Material
  imports Config
begin

text \<open>
  TLS material: \<open>pem.rs\<close> and \<open>server/tls.rs\<close>. Decoding PEM items, building a TLS configuration and hashing
  a certificate are third-party code and arguments; a decoded certificate or key is any value.
\<close>

section \<open>PEM bundles\<close>

definition MAX_CERTS :: nat where
  "MAX_CERTS = 32"

fun collect_results :: "('e + 'a) list \<Rightarrow> 'e + 'a list" where
  "collect_results [] = Ok []"
| "collect_results (r # rs) = and_then r (\<lambda>x. and_then (collect_results rs) (\<lambda>xs. Ok (x # xs)))"

definition certificates :: "(bytes \<Rightarrow> ('e + 'c) list) \<Rightarrow> bytes \<Rightarrow> unit + 'c list" where
  "certificates pem_iter pem =
     and_then (map_err (\<lambda>_. ()) (collect_results (take (MAX_CERTS + 1) (pem_iter pem)))) (\<lambda>certs.
       if certs = [] \<or> MAX_CERTS < length certs then Err () else Ok certs)"

definition private_key :: "(bytes \<Rightarrow> ('e + 'k) list) \<Rightarrow> bytes \<Rightarrow> unit + 'k" where
  "private_key pem_iter pem =
     (if MAX_FRAME_BYTES < length pem then Err ()
      else case pem_iter pem of
             [] \<Rightarrow> Err ()
           | first # later \<Rightarrow>
               and_then (map_err (\<lambda>_. ()) first) (\<lambda>key. if later \<noteq> [] then Err () else Ok key))"

section \<open>Server configurations\<close>

text \<open>The builder of \<open>eggress_transport_tls\<close> takes certificate, key and the final step in turn; for mutual
  TLS the roots are collected, the verifier built and the certificate installed.\<close>

record ('e, 'c, 'k) tls_library =
  tb_certificate :: "bytes \<Rightarrow> 'e + unit"
  tb_key :: "bytes \<Rightarrow> 'e + unit"
  tb_build :: "'e + unit"
  tb_certs :: "bytes \<Rightarrow> ('e + 'c) list"
  tb_keys :: "bytes \<Rightarrow> ('e + 'k) list"
  tb_root :: "'c \<Rightarrow> 'e + unit"
  tb_verifier :: "'c list \<Rightarrow> 'e + unit"
  tb_single_cert :: "'c list \<Rightarrow> 'k \<Rightarrow> 'e + unit"

datatype 'c server_tls = EggressTls | MutualTls "'c list"

definition build_server_tls :: "('e, 'c, 'k) tls_library \<Rightarrow> server_config \<Rightarrow> tunnel_error + 'c server_tls" where
  "build_server_tls lib config =
     and_then (map_err (\<lambda>_. Tls) (tb_certificate lib (sg_certificate_pem config))) (\<lambda>_.
     and_then (map_err (\<lambda>_. Tls) (tb_key lib (sg_private_key_pem config))) (\<lambda>_.
     and_then (map_err (\<lambda>_. Tls) (tb_build lib)) (\<lambda>_. Ok EggressTls)))"

definition build_mtls_server_config ::
  "('e, 'c, 'k) tls_library \<Rightarrow> server_config \<Rightarrow> bytes \<Rightarrow> tunnel_error + 'c server_tls" where
  "build_mtls_server_config lib config trusted_client_ca_pem =
     and_then (map_err (\<lambda>_. Tls) (certificates (tb_certs lib) (sg_certificate_pem config))) (\<lambda>certs.
     and_then (map_err (\<lambda>_. Tls) (private_key (tb_keys lib) (sg_private_key_pem config))) (\<lambda>key.
     and_then (map_err (\<lambda>_. Tls) (certificates (tb_certs lib) trusted_client_ca_pem)) (\<lambda>client_ca.
     and_then (map_err (\<lambda>_. Tls) (collect_results (map (tb_root lib) client_ca))) (\<lambda>_.
     and_then (map_err (\<lambda>_. Tls) (tb_verifier lib client_ca)) (\<lambda>_.
     and_then (map_err (\<lambda>_. Tls) (tb_single_cert lib certs key)) (\<lambda>_. Ok (MutualTls client_ca)))))))"

section \<open>Lemmas\<close>

lemma collect_results_Ok: "collect_results rs = Ok xs \<longleftrightarrow> rs = map Inr xs"
proof (induction rs arbitrary: xs)
  case (Cons r rs)
  then show ?case by (cases xs) (auto simp: res_simps)
qed auto

text \<open>A chain is accepted exactly when the whole bundle decodes to between one and thirty-two items: taking
  one item more than the limit is enough to see that there are too many.\<close>

lemma certificates_Ok:
  fixes it :: "bytes \<Rightarrow> ('e + 'c) list"
  shows "certificates it pem = Ok certs \<longleftrightarrow> it pem = map Inr certs \<and> certs \<noteq> [] \<and> length certs \<le> MAX_CERTS"
proof -
  have "take (Suc MAX_CERTS) (it pem) = map Inr certs \<longleftrightarrow> it pem = map Inr certs" if "length certs \<le> MAX_CERTS"
  proof
    assume t: "take (Suc MAX_CERTS) (it pem) = map Inr certs"
    then have "length (take (Suc MAX_CERTS) (it pem)) = length certs" by simp
    with that have "length (it pem) \<le> Suc MAX_CERTS" by auto
    with t show "it pem = map Inr certs" by simp
  qed (use that in simp)
  then show ?thesis by (auto simp: certificates_def res_simps collect_results_Ok)
qed

lemma private_key_Ok:
  "private_key it pem = Ok key \<longleftrightarrow> length pem \<le> MAX_FRAME_BYTES \<and> it pem = [Ok key]"
  by (auto simp: private_key_def res_simps split: list.splits if_splits)

lemma collect_map_Ok: "collect_results (map f xs) = Ok ys \<Longrightarrow> x \<in> set xs \<Longrightarrow> is_ok (f x)"
  by (induction xs arbitrary: ys) (auto simp: res_simps)

text \<open>Mutual TLS is configured only from complete chains, a single key and roots that were all accepted.\<close>

lemma build_mtls_Ok:
  assumes "build_mtls_server_config lib config ca = Ok tls"
  shows "\<exists>certs key roots. tb_certs lib (sg_certificate_pem config) = map Inr certs \<and> certs \<noteq> [] \<and> length certs \<le> MAX_CERTS \<and>
    tb_keys lib (sg_private_key_pem config) = [Ok key] \<and> tls = MutualTls roots \<and> tb_certs lib ca = map Inr roots \<and>
    roots \<noteq> [] \<and> length roots \<le> MAX_CERTS \<and> (\<forall>c\<in>set roots. is_ok (tb_root lib c))"
proof -
  obtain certs key roots us where parts: "certificates (tb_certs lib) (sg_certificate_pem config) = Ok certs"
    "private_key (tb_keys lib) (sg_private_key_pem config) = Ok key" "certificates (tb_certs lib) ca = Ok roots"
    "collect_results (map (tb_root lib) roots) = Ok us" "tls = MutualTls roots"
    using assms by (auto simp: build_mtls_server_config_def and_then_eq_Ok map_err_eq_Ok)
  then show ?thesis
    using collect_map_Ok [OF parts(4)] unfolding certificates_Ok private_key_Ok by blast
qed

end
