(* ===== verification/Transport.thy ===== *)
theory Transport
  imports Client_Session Config Tls_Material
begin

text \<open>
  The transports under a Session: the adapters of \<open>client/reconnect.rs\<close>, the client handle and the entry
  points of \<open>client.rs\<close> and \<open>server.rs\<close>. Connecting, TLS, WebSocket and QUIC are third-party code; how each
  step ends is an argument. A QUIC client is a number.
\<close>

section \<open>TCP with TLS, and WebSocket\<close>

datatype outbound_error = OutboundAuthentication | OutboundPolicy | OutboundTimeout | OutboundOther

fun outbound_tunnel_error :: "outbound_error \<Rightarrow> tunnel_error" where
  "outbound_tunnel_error OutboundAuthentication = Authentication"
| "outbound_tunnel_error OutboundPolicy = Authorization"
| "outbound_tunnel_error OutboundTimeout = Timeout"
| "outbound_tunnel_error OutboundOther = Disconnected"

text \<open>\<open>via\<close> is the outcome of the proxy chain, when there is one; \<open>direct\<close> that of connecting, \<open>None\<close> when
  the budget is exceeded.\<close>

definition connect_tcp :: "(outbound_error + unit) option \<Rightarrow> (io_kind + unit) option \<Rightarrow> tunnel_error + unit" where
  "connect_tcp via direct =
     (case via of
        Some r \<Rightarrow> map_err outbound_tunnel_error r
      | None \<Rightarrow> (case direct of None \<Rightarrow> Err Timeout | Some r \<Rightarrow> map_err Io r))"

record stream_transport =
  st_endpoint :: endpoint
  st_server_name :: rstr
  st_websocket :: bool
  st_outbound :: "rstr option"

datatype client_data_transport =
    DataTcpTls endpoint rstr bool "rstr option"
  | DataQuicConnection nat

text \<open>How the steps of one attempt end. Only TCP and TLS are raced against cancellation.\<close>

record stream_steps =
  sp_cancelled :: bool
  sp_via :: "outbound_error + unit"
  sp_direct :: "(io_kind + unit) option"
  sp_tls :: "(unit + unit) raced"
  sp_websocket :: "(unit + unit) option"

definition stream_label :: "stream_transport \<Rightarrow> rstr" where
  "stream_label t = (if st_websocket t then lit ''websocket_tls'' else lit ''tcp_tls'')"

definition stream_establish ::
  "stream_transport \<Rightarrow> stream_steps \<Rightarrow> (tunnel_error + client_data_transport) \<times> stream_transport" where
  "stream_establish t steps =
     (and_then (if sp_cancelled steps then Err Cancelled
                else connect_tcp (map_option (\<lambda>_. sp_via steps) (st_outbound t)) (sp_direct steps)) (\<lambda>_.
      and_then (race_result (\<lambda>_. Tls) (sp_tls steps)) (\<lambda>_.
      and_then (if st_websocket t
                then (case sp_websocket steps of None \<Rightarrow> Err Timeout | Some r \<Rightarrow> map_err (\<lambda>_. Tls) r)
                else Ok ()) (\<lambda>_.
        Ok (DataTcpTls (st_endpoint t) (st_server_name t) (st_websocket t) (st_outbound t))))), t)"

definition stream_close :: "stream_transport \<Rightarrow> stream_transport" where
  "stream_close t = t"

section \<open>QUIC\<close>

text \<open>\<open>qt_open\<close> are the QUIC clients that have been created and not closed.\<close>

record quic_transport =
  qt_max_concurrent_streams :: nat
  qt_slot :: "nat option"
  qt_active :: "nat option"
  qt_open :: "nat list"

text \<open>Where an attempt ends. The budget, or the supervisor that drops the attempt, \<open>dropped\<close>, can strike while
  connecting, while waiting for the connection or while opening the stream.\<close>

datatype quic_steps =
    QuicConnectElapsed bool
  | QuicConnectFailed
  | QuicConnectionElapsed nat bool
  | QuicConnectionFailed nat
  | QuicStreamElapsed nat bool
  | QuicStreamFailed nat
  | QuicOpened nat nat

definition elapsed_error :: "bool \<Rightarrow> tunnel_error" where
  "elapsed_error dropped = (if dropped then Cancelled else Timeout)"

definition quic_transport_new :: "nat \<Rightarrow> quic_transport" where
  "quic_transport_new max_concurrent_streams =
     \<lparr>qt_max_concurrent_streams = max_concurrent_streams, qt_slot = None, qt_active = None, qt_open = []\<rparr>"

definition quic_label :: "quic_transport \<Rightarrow> rstr" where
  "quic_label t = lit ''quic''"

definition quic_store :: "nat \<Rightarrow> quic_transport \<Rightarrow> quic_transport" where
  "quic_store q t = t\<lparr>qt_slot := Some q, qt_active := Some q, qt_open := q # qt_open t\<rparr>"

definition quic_establish :: "quic_transport \<Rightarrow> quic_steps \<Rightarrow> (tunnel_error + client_data_transport) \<times> quic_transport" where
  "quic_establish t steps =
     (if 2 ^ 32 \<le> qt_max_concurrent_streams t
      then (Err (Configuration ''QUIC stream limit exceeds protocol range''), t)
      else case steps of
             QuicConnectElapsed dropped \<Rightarrow> (Err (elapsed_error dropped), t)
           | QuicConnectFailed \<Rightarrow> (Err Tls, t)
           | QuicConnectionElapsed q dropped \<Rightarrow> (Err (elapsed_error dropped), quic_store q t)
           | QuicConnectionFailed q \<Rightarrow> (Err Tls, quic_store q t)
           | QuicStreamElapsed q dropped \<Rightarrow> (Err (elapsed_error dropped), quic_store q t)
           | QuicStreamFailed q \<Rightarrow> (Err Disconnected, quic_store q t)
           | QuicOpened q connection \<Rightarrow> (Ok (DataQuicConnection connection), quic_store q t))"

definition quic_close :: "quic_transport \<Rightarrow> quic_transport" where
  "quic_close t =
     t\<lparr>qt_active := None, qt_slot := None,
       qt_open := (case qt_active t of None \<Rightarrow> qt_open t | Some q \<Rightarrow> remove1 q (qt_open t))\<rparr>"

section \<open>The adapter interface\<close>

text \<open>What the supervisor relies on: a transport at rest holds nothing, and closing after an attempt,
  however it ended, brings it back to rest.\<close>

locale transport_adapter =
  fixes establish :: "'t \<Rightarrow> 'a \<Rightarrow> (tunnel_error + client_data_transport) \<times> 't"
    and close :: "'t \<Rightarrow> 't"
    and rest :: "'t \<Rightarrow> bool"
  assumes close_rests: "rest t \<Longrightarrow> rest (close (snd (establish t a)))"
begin

lemma attempts_rest: "rest t \<Longrightarrow> rest (fold (\<lambda>a t. close (snd (establish t a))) attempts t)"
  by (induction attempts arbitrary: t) (simp_all add: close_rests)

end

definition quic_rest :: "nat \<Rightarrow> quic_transport \<Rightarrow> bool" where
  "quic_rest n t \<longleftrightarrow> t = quic_transport_new n"

interpretation stream: transport_adapter stream_establish stream_close "\<lambda>t'. t' = t"
  by unfold_locales (simp add: stream_establish_def stream_close_def)

interpretation quic: transport_adapter quic_establish quic_close "quic_rest n"
  by unfold_locales (auto simp: quic_establish_def quic_close_def quic_store_def quic_rest_def
      quic_transport_new_def split: quic_steps.split)

section \<open>One attempt of the supervisor\<close>

text \<open>The commands that arrive while connecting are applied to the registration state; a Session runs only
  on an established transport; the transport is closed either way.\<close>

definition supervised_attempt ::
  "('t \<Rightarrow> 'a \<Rightarrow> (tunnel_error + client_data_transport) \<times> 't) \<Rightarrow> ('t \<Rightarrow> 't) \<Rightarrow> 'a \<Rightarrow> client_command list \<Rightarrow>
   (client_data_transport \<Rightarrow> supervisor \<times> counters \<Rightarrow> (tunnel_error + unit) \<times> supervisor \<times> counters) \<Rightarrow>
   't \<Rightarrow> supervisor \<times> counters \<Rightarrow> ((tunnel_error + unit) \<times> supervisor \<times> counters) \<times> 't" where
  "supervised_attempt establish close steps commands session t sc =
     (case sc of (s, c) \<Rightarrow>
        let s = s\<lparr>sup_services := snd (drain_disconnected_commands commands (sup_services s))\<rparr>
        in case establish t steps of (established, t) \<Rightarrow>
             ((case established of Inl e \<Rightarrow> (Err e, s, c) | Inr transport \<Rightarrow> session transport (s, c)), close t))"

section \<open>The client handle\<close>

datatype command_sent = SendCancelled | SendClosed | SendDone

datatype 'a reply_outcome = ReplyCancelled | ReplyDropped | ReplyGot "tunnel_error + 'a"

definition await_reply :: "command_sent \<Rightarrow> 'a reply_outcome \<Rightarrow> tunnel_error + 'a" where
  "await_reply sent reply =
     (case sent of
        SendCancelled \<Rightarrow> Err Cancelled
      | SendClosed \<Rightarrow> Err Disconnected
      | SendDone \<Rightarrow>
          (case reply of ReplyCancelled \<Rightarrow> Err Cancelled | ReplyDropped \<Rightarrow> Err Disconnected | ReplyGot r \<Rightarrow> r))"

text \<open>The result for the caller and the command that reaches the supervisor, if any.\<close>

definition unregister_service ::
  "service_id \<Rightarrow> reply \<Rightarrow> command_sent \<Rightarrow> unit reply_outcome \<Rightarrow> (tunnel_error + unit) \<times> client_command option" where
  "unregister_service i r sent reply =
     (await_reply sent reply, if sent = SendDone then Some (CmdUnregister i r) else None)"

definition register_service_call ::
  "counters \<Rightarrow> client_service \<Rightarrow> reply \<Rightarrow> command_sent \<Rightarrow> effective_bind reply_outcome \<Rightarrow>
     (tunnel_error + effective_bind) \<times> client_command option" where
  "register_service_call c service r sent reply =
     (if ct_connected c = 0 then (Err Disconnected, None)
      else (await_reply sent reply, if sent = SendDone then Some (CmdRegister service r) else None))"

section \<open>Entry points\<close>

text \<open>The connector of targets is not part of the builder's model, so the variants with a connector are the
  same as those without.\<close>

definition client_start :: "client_config \<Rightarrow> client_builder" where
  "client_start config = client_builder_new config"

definition start_websocket :: "client_config \<Rightarrow> client_builder" where
  "start_websocket config = client_transport ClientWebSocket (client_builder_new config)"

definition start_with_outbound_proxy :: "client_config \<Rightarrow> rstr \<Rightarrow> client_builder" where
  "start_with_outbound_proxy config chain = with_outbound_proxy chain (client_builder_new config)"

definition start_websocket_with_outbound_proxy :: "client_config \<Rightarrow> rstr \<Rightarrow> client_builder" where
  "start_websocket_with_outbound_proxy config chain =
     with_outbound_proxy chain (client_transport ClientWebSocket (client_builder_new config))"

definition start_quic :: "client_config \<Rightarrow> client_builder" where
  "start_quic config = client_transport ClientQuic (client_builder_new config)"

definition start_with_mtls :: "client_config \<Rightarrow> bytes \<times> bytes \<Rightarrow> client_builder" where
  "start_with_mtls config identity = with_identity identity (client_builder_new config)"

definition server_bind :: "server_config \<Rightarrow> server_builder" where
  "server_bind config = server_builder_new config"

definition bind_with_policy :: "server_config \<Rightarrow> bind_policy \<Rightarrow> server_builder" where
  "bind_with_policy config policy = server_bind_policy policy (server_builder_new config)"

definition bind_websocket :: "server_config \<Rightarrow> server_builder" where
  "bind_websocket config = server_transport ServerWebSocket (server_builder_new config)"

definition bind_quic :: "server_config \<Rightarrow> server_builder" where
  "bind_quic config = server_transport ServerQuic (server_builder_new config)"

definition bind_quic_with_policy :: "server_config \<Rightarrow> bind_policy \<Rightarrow> server_builder" where
  "bind_quic_with_policy config policy = server_transport ServerQuic (server_bind_policy policy (server_builder_new config))"

definition bind_mtls :: "server_config \<Rightarrow> bytes \<Rightarrow> server_builder" where
  "bind_mtls config ca =
     (let policy = bind_policy_default\<lparr>allow_public_addresses := sg_allow_public_service_binds config\<rparr>
      in client_ca_pem ca (server_bind_policy policy (server_builder_new config)))"

definition bind_mtls_with_policy :: "server_config \<Rightarrow> bytes \<Rightarrow> bind_policy \<Rightarrow> server_builder" where
  "bind_mtls_with_policy config ca policy = client_ca_pem ca (server_bind_policy policy (server_builder_new config))"

section \<open>Property\<close>

text \<open>C24: no QUIC client is leaked. After any sequence of attempts, each closed however it ended, the
  transport is as it was created: nothing in the slot of the handle and no client open. During an
  attempt at most one client is open, the one in the slot, and a stream that was opened belongs to
  it. With a valid policy the stream limit is in range, so an attempt fails only with an error the
  supervisor retries.\<close>

theorem quic_clients_released:
  assumes "runtime_policy_validate policy = Ok ()" and "n = rl_client_open_tasks (rp_limits policy)"
    and "t = fold (\<lambda>a t. quic_close (snd (quic_establish t a))) attempts (quic_transport_new n)"
    and "quic_establish t a = (result, t')"
  shows "t = quic_transport_new n \<and> qt_slot t' = qt_active t' \<and> qt_open t' = opt_list (qt_active t') \<and>
    (is_ok result \<longrightarrow> qt_active t' \<noteq> None) \<and> (\<forall>e. result = Err e \<longrightarrow> \<not> terminal_error e) \<and>
    quic_close t' = quic_transport_new n"
proof -
  have t: "t = quic_transport_new n"
    using quic.attempts_rest [of n "quic_transport_new n" attempts] assms(3) by (simp add: quic_rest_def)
  have "rl_client_open_tasks (rp_limits policy) \<le> 65536"
    using assms(1) limits_bounds [of "rp_limits policy" "rl_client_open_tasks (rp_limits policy)"]
    by (simp add: runtime_policy_validate_Ok resource_values_def)
  then have "n < 2 ^ 32" using assms(2) by simp
  then show ?thesis
    using assms(4) by (cases a) (auto simp: t quic_establish_def quic_close_def quic_store_def quic_transport_new_def
        opt_list_def elapsed_error_def split: if_splits)
qed

theorem quic_clients_released_witness:
  "let t' = snd (quic_establish (quic_transport_new (rl_client_open_tasks resource_limits_default)) (QuicStreamFailed 4))
   in qt_open t' = [4] \<and> qt_open (quic_close t') = []"
proof -
  let ?t = "quic_transport_new (rl_client_open_tasks (rp_limits runtime_policy_default))"
  obtain r t' where e: "quic_establish ?t (QuicStreamFailed 4) = (r, t')" by fastforce
  then have "qt_active t' = Some 4"
    by (auto simp: quic_establish_def quic_store_def runtime_policy_default_def resource_limits_default_def quic_transport_new_def)
  moreover have "qt_open t' = opt_list (qt_active t') \<and> quic_close t' = ?t"
    using quic_clients_released [OF runtime_policy_default_valid refl _ e, of "[]"] by simp
  ultimately show ?thesis
    using e by (simp add: runtime_policy_default_def Let_def opt_list_def) (simp add: quic_transport_new_def)
qed

end
