(* ===== verification/Server_Ingress.thy ===== *)
theory Server_Ingress
  imports Server_Accept Event_System
begin

text \<open>
  The loops of \<open>server/accept.rs\<close>: the ingress loops for TCP and QUIC, and the loop of one QUIC connection
  (\<open>handle_quic_connection\<close>). The first stream of a QUIC connection is the control stream; its loop then
  admits data streams under a semaphore of its own until the control task ends.
\<close>

section \<open>The ingress loops\<close>

text \<open>A turn says whether the loop goes on and whether a connection task is spawned, which then holds an
  admission permit and a handshake slot.\<close>

datatype ingress_exit = IngressContinue | IngressSpawn | IngressBreak

definition ingress_admit :: "server \<Rightarrow> ingress_exit \<times> server" where
  "ingress_admit sv =
     (case accept_connection sv of
        (True, sv) \<Rightarrow> (IngressSpawn, sv)
      | (False, sv) \<Rightarrow> (IngressContinue, sv))"

datatype tcp_ingress = TcpCancelled | TcpAccepted "io_kind + unit" | TcpReaped join_result

fun server_loop_turn :: "tcp_ingress \<Rightarrow> server \<Rightarrow> ingress_exit \<times> server" where
  "server_loop_turn TcpCancelled sv = (IngressBreak, sv)"
| "server_loop_turn (TcpAccepted (Inl _)) sv = (IngressContinue, sv)"
| "server_loop_turn (TcpAccepted (Inr _)) sv = ingress_admit sv"
| "server_loop_turn (TcpReaped r) sv = (IngressContinue, on_counters (record_join_result r) sv)"

datatype quic_ingress = QuicIngressCancelled | QuicIncoming "unit + unit option" | QuicHandlerReaped join_result

fun quic_server_loop_turn :: "quic_ingress \<Rightarrow> server \<Rightarrow> ingress_exit \<times> server" where
  "quic_server_loop_turn QuicIngressCancelled sv = (IngressBreak, sv)"
| "quic_server_loop_turn (QuicIncoming (Inr None)) sv = (IngressBreak, sv)"
| "quic_server_loop_turn (QuicIncoming (Inl _)) sv = (IngressContinue, on_counters reject_count sv)"
| "quic_server_loop_turn (QuicIncoming (Inr (Some _))) sv = ingress_admit sv"
| "quic_server_loop_turn (QuicHandlerReaped r) sv = (IngressContinue, on_counters (record_join_result r) sv)"

text \<open>The ceiling of data streams per connection.\<close>

definition quic_max_streams :: "counters \<Rightarrow> nat" where
  "quic_max_streams c = rl_active_connections_per_session (rp_limits (ct_policy c))"

section \<open>One QUIC connection\<close>

text \<open>\<open>qc_permits\<close> are the free permits and \<open>qc_streams\<close> the data streams whose tasks hold the others.\<close>

record quic_connection =
  qc_permits :: nat
  qc_streams :: "(nat, unit) hashmap"

text \<open>The wait for the control stream and its first message, before the slot of the handshake is handed on.
  \<open>accepted\<close> is the stream or the error of the transport; \<open>None\<close> is an exceeded budget.\<close>

definition quic_first ::
  "bool \<Rightarrow> (unit + unit) option \<Rightarrow> (tunnel_error + message) option \<Rightarrow> tunnel_error + message" where
  "quic_first cancelled accepted first =
     (if cancelled then Err Cancelled
      else
        and_then (ok_or Timeout accepted) (\<lambda>accepted.
        and_then (map_err (\<lambda>_. Disconnected) accepted) (\<lambda>_.
        and_then (ok_or Timeout first) (\<lambda>first. first))))"

definition quic_connection_new :: "nat \<Rightarrow> quic_connection" where
  "quic_connection_new max_active_data_streams = \<lparr>qc_permits = max_active_data_streams, qc_streams = []\<rparr>"

datatype control_end = ControlOk | ControlErr tunnel_error | ControlPanic | ControlAborted

datatype quic_exit = QuicContinue | QuicBreak | QuicReturn tunnel_error

definition quic_control_end :: "control_end \<Rightarrow> counters \<Rightarrow> counters" where
  "quic_control_end r c =
     (case r of
        ControlOk \<Rightarrow> c
      | ControlErr e \<Rightarrow> record_termination (termination_category e) c
      | ControlPanic \<Rightarrow> record_termination TcInternal (c\<lparr>ct_task_panics := ct_task_panics c + 1\<rparr>)
      | ControlAborted \<Rightarrow> c)"

definition quic_accept ::
  "unit + nat \<Rightarrow> quic_connection \<Rightarrow> server \<Rightarrow> quic_exit \<times> quic_connection \<times> server" where
  "quic_accept accepted q sv =
     (case accepted of
        Inl _ \<Rightarrow> (QuicReturn Disconnected, q, sv)
      | Inr i \<Rightarrow>
          if qc_permits q = 0
          then (QuicContinue, q, on_counters (record_termination TcResourceExhausted \<circ> reject_count) sv)
          else (QuicContinue, q\<lparr>qc_permits := qc_permits q - 1, qc_streams := hm_insert i () (qc_streams q)\<rparr>, sv))"

text \<open>The task of a data stream ends: its permit goes back. Its error is not recorded.\<close>

definition quic_stream_end ::
  "nat \<Rightarrow> tunnel_error + message \<Rightarrow> stream_ref \<Rightarrow> instant \<Rightarrow> quic_connection \<Rightarrow> server \<Rightarrow> quic_connection \<times> server" where
  "quic_stream_end i first stream now q sv =
     (q\<lparr>qc_permits := qc_permits q + 1, qc_streams := hm_remove i (qc_streams q)\<rparr>,
      snd (handle_quic_data_stream first stream now sv))"

datatype quic_event =
    QuicCancelled
  | QuicControlEnded control_end
  | QuicAccepted "unit + nat"
  | QuicStreamEnded nat "tunnel_error + message" stream_ref instant
  | QuicReaped join_result

fun quic_turn :: "quic_event \<Rightarrow> quic_connection \<Rightarrow> server \<Rightarrow> quic_exit \<times> quic_connection \<times> server" where
  "quic_turn QuicCancelled q sv = (QuicBreak, q, sv)"
| "quic_turn (QuicControlEnded r) q sv = (QuicBreak, q, on_counters (quic_control_end r) sv)"
| "quic_turn (QuicAccepted accepted) q sv = quic_accept accepted q sv"
| "quic_turn (QuicStreamEnded i first stream now) q sv =
     (case quic_stream_end i first stream now q sv of (q, sv) \<Rightarrow> (QuicContinue, q, sv))"
| "quic_turn (QuicReaped r) q sv = (QuicContinue, q, on_counters (record_join_result r) sv)"

text \<open>After the loop the remaining tasks are aborted and joined; \<open>joins\<close> are the results.\<close>

definition quic_teardown :: "join_result list \<Rightarrow> quic_connection \<Rightarrow> server \<Rightarrow> quic_connection \<times> server" where
  "quic_teardown joins q sv =
     (q\<lparr>qc_permits := qc_permits q + hm_len (qc_streams q), qc_streams := []\<rparr>,
      fold (\<lambda>r. on_counters (record_join_result r)) joins sv)"

section \<open>The machine of the loop\<close>

text \<open>A stream is new, and only a running task ends.\<close>

fun quic_step :: "quic_connection \<times> server \<Rightarrow> quic_event \<Rightarrow> (quic_connection \<times> server) option" where
  "quic_step (q, sv) (QuicAccepted (Inr i)) =
     (if hm_contains (qc_streams q) i then None else Some (snd (quic_accept (Inr i) q sv)))"
| "quic_step (q, sv) (QuicStreamEnded i first stream now) =
     (if hm_contains (qc_streams q) i then Some (quic_stream_end i first stream now q sv) else None)"
| "quic_step (q, sv) e = Some (snd (quic_turn e q sv))"

definition quic_inv :: "nat \<Rightarrow> quic_connection \<times> server \<Rightarrow> bool" where
  "quic_inv limit s \<longleftrightarrow> hm_inv (qc_streams (fst s)) \<and> qc_permits (fst s) + hm_len (qc_streams (fst s)) = limit"

lemma quic_step_inv:
  assumes inv: "quic_inv limit (q, sv)" and step: "quic_step (q, sv) e = Some s"
  shows "quic_inv limit s"
proof (cases "((q, sv), e)" rule: quic_step.cases)
  case (1 q' sv' i)
  then have "hm_get (qc_streams q) i = None"
    using step by (cases "hm_get (qc_streams q) i") (simp_all add: hm_contains_def split: if_splits)
  then have "hm_len (hm_insert i () (qc_streams q)) = Suc (hm_len (qc_streams q))"
    using inv by (intro hm.len_insert_fresh) (simp_all add: quic_inv_def)
  with 1 show ?thesis
    using inv step by (auto simp: quic_inv_def quic_accept_def split: if_splits)
next
  case (2 q' sv' i first stream now)
  then have present: "i \<in> dom (hm_get (qc_streams q))" using step by (auto simp: hm_contains_def split: if_splits)
  then have "hm_len (qc_streams q) = Suc (hm_len (hm_remove i (qc_streams q)))"
    using inv by (intro hm.len_remove_present) (simp_all add: quic_inv_def)
  with 2 show ?thesis
    using inv step by (auto simp: quic_inv_def quic_stream_end_def split: if_splits)
qed (use inv step in \<open>auto simp: quic_inv_def quic_accept_def\<close>)

interpretation qcl: invariant_system quic_step "quic_inv limit"
  by unfold_locales (metis quic_step_inv surj_pair)

text \<open>However streams come and go, at most the ceiling of data streams run at once, a permit is free for each
  of the others, and the teardown returns every permit.\<close>

lemma quic_streams_bounded:
  assumes "run_events quic_step (quic_connection_new limit, sv) evs = Some (q, sv')"
  shows "hm_len (qc_streams q) \<le> limit" "qc_permits q = limit - hm_len (qc_streams q)"
    "qc_permits (fst (quic_teardown joins q sv')) = limit"
proof -
  have "quic_inv limit (quic_connection_new limit, sv)"
    by (simp add: quic_inv_def quic_connection_new_def)
  from qcl.run_inv [OF this assms] show "hm_len (qc_streams q) \<le> limit" "qc_permits q = limit - hm_len (qc_streams q)"
    "qc_permits (fst (quic_teardown joins q sv')) = limit"
    by (auto simp: quic_inv_def quic_teardown_def)
qed

end
