(* ===== verification/Std_Text.thy ===== *)
theory Std_Text
  imports Std_Net Endpoint
begin

text \<open>
  Socket addresses as text, the way \<open>core::net\<close> reads and writes them: \<open>str::parse::<SocketAddr>()\<close> and
  the \<open>Display\<close> of addresses.
\<close>

section \<open>Reading\<close>

text \<open>An IPv4 address and a port, or an IPv6 address in brackets with an optional scope identifier,
  which is not kept. These numbers may have any length and leading zeros.\<close>

definition read_port :: "rstr \<Rightarrow> (nat \<times> rstr) option" where
  "read_port s = Option.bind (read_given_char 58 s) (\<lambda>s. read_number 10 (length s) True 65535 s)"

definition read_scope_id :: "rstr \<Rightarrow> (nat \<times> rstr) option" where
  "read_scope_id s = Option.bind (read_given_char 37 s) (\<lambda>s. read_number 10 (length s) True 4294967295 s)"

definition read_socket_addr_v4 :: "rstr \<Rightarrow> (socket_addr \<times> rstr) option" where
  "read_socket_addr_v4 s =
     Option.bind (read_ipv4_addr s) (\<lambda>(a, s).
     Option.bind (read_port s) (\<lambda>(p, s). Some (SocketV4 (map of_nat a) (of_nat p), s)))"

definition read_socket_addr_v6 :: "rstr \<Rightarrow> (socket_addr \<times> rstr) option" where
  "read_socket_addr_v6 s =
     Option.bind (read_given_char 91 s) (\<lambda>s.
     Option.bind (read_ipv6_addr s) (\<lambda>(gs, s).
     Option.bind (read_given_char 93 (case read_scope_id s of None \<Rightarrow> s | Some (_, s) \<Rightarrow> s)) (\<lambda>s.
     Option.bind (read_port s) (\<lambda>(p, s). Some (SocketV6 (groups_octets gs) (of_nat p), s)))))"

definition parse_socket_addr :: "rstr \<Rightarrow> socket_addr option" where
  "parse_socket_addr s =
     (case (case read_socket_addr_v4 s of Some r \<Rightarrow> Some r | None \<Rightarrow> read_socket_addr_v6 s) of
        Some (a, []) \<Rightarrow> Some a
      | _ \<Rightarrow> None)"

section \<open>Writing\<close>

definition ipv4_text :: "octets \<Rightarrow> rstr" where
  "ipv4_text a =
     decimal (unat (a ! 0)) @ [46] @ decimal (unat (a ! 1)) @ [46] @ decimal (unat (a ! 2)) @ [46] @ decimal (unat (a ! 3))"

fun hex :: "nat \<Rightarrow> rstr" where
  "hex n = (let d = n mod 16; c = (if d < 10 then 48 + d else 87 + d) in if n < 16 then [c] else hex (n div 16) @ [c])"

declare hex.simps [simp del]

text \<open>The segments of an IPv6 address and their longest run of zeros, the first of them when there are
  several: \<open>(start, len)\<close> of the longest and of the current run.\<close>

fun segments :: "octets \<Rightarrow> nat list" where
  "segments (a # b # rest) = (unat a * 256 + unat b) # segments rest"
| "segments _ = []"

fun zero_run :: "nat \<Rightarrow> nat \<times> nat \<Rightarrow> nat \<times> nat \<Rightarrow> nat list \<Rightarrow> nat \<times> nat" where
  "zero_run i longest current [] = longest"
| "zero_run i longest current (g # gs) =
     (if g = 0
      then let current = (if snd current = 0 then i else fst current, snd current + 1)
           in zero_run (i + 1) (if snd longest < snd current then current else longest) current gs
      else zero_run (i + 1) longest (0, 0) gs)"

fun segments_text :: "nat list \<Rightarrow> rstr" where
  "segments_text [] = []"
| "segments_text [g] = hex g"
| "segments_text (g # gs) = hex g @ [58] @ segments_text gs"

definition ipv6_text :: "octets \<Rightarrow> rstr" where
  "ipv6_text a =
     (case to_ipv4_mapped a of
        Some v4 \<Rightarrow> lit ''::ffff:'' @ ipv4_text v4
      | None \<Rightarrow>
          (case zero_run 0 (0, 0) (0, 0) (segments a) of (start, len) \<Rightarrow>
             if 1 < len
             then segments_text (take start (segments a)) @ [58, 58] @ segments_text (drop (start + len) (segments a))
             else segments_text (segments a)))"

fun socket_text :: "socket_addr \<Rightarrow> rstr" where
  "socket_text (SocketV4 a p) = ipv4_text a @ [58] @ decimal (unat p)"
| "socket_text (SocketV6 a p) = [91] @ ipv6_text a @ [93, 58] @ decimal (unat p)"

end
