(* ===== verification/Cli.thy ===== *)
theory Cli
  imports Config Counters Std_Text
begin

text \<open>
  The command line: \<open>crates/eggtunnel-cli/src/main.rs\<close>. A command reads the configuration file, applies
  the overrides, resolves every reference to the environment and to files into a snapshot, lowers the
  snapshot into the builders and launches. Every operation returns its result with the effects it has,
  in order: what it reads, what it prints and what it starts. The environment of the process, the file
  system, the TOML parser, TLS and the operating system are arguments; what serde derives from the
  declarations of the file format is modelled. A path is its text.
\<close>

section \<open>Arguments\<close>

record client_overrides =
  co_server_addr :: "rstr option"
  co_tls_server_name :: "rstr option"
  co_transport :: "rstr option"
  co_ca_cert :: "rstr option"
  co_token_env :: "rstr option"
  co_outbound_proxy_env :: "rstr option"
  co_client_cert :: "rstr option"
  co_client_key :: "rstr option"
  co_bind_port :: "u16 option"

record server_overrides =
  so_listen_addr :: "rstr option"
  so_transport :: "rstr option"
  so_tls_cert :: "rstr option"
  so_tls_key :: "rstr option"
  so_client_ca :: "rstr option"
  so_token_env :: "rstr option"
  so_allow_public_service_binds :: bool

datatype command =
    CliVersion
  | CliCheck rstr bool
  | CliClient rstr client_overrides bool "u64 option"
  | CliServer rstr server_overrides bool "u64 option"

section \<open>Errors\<close>

datatype error_category =
    ConfigParse | ConfigResolution | MissingSecretReference | TlsMaterial | ProfileValidation
  | BindValidation | RuntimeStart | Transport | AuthenticationFailed

fun category_str :: "error_category \<Rightarrow> rstr" where
  "category_str ConfigParse = lit ''config_parse''"
| "category_str ConfigResolution = lit ''config_resolution''"
| "category_str MissingSecretReference = lit ''missing_secret_reference''"
| "category_str TlsMaterial = lit ''tls_material''"
| "category_str ProfileValidation = lit ''profile_validation''"
| "category_str BindValidation = lit ''bind_validation''"
| "category_str RuntimeStart = lit ''runtime_start''"
| "category_str Transport = lit ''transport''"
| "category_str AuthenticationFailed = lit ''authentication''"

record cli_error =
  er_category :: error_category
  er_message :: rstr

definition cli_error_new :: "error_category \<Rightarrow> rstr \<Rightarrow> cli_error" where
  "cli_error_new category message = \<lparr>er_category = category, er_message = message\<rparr>"

definition cli_error_display :: "cli_error \<Rightarrow> rstr" where
  "cli_error_display e = category_str (er_category e) @ lit '': '' @ er_message e"

text \<open>The texts of the library's errors; \<open>io_text\<close> is the text of an operating-system error.\<close>

fun protocol_error_text :: "protocol_error \<Rightarrow> rstr" where
  "protocol_error_text InvalidMagic = lit ''invalid protocol magic''"
| "protocol_error_text (UnsupportedVersion major minor) =
     lit ''unsupported protocol version '' @ decimal (unat major) @ lit ''.'' @ decimal (unat minor)"
| "protocol_error_text (UnknownMessage n) = lit ''unknown message type '' @ decimal (unat n)"
| "protocol_error_text TruncatedFrame = lit ''truncated frame''"
| "protocol_error_text FrameTooLarge = lit ''frame exceeds maximum size''"
| "protocol_error_text InvalidPayload = lit ''malformed protocol payload''"
| "protocol_error_text InvalidName = lit ''invalid service name''"
| "protocol_error_text InvalidBind = lit ''invalid bind specification''"
| "protocol_error_text InvalidTarget = lit ''invalid target descriptor''"
| "protocol_error_text UnexpectedMessage = lit ''unexpected message for protocol state''"

fun tunnel_error_text :: "(io_kind \<Rightarrow> rstr) \<Rightarrow> tunnel_error \<Rightarrow> rstr" where
  "tunnel_error_text io_text (Configuration message) = lit ''invalid configuration: '' @ lit message"
| "tunnel_error_text io_text (Io k) = lit ''I/O operation failed: '' @ io_text k"
| "tunnel_error_text io_text Tls = lit ''TLS setup or handshake failed''"
| "tunnel_error_text io_text (Protocol e) = lit ''protocol error: '' @ protocol_error_text e"
| "tunnel_error_text io_text Authentication = lit ''server authentication failed''"
| "tunnel_error_text io_text Authorization = lit ''service was rejected by server policy''"
| "tunnel_error_text io_text Disconnected = lit ''server connection ended''"
| "tunnel_error_text io_text Cancelled = lit ''operation was cancelled''"
| "tunnel_error_text io_text Timeout = lit ''operation timed out''"
| "tunnel_error_text io_text Target = lit ''local target rejected or failed the connection''"
| "tunnel_error_text io_text ResourceExhausted = lit ''runtime resource limit was reached''"
| "tunnel_error_text io_text ServiceAlreadyExists = lit ''service identifier or name is already registered''"
| "tunnel_error_text io_text PeerClosed = lit ''peer closed the connection''"

fun tunnel_error_category :: "tunnel_error \<Rightarrow> error_category" where
  "tunnel_error_category Tls = TlsMaterial"
| "tunnel_error_category (Configuration _) = ProfileValidation"
| "tunnel_error_category Authentication = AuthenticationFailed"
| "tunnel_error_category Authorization = AuthenticationFailed"
| "tunnel_error_category ServiceAlreadyExists = ProfileValidation"
| "tunnel_error_category _ = RuntimeStart"

definition from_tunnel_error :: "(io_kind \<Rightarrow> rstr) \<Rightarrow> tunnel_error \<Rightarrow> cli_error" where
  "from_tunnel_error io_text e = cli_error_new (tunnel_error_category e) (tunnel_error_text io_text e)"

section \<open>The file format\<close>

record file_service =
  fs_id :: u64
  fs_name :: rstr
  fs_target_host :: rstr
  fs_target_port :: u16
  fs_bind_port :: u16

record file_config =
  fc_mode :: rstr
  fc_transport :: rstr
  fc_token_env :: rstr
  fc_listen_addr :: "rstr option"
  fc_tls_cert :: "rstr option"
  fc_tls_key :: "rstr option"
  fc_allow_public_service_binds :: bool
  fc_server_addr :: "rstr option"
  fc_tls_server_name :: "rstr option"
  fc_ca_cert :: "rstr option"
  fc_outbound_proxy_env :: "rstr option"
  fc_client_cert :: "rstr option"
  fc_client_key :: "rstr option"
  fc_client_ca :: "rstr option"
  fc_services :: "file_service list"

definition default_transport :: rstr where
  "default_transport = lit ''tcp_tls''"

text \<open>What the TOML parser delivers: every key present with a value of its type, and whether there is
  a key the format does not know. \<open>deny_unknown_fields\<close> refuses such a key, a field without default
  must be there, the others fall back to their default.\<close>

record toml_service =
  ts_id :: "u64 option"
  ts_name :: "rstr option"
  ts_target_host :: "rstr option"
  ts_target_port :: "u16 option"
  ts_bind_port :: "u16 option"
  ts_unknown :: bool

record toml_table =
  tl_mode :: "rstr option"
  tl_transport :: "rstr option"
  tl_token_env :: "rstr option"
  tl_listen_addr :: "rstr option"
  tl_tls_cert :: "rstr option"
  tl_tls_key :: "rstr option"
  tl_allow_public_service_binds :: "bool option"
  tl_server_addr :: "rstr option"
  tl_tls_server_name :: "rstr option"
  tl_ca_cert :: "rstr option"
  tl_outbound_proxy_env :: "rstr option"
  tl_client_cert :: "rstr option"
  tl_client_key :: "rstr option"
  tl_client_ca :: "rstr option"
  tl_services :: "toml_service list option"
  tl_unknown :: bool

definition unwrap_or :: "'a \<Rightarrow> 'a option \<Rightarrow> 'a" where
  "unwrap_or d x = (case x of None \<Rightarrow> d | Some v \<Rightarrow> v)"

definition file_service_of :: "toml_service \<Rightarrow> file_service option" where
  "file_service_of t =
     (if ts_unknown t then None
      else case (ts_id t, ts_name t, ts_target_host t, ts_target_port t) of
             (Some i, Some name, Some host, Some port) \<Rightarrow>
               Some \<lparr>fs_id = i, fs_name = name, fs_target_host = host, fs_target_port = port,
                     fs_bind_port = unwrap_or 0 (ts_bind_port t)\<rparr>
           | _ \<Rightarrow> None)"

definition file_config_of :: "toml_table \<Rightarrow> file_config option" where
  "file_config_of t =
     (if tl_unknown t then None
      else case (tl_mode t, tl_token_env t, those (map file_service_of (unwrap_or [] (tl_services t)))) of
             (Some mode, Some token_env, Some services) \<Rightarrow>
               Some \<lparr>fc_mode = mode, fc_transport = unwrap_or default_transport (tl_transport t),
                     fc_token_env = token_env, fc_listen_addr = tl_listen_addr t,
                     fc_tls_cert = tl_tls_cert t, fc_tls_key = tl_tls_key t,
                     fc_allow_public_service_binds = unwrap_or False (tl_allow_public_service_binds t),
                     fc_server_addr = tl_server_addr t, fc_tls_server_name = tl_tls_server_name t,
                     fc_ca_cert = tl_ca_cert t, fc_outbound_proxy_env = tl_outbound_proxy_env t,
                     fc_client_cert = tl_client_cert t, fc_client_key = tl_client_key t,
                     fc_client_ca = tl_client_ca t, fc_services = services\<rparr>
           | _ \<Rightarrow> None)"

section \<open>Output\<close>

record check_error =
  ck_category :: rstr
  ck_message :: rstr

record check_report =
  cr_schema :: rstr
  cr_ok :: bool
  cr_mode :: rstr
  cr_transport :: rstr
  cr_services :: nat
  cr_custom_ca :: bool
  cr_mtls :: bool
  cr_outbound_proxy :: bool
  cr_error :: "check_error option"

datatype cli_event =
    EvStartup rstr rstr rstr "nat option"
  | EvServerListening socket_addr
  | EvServiceBind session_id service_id effective_bind
  | EvSessionReady u64 usize
  | EvSessionLost "term_category option" u64
  | EvSnapshot snapshot
  | EvShutdown

datatype cli_output = OutReport check_report | OutEvent cli_event | OutLine rstr

datatype cli_effect =
    ReadConfig rstr
  | ReadVar rstr
  | StatFile rstr
  | ReadFile rstr
  | Print cli_output
  | BindServer server_builder
  | StartClient client_builder
  | Shutdown

type_synonym 'a cli = "(cli_error + 'a) \<times> cli_effect list"

text \<open>The process: its environment, the file system, third-party parsers, the outcome of building TLS
  material and of opening the listener.\<close>

record cli_env =
  ev_var :: "rstr \<Rightarrow> rstr option"
  ev_text :: "rstr \<Rightarrow> rstr option"
  ev_toml :: "rstr \<Rightarrow> toml_table option"
  ev_metadata :: "rstr \<Rightarrow> (bool \<times> nat) option"
  ev_read :: "rstr \<Rightarrow> bytes option"
  ev_parse_proxy :: "rstr \<Rightarrow> bool"
  ev_tls :: "tunnel_error + unit"
  ev_listener :: "tunnel_error + socket_addr"
  ev_io_text :: "io_kind \<Rightarrow> rstr"
  ev_version :: rstr

definition cli_lift :: "cli_error + 'a \<Rightarrow> 'a cli" where
  "cli_lift r = (r, [])"

definition cli_then :: "'a cli \<Rightarrow> ('a \<Rightarrow> 'b cli) \<Rightarrow> 'b cli" where
  "cli_then m f =
     (case m of
        (Inl e, log) \<Rightarrow> (Err e, log)
      | (Inr x, log) \<Rightarrow> (case f x of (r, later) \<Rightarrow> (r, log @ later)))"

definition cli_fail :: "error_category \<Rightarrow> rstr \<Rightarrow> cli_error + 'a" where
  "cli_fail category message = Err (cli_error_new category message)"

definition quoted :: "string \<Rightarrow> rstr" where
  "quoted s = [39] @ lit s @ [39]"

section \<open>Resolution\<close>

definition read_config :: "cli_env \<Rightarrow> rstr \<Rightarrow> file_config cli" where
  "read_config env path =
     ((case ev_text env path of
         None \<Rightarrow> cli_fail ConfigParse (lit ''configuration file is missing or unreadable'')
       | Some text \<Rightarrow>
           ok_or (cli_error_new ConfigParse (lit ''configuration is not valid TOML''))
             (Option.bind (ev_toml env text) file_config_of)), [ReadConfig path])"

definition override :: "'a option \<Rightarrow> 'a option \<Rightarrow> 'a option" where
  "override value field = (case value of None \<Rightarrow> field | Some v \<Rightarrow> Some v)"

text \<open>The fields are assigned before the port is looked at.\<close>

definition apply_client_overrides :: "client_overrides \<Rightarrow> file_config \<Rightarrow> cli_error + file_config" where
  "apply_client_overrides ov config =
     (let config = config\<lparr>fc_server_addr := override (co_server_addr ov) (fc_server_addr config),
            fc_tls_server_name := override (co_tls_server_name ov) (fc_tls_server_name config),
            fc_transport := unwrap_or (fc_transport config) (co_transport ov),
            fc_ca_cert := override (co_ca_cert ov) (fc_ca_cert config),
            fc_token_env := unwrap_or (fc_token_env config) (co_token_env ov),
            fc_outbound_proxy_env := override (co_outbound_proxy_env ov) (fc_outbound_proxy_env config),
            fc_client_cert := override (co_client_cert ov) (fc_client_cert config),
            fc_client_key := override (co_client_key ov) (fc_client_key config)\<rparr>
      in case co_bind_port ov of
           None \<Rightarrow> Ok config
         | Some port \<Rightarrow>
             if length (fc_services config) \<noteq> 1
             then cli_fail ConfigResolution (lit ''--bind-port requires exactly one configured service'')
             else Ok (config\<lparr>fc_services := (fc_services config)[0 := (fc_services config ! 0)\<lparr>fs_bind_port := port\<rparr>]\<rparr>))"

definition apply_server_overrides :: "server_overrides \<Rightarrow> file_config \<Rightarrow> cli_error + file_config" where
  "apply_server_overrides ov config =
     Ok (config\<lparr>fc_listen_addr := override (so_listen_addr ov) (fc_listen_addr config),
           fc_transport := unwrap_or (fc_transport config) (so_transport ov),
           fc_tls_cert := override (so_tls_cert ov) (fc_tls_cert config),
           fc_tls_key := override (so_tls_key ov) (fc_tls_key config),
           fc_client_ca := override (so_client_ca ov) (fc_client_ca config),
           fc_token_env := unwrap_or (fc_token_env config) (so_token_env ov),
           fc_allow_public_service_binds :=
             (if so_allow_public_service_binds ov then True else fc_allow_public_service_binds config)\<rparr>)"

definition into_bytes :: "rstr \<Rightarrow> bytes" where
  "into_bytes s = map of_nat (str_bytes s)"

definition load_token_with :: "cli_env \<Rightarrow> rstr \<Rightarrow> secret_token cli" where
  "load_token_with env env_name =
     (if env_name = []
      then cli_lift (cli_fail ConfigResolution (lit ''token_env must name an environment variable''))
      else
        ((case ev_var env env_name of
            None \<Rightarrow> cli_fail MissingSecretReference
              (lit ''required environment variable '' @ env_name @ lit '' is not set'')
          | Some value \<Rightarrow>
              map_err (\<lambda>_. cli_error_new ConfigResolution
                (lit ''environment variable '' @ env_name @ lit '' holds an unusable token''))
                (secret_token_new (into_bytes value))), [ReadVar env_name]))"

definition MAX_MATERIAL_BYTES :: nat where
  "MAX_MATERIAL_BYTES = 1024 * 1024"

definition read_material :: "cli_env \<Rightarrow> rstr option \<Rightarrow> rstr \<Rightarrow> bytes option cli" where
  "read_material env path what =
     (let missing = cli_fail ConfigResolution (what @ lit '' file is missing or unreadable'');
          exceeds = cli_fail TlsMaterial (what @ lit '' file exceeds size limit'')
      in case path of
           None \<Rightarrow> cli_lift (Ok None)
         | Some path \<Rightarrow>
             (case ev_metadata env path of
                None \<Rightarrow> (missing, [StatFile path])
              | Some (is_dir, len) \<Rightarrow>
                  if is_dir then (missing, [StatFile path])
                  else if MAX_MATERIAL_BYTES < len then (exceeds, [StatFile path])
                  else
                    ((case ev_read env path of
                        None \<Rightarrow> missing
                      | Some bytes \<Rightarrow>
                          if MAX_MATERIAL_BYTES < length bytes then exceeds
                          else if bytes = [] then cli_fail TlsMaterial (what @ lit '' file must not be empty'')
                          else Ok (Some bytes)), [StatFile path, ReadFile path])))"

definition read_required_material :: "cli_env \<Rightarrow> rstr option \<Rightarrow> rstr \<Rightarrow> bytes cli" where
  "read_required_material env path what =
     cli_then (read_material env path what) (\<lambda>material.
       cli_lift (ok_or (cli_error_new ConfigResolution (what @ lit '' is required but not configured'')) material))"

record resolved_client =
  rc_server_addr :: endpoint
  rc_tls_server_name :: rstr
  rc_ca_pem :: "bytes option"
  rc_token :: secret_token
  rc_services :: "client_service list"
  rc_transport :: client_transport_profile
  rc_outbound_proxy :: "rstr option"
  rc_identity :: "(bytes \<times> bytes) option"

record resolved_server =
  rv_listen_addr :: socket_addr
  rv_certificate_pem :: bytes
  rv_private_key_pem :: bytes
  rv_token :: secret_token
  rv_transport :: server_transport_profile
  rv_allow_public_service_binds :: bool
  rv_client_ca :: "bytes option"

definition cli_client_transport :: "rstr \<Rightarrow> cli_error + client_transport_profile" where
  "cli_client_transport name =
     (if name = lit ''tcp_tls'' then Ok ClientTcpTls
      else if name = lit ''quic'' then Ok ClientQuic
      else if name = lit ''websocket_tls'' then Ok ClientWebSocket
      else cli_fail Transport (lit ''transport must be '' @ quoted ''tcp_tls'' @ lit '', '' @ quoted ''quic'' @
        lit '', or '' @ quoted ''websocket_tls''))"

definition cli_server_transport :: "rstr \<Rightarrow> cli_error + server_transport_profile" where
  "cli_server_transport name =
     (if name = lit ''tcp_tls'' then Ok ServerTcpTls
      else if name = lit ''quic'' then Ok ServerQuic
      else if name = lit ''websocket_tls'' then Ok ServerWebSocket
      else cli_fail Transport (lit ''transport must be '' @ quoted ''tcp_tls'' @ lit '', '' @ quoted ''quic'' @
        lit '', or '' @ quoted ''websocket_tls''))"

fun resolve_services :: "file_service list \<Rightarrow> cli_error + client_service list" where
  "resolve_services [] = Ok []"
| "resolve_services (service # rest) =
     and_then (map_err (\<lambda>_. cli_error_new ConfigResolution (lit ''service name is invalid''))
       (service_name_new (fs_name service))) (\<lambda>name.
     and_then (map_err (\<lambda>_. cli_error_new ConfigResolution (lit ''service target is invalid''))
       (tcp_target_new (fs_target_host service) (fs_target_port service))) (\<lambda>target.
     and_then (resolve_services rest) (\<lambda>services.
       Ok (\<lparr>cs_id = ServiceId (fs_id service), cs_name = name,
             cs_requested_bind = Loopback (fs_bind_port service), cs_target = target\<rparr> # services))))"

definition resolve_client_services :: "file_config \<Rightarrow> cli_error + client_service list" where
  "resolve_client_services config =
     (if fc_services config = []
      then cli_fail ConfigResolution (lit ''client config requires at least one service'')
      else resolve_services (fc_services config))"

definition resolve_proxy :: "cli_env \<Rightarrow> rstr option \<Rightarrow> rstr option cli" where
  "resolve_proxy env name =
     (case name of
        None \<Rightarrow> cli_lift (Ok None)
      | Some name \<Rightarrow>
          ((case ev_var env name of
              None \<Rightarrow> cli_fail MissingSecretReference (lit ''outbound proxy variable '' @ name @ lit '' is missing'')
            | Some value \<Rightarrow>
                if list_all is_whitespace value
                then cli_fail ConfigResolution (lit ''outbound proxy variable '' @ name @ lit '' is empty'')
                else Ok (Some value)), [ReadVar name]))"

text \<open>One half of the identity without the other is refused before the match, whose last arm is
  unreachable.\<close>

definition resolve_identity :: "cli_env \<Rightarrow> file_config \<Rightarrow> (bytes \<times> bytes) option cli" where
  "resolve_identity env config =
     (case (fc_client_cert config, fc_client_key config) of
        (Some cert, Some key) \<Rightarrow>
          cli_then (read_required_material env (Some cert) (lit ''client certificate'')) (\<lambda>certificate.
          cli_then (read_required_material env (Some key) (lit ''client key'')) (\<lambda>key.
            cli_lift (Ok (Some (certificate, key)))))
      | _ \<Rightarrow> cli_lift (Ok None))"

text \<open>The checks before anything is read.\<close>

definition client_structure :: "file_config \<Rightarrow> cli_error + (client_transport_profile \<times> endpoint \<times> rstr)" where
  "client_structure config =
     (if fc_mode config \<noteq> lit ''client''
      then cli_fail ConfigResolution (lit ''mode must be '' @ quoted ''client'' @ lit '' for the client command'')
      else if fc_listen_addr config \<noteq> None \<or> fc_tls_cert config \<noteq> None \<or> fc_tls_key config \<noteq> None \<or>
              fc_client_ca config \<noteq> None \<or> fc_allow_public_service_binds config
      then cli_fail ConfigResolution (lit ''server-only fields are not valid in client mode'')
      else
        and_then (cli_client_transport (fc_transport config)) (\<lambda>transport.
        and_then (ok_or (cli_error_new ConfigResolution (lit ''missing server_addr'')) (fc_server_addr config)) (\<lambda>addr.
        and_then (map_err (\<lambda>_. cli_error_new BindValidation (lit ''server_addr is invalid'')) (endpoint_parse addr)) (\<lambda>server_addr.
        and_then (case fc_tls_server_name config of
                    Some name \<Rightarrow>
                      if name = [] then cli_fail ConfigResolution (lit ''client config requires tls_server_name'') else Ok name
                  | None \<Rightarrow> cli_fail ConfigResolution (lit ''client config requires tls_server_name'')) (\<lambda>tls_server_name.
          if (fc_client_cert config \<noteq> None) \<noteq> (fc_client_key config \<noteq> None)
          then cli_fail ConfigResolution (lit ''client_cert and client_key must be configured together'')
          else if fc_outbound_proxy_env config = Some []
          then cli_fail ConfigResolution (lit ''outbound_proxy_env must name an environment variable'')
          else Ok (transport, server_addr, tls_server_name))))))"

definition resolve_client_with :: "cli_env \<Rightarrow> file_config \<Rightarrow> resolved_client cli" where
  "resolve_client_with env config =
     cli_then (cli_lift (client_structure config)) (\<lambda>(transport, server_addr, tls_server_name).
     cli_then (load_token_with env (fc_token_env config)) (\<lambda>token.
     cli_then (read_material env (fc_ca_cert config) (lit ''CA bundle'')) (\<lambda>ca_pem.
     cli_then (resolve_proxy env (fc_outbound_proxy_env config)) (\<lambda>proxy.
     cli_then (resolve_identity env config) (\<lambda>identity.
     cli_then (cli_lift (resolve_client_services config)) (\<lambda>services.
       cli_lift (Ok \<lparr>rc_server_addr = server_addr, rc_tls_server_name = tls_server_name, rc_ca_pem = ca_pem,
         rc_token = token, rc_services = services, rc_transport = transport, rc_outbound_proxy = proxy,
         rc_identity = identity\<rparr>)))))))"

definition server_structure :: "file_config \<Rightarrow> cli_error + (server_transport_profile \<times> socket_addr)" where
  "server_structure config =
     (if fc_mode config \<noteq> lit ''server''
      then cli_fail ConfigResolution (lit ''mode must be '' @ quoted ''server'' @ lit '' for the server command'')
      else if fc_outbound_proxy_env config \<noteq> None
      then cli_fail ConfigResolution (lit ''outbound_proxy is only valid in client mode'')
      else if fc_server_addr config \<noteq> None \<or> fc_tls_server_name config \<noteq> None \<or> fc_ca_cert config \<noteq> None \<or>
              fc_client_cert config \<noteq> None \<or> fc_client_key config \<noteq> None \<or> fc_services config \<noteq> []
      then cli_fail ConfigResolution (lit ''client-only fields are not valid in server mode'')
      else
        and_then (cli_server_transport (fc_transport config)) (\<lambda>transport.
        and_then (ok_or (cli_error_new ConfigResolution (lit ''server config requires listen_addr''))
          (fc_listen_addr config)) (\<lambda>addr.
        and_then (ok_or (cli_error_new BindValidation
            (lit ''listen_addr must be a socket address such as 127.0.0.1:443'')) (parse_socket_addr addr)) (\<lambda>listen_addr.
          Ok (transport, listen_addr)))))"

definition resolve_server_with :: "cli_env \<Rightarrow> file_config \<Rightarrow> resolved_server cli" where
  "resolve_server_with env config =
     cli_then (cli_lift (server_structure config)) (\<lambda>(transport, listen_addr).
     cli_then (load_token_with env (fc_token_env config)) (\<lambda>token.
     cli_then (read_required_material env (fc_tls_cert config) (lit ''TLS certificate'')) (\<lambda>certificate_pem.
     cli_then (read_required_material env (fc_tls_key config) (lit ''TLS key'')) (\<lambda>private_key_pem.
     cli_then (read_material env (fc_client_ca config) (lit ''client CA'')) (\<lambda>client_ca.
       cli_lift (Ok \<lparr>rv_listen_addr = listen_addr, rv_certificate_pem = certificate_pem,
         rv_private_key_pem = private_key_pem, rv_token = token, rv_transport = transport,
         rv_allow_public_service_binds = fc_allow_public_service_binds config, rv_client_ca = client_ca\<rparr>))))))"

section \<open>Lowering\<close>

definition cli_client_builder :: "resolved_client \<Rightarrow> client_builder" where
  "cli_client_builder resolved =
     (let config = \<lparr>cg_server_addr = ep_text (rc_server_addr resolved), cg_tls_server_name = rc_tls_server_name resolved,
            cg_ca_pem = rc_ca_pem resolved, cg_token = rc_token resolved, cg_services = rc_services resolved\<rparr>;
          builder = client_runtime_policy runtime_policy_default
            (client_transport (rc_transport resolved) (client_builder_new config));
          builder = (case rc_outbound_proxy resolved of None \<Rightarrow> builder | Some proxy \<Rightarrow> with_outbound_proxy proxy builder)
      in case rc_identity resolved of None \<Rightarrow> builder | Some identity \<Rightarrow> with_identity identity builder)"

definition cli_server_builder :: "resolved_server \<Rightarrow> server_builder" where
  "cli_server_builder resolved =
     (let server = \<lparr>sg_listen_addr = rv_listen_addr resolved, sg_certificate_pem = rv_certificate_pem resolved,
            sg_private_key_pem = rv_private_key_pem resolved, sg_token = rv_token resolved,
            sg_allow_public_service_binds = rv_allow_public_service_binds resolved\<rparr>;
          builder = server_bind_policy (bind_policy_default\<lparr>allow_public_addresses := rv_allow_public_service_binds resolved\<rparr>)
            (server_runtime_policy runtime_policy_default
              (server_transport (rv_transport resolved) (server_builder_new server)))
      in case rv_client_ca resolved of None \<Rightarrow> builder | Some client_ca \<Rightarrow> client_ca_pem client_ca builder)"

fun transport_name_client :: "client_transport_profile \<Rightarrow> rstr" where
  "transport_name_client ClientTcpTls = lit ''tcp_tls''"
| "transport_name_client ClientQuic = lit ''quic''"
| "transport_name_client ClientWebSocket = lit ''websocket_tls''"

fun transport_name_server :: "server_transport_profile \<Rightarrow> rstr" where
  "transport_name_server ServerTcpTls = lit ''tcp_tls''"
| "transport_name_server ServerQuic = lit ''quic''"
| "transport_name_server ServerWebSocket = lit ''websocket_tls''"

text \<open>The fields of the debug text of a snapshot.\<close>

datatype debug_value = DebugText rstr | DebugOpt "rstr option" | DebugCount nat | DebugFlag bool | DebugAddr socket_addr

definition configured :: "'a option \<Rightarrow> debug_value" where
  "configured x = DebugOpt (map_option (\<lambda>_. lit ''[configured]'') x)"

definition resolved_client_debug :: "resolved_client \<Rightarrow> (rstr \<times> debug_value) list" where
  "resolved_client_debug r =
     [(lit ''server_addr'', DebugText (ep_text (rc_server_addr r))),
      (lit ''tls_server_name'', DebugText (rc_tls_server_name r)),
      (lit ''ca_pem'', configured (rc_ca_pem r)),
      (lit ''token'', DebugText (lit ''[REDACTED]'')),
      (lit ''services'', DebugCount (length (rc_services r))),
      (lit ''transport'', DebugText (transport_name_client (rc_transport r))),
      (lit ''outbound_proxy'', configured (rc_outbound_proxy r)),
      (lit ''identity'', configured (rc_identity r))]"

definition resolved_server_debug :: "resolved_server \<Rightarrow> (rstr \<times> debug_value) list" where
  "resolved_server_debug r =
     [(lit ''listen_addr'', DebugAddr (rv_listen_addr r)),
      (lit ''certificate_pem'', DebugText (lit ''[configured]'')),
      (lit ''private_key_pem'', DebugText (lit ''[REDACTED]'')),
      (lit ''token'', DebugText (lit ''[REDACTED]'')),
      (lit ''transport'', DebugText (transport_name_server (rv_transport r))),
      (lit ''allow_public_service_binds'', DebugFlag (rv_allow_public_service_binds r)),
      (lit ''client_ca'', configured (rv_client_ca r))]"

section \<open>Reports\<close>

definition CHECK_SCHEMA :: rstr where
  "CHECK_SCHEMA = lit ''eggtunnel.check/v1''"

definition EVENT_SCHEMA :: rstr where
  "EVENT_SCHEMA = lit ''eggtunnel.events/v1''"

definition MIN_SNAPSHOT_INTERVAL_SECS :: u64 where
  "MIN_SNAPSHOT_INTERVAL_SECS = 5"

text \<open>The two flags of a report, which are scoped by the mode.\<close>

definition report_flags :: "file_config \<Rightarrow> bool \<times> bool" where
  "report_flags config =
     (if fc_mode config = lit ''client''
      then (fc_ca_cert config \<noteq> None, fc_client_cert config \<noteq> None \<or> fc_client_key config \<noteq> None)
      else if fc_mode config = lit ''server'' then (False, fc_client_ca config \<noteq> None)
      else (fc_ca_cert config \<noteq> None \<or> fc_client_ca config \<noteq> None,
            fc_client_cert config \<noteq> None \<or> fc_client_ca config \<noteq> None))"

definition check_report_ok :: "file_config \<Rightarrow> rstr \<Rightarrow> check_report" where
  "check_report_ok config transport =
     (case report_flags config of (custom_ca, mtls) \<Rightarrow>
        \<lparr>cr_schema = CHECK_SCHEMA, cr_ok = True, cr_mode = fc_mode config, cr_transport = transport,
         cr_services = length (fc_services config), cr_custom_ca = custom_ca, cr_mtls = mtls,
         cr_outbound_proxy = (fc_outbound_proxy_env config \<noteq> None), cr_error = None\<rparr>)"

definition check_report_err :: "file_config option \<Rightarrow> cli_error \<Rightarrow> check_report" where
  "check_report_err config error =
     (case (case config of None \<Rightarrow> (False, False) | Some c \<Rightarrow> report_flags c) of (custom_ca, mtls) \<Rightarrow>
        \<lparr>cr_schema = CHECK_SCHEMA, cr_ok = False,
         cr_mode = (case config of None \<Rightarrow> [] | Some c \<Rightarrow> fc_mode c),
         cr_transport = (case config of None \<Rightarrow> [] | Some c \<Rightarrow> fc_transport c),
         cr_services = (case config of None \<Rightarrow> 0 | Some c \<Rightarrow> length (fc_services c)),
         cr_custom_ca = custom_ca, cr_mtls = mtls,
         cr_outbound_proxy = (case config of None \<Rightarrow> False | Some c \<Rightarrow> fc_outbound_proxy_env c \<noteq> None),
         cr_error = Some \<lparr>ck_category = category_str (er_category error), ck_message = er_message error\<rparr>\<rparr>)"

definition validate_snapshot_interval :: "u64 option \<Rightarrow> cli_error + duration option" where
  "validate_snapshot_interval value =
     (case value of
        None \<Rightarrow> Ok None
      | Some secs \<Rightarrow>
          if secs < MIN_SNAPSHOT_INTERVAL_SECS
          then cli_fail ConfigResolution
            (lit ''snapshot interval must be at least '' @ decimal (unat MIN_SNAPSHOT_INTERVAL_SECS) @ lit '' seconds'')
          else Ok (Some (from_secs (unat secs))))"

section \<open>Events\<close>

text \<open>The values the \<open>json!\<close> macro builds; the keys are in the order of the source.\<close>

datatype json = JNull | JBool bool | JNum nat | JStr rstr | JArr "json list" | JObj "(rstr \<times> json) list"

definition session_id_debug :: "session_id \<Rightarrow> rstr" where
  "session_id_debug s = lit ''SessionId([REDACTED])''"

fun term_category_debug :: "term_category \<Rightarrow> rstr" where
  "term_category_debug TcClean = lit ''Clean''"
| "term_category_debug TcCancelled = lit ''Cancelled''"
| "term_category_debug TcTimeout = lit ''Timeout''"
| "term_category_debug TcAuthentication = lit ''Authentication''"
| "term_category_debug TcAuthorization = lit ''Authorization''"
| "term_category_debug TcProtocol = lit ''Protocol''"
| "term_category_debug TcTransport = lit ''Transport''"
| "term_category_debug TcTarget = lit ''Target''"
| "term_category_debug TcResourceExhausted = lit ''ResourceExhausted''"
| "term_category_debug TcPeerClosed = lit ''PeerClosed''"
| "term_category_debug TcInternal = lit ''Internal''"

definition termination_json :: "term_category option \<Rightarrow> json" where
  "termination_json t = (case t of None \<Rightarrow> JNull | Some t \<Rightarrow> JStr (term_category_debug t))"

fun service_number :: "service_id \<Rightarrow> u64" where
  "service_number (ServiceId n) = n"

fun bind_fields :: "bind_entry \<Rightarrow> (rstr \<times> json) list" where
  "bind_fields (session, service, bind) =
     [(lit ''session'', JStr (session_id_debug session)),
      (lit ''service_id'', JNum (unat (service_number service))),
      (lit ''address'', JStr (ipv6_text (eb_address bind))),
      (lit ''port'', JNum (unat (eb_port bind)))]"

definition snapshot_event :: "snapshot \<Rightarrow> json" where
  "snapshot_event sn = JObj
     [(lit ''schema'', JStr EVENT_SCHEMA),
      (lit ''event'', JStr (lit ''snapshot'')),
      (lit ''connected'', JBool (sn_connected sn)),
      (lit ''active_sessions'', JNum (unat (sn_active_sessions sn))),
      (lit ''registered_services'', JNum (unat (sn_registered_services sn))),
      (lit ''pending_connections'', JNum (unat (sn_pending_connections sn))),
      (lit ''active_connections'', JNum (unat (sn_active_connections sn))),
      (lit ''active_client_open_tasks'', JNum (unat (sn_active_client_open_tasks sn))),
      (lit ''active_handshakes'', JNum (unat (sn_active_handshakes sn))),
      (lit ''reconnects'', JNum (unat (sn_reconnects sn))),
      (lit ''rejected_connections'', JNum (unat (sn_rejected_connections sn))),
      (lit ''bytes_upstream'', JNum (unat (sn_bytes_upstream sn))),
      (lit ''bytes_downstream'', JNum (unat (sn_bytes_downstream sn))),
      (lit ''task_panics'', JNum (unat (sn_task_panics sn))),
      (lit ''last_termination'', termination_json (sn_last_termination sn)),
      (lit ''missed_heartbeats'', JNum (unat (hb_missed_heartbeats (sn_heartbeat sn)))),
      (lit ''session_generation'', JNum (unat (hb_session_generation (sn_heartbeat sn)))),
      (lit ''effective_binds'', JArr (map (\<lambda>b. JObj (bind_fields b)) (sn_effective_binds sn)))]"

definition event_object :: "string \<Rightarrow> (rstr \<times> json) list \<Rightarrow> json" where
  "event_object event entries = JObj ([(lit ''schema'', JStr EVENT_SCHEMA), (lit ''event'', JStr (lit event))] @ entries)"

text \<open>\<open>EvStartup\<close> carries version, mode, transport and, for a client, the number of services.\<close>

fun event_json :: "cli_event \<Rightarrow> json" where
  "event_json (EvStartup version mode transport services) =
     event_object ''startup'' ([(lit ''version'', JStr version), (lit ''mode'', JStr mode), (lit ''transport'', JStr transport)] @
       (case services of None \<Rightarrow> [] | Some n \<Rightarrow> [(lit ''services'', JNum n)]))"
| "event_json (EvServerListening addr) = event_object ''server_listening'' [(lit ''addr'', JStr (socket_text addr))]"
| "event_json (EvServiceBind session service bind) = event_object ''service_bind'' (bind_fields (session, service, bind))"
| "event_json (EvSessionReady generation services) =
     event_object ''session_ready'' [(lit ''generation'', JNum (unat generation)),
       (lit ''registered_services'', JNum (unat services))]"
| "event_json (EvSessionLost termination reconnects) =
     event_object ''session_lost'' [(lit ''termination'', termination_json termination),
       (lit ''reconnects'', JNum (unat reconnects))]"
| "event_json (EvSnapshot sn) = snapshot_event sn"
| "event_json EvShutdown = event_object ''shutdown'' [(lit ''reason'', JStr (lit ''signal''))]"

section \<open>Check\<close>

definition check_outcome :: "cli_env \<Rightarrow> file_config \<Rightarrow> rstr cli" where
  "check_outcome env config =
     (if fc_mode config = lit ''client''
      then cli_then (resolve_client_with env config) (\<lambda>resolved.
             cli_lift (and_then (map_err (from_tunnel_error (ev_io_text env))
               (client_builder_validate (ev_parse_proxy env) (cli_client_builder resolved))) (\<lambda>_.
                 Ok (transport_name_client (rc_transport resolved)))))
      else if fc_mode config = lit ''server''
      then cli_then (resolve_server_with env config) (\<lambda>resolved.
             cli_lift (and_then (map_err (from_tunnel_error (ev_io_text env))
               (server_builder_validate (cli_server_builder resolved))) (\<lambda>_.
                 Ok (transport_name_server (rv_transport resolved)))))
      else cli_lift (cli_fail ConfigResolution
             (lit ''mode must be '' @ quoted ''client'' @ lit '' or '' @ quoted ''server'')))"

definition run_check :: "cli_env \<Rightarrow> rstr \<Rightarrow> bool \<Rightarrow> unit cli" where
  "run_check env path json =
     cli_then (read_config env path) (\<lambda>config.
       case check_outcome env config of
         (Inr transport, log) \<Rightarrow>
           (Ok (), log @ [Print (if json then OutReport (check_report_ok config transport)
                                 else OutLine (lit ''configuration is structurally valid''))])
       | (Inl error, log) \<Rightarrow>
           (Err error, log @ (if json then [Print (OutReport (check_report_err (Some config) error))] else [])))"

section \<open>Server\<close>

type_synonym bind_key = "session_id \<times> service_id \<times> bytes \<times> u16"

fun bind_key :: "bind_entry \<Rightarrow> bind_key" where
  "bind_key (session, service, bind) = (session, service, eb_address bind, eb_port bind)"

definition bind_output :: "bool \<Rightarrow> bind_entry \<Rightarrow> cli_output" where
  "bind_output json b =
     (case b of (session, service, bind) \<Rightarrow>
        if json then OutEvent (EvServiceBind session service bind)
        else OutLine (lit ''service '' @ decimal (unat (service_number service)) @ lit '' session '' @ session_id_debug session @
               lit '' listening on ['' @ ipv6_text (eb_address bind) @ lit '']:'' @ decimal (unat (eb_port bind))))"

fun print_binds :: "bool \<Rightarrow> bind_entry list \<Rightarrow> bind_key list \<Rightarrow> cli_effect list \<times> bind_key list" where
  "print_binds json [] printed = ([], printed)"
| "print_binds json (b # binds) printed =
     (if bind_key b \<in> set printed then print_binds json binds printed
      else case print_binds json binds (bind_key b # printed) of
             (out, printed) \<Rightarrow> (Print (bind_output json b) # out, printed))"

definition server_refresh :: "bool \<Rightarrow> bind_entry list \<Rightarrow> bind_key list \<Rightarrow> cli_effect list \<times> bind_key list" where
  "server_refresh json binds printed =
     (let live = set (map bind_key binds) in print_binds json binds (filter (\<lambda>key. key \<in> live) printed))"

text \<open>The ticks of the loop until the signal, with what the handle reports then. Without an interval the
  snapshot branch is pending forever.\<close>

datatype server_tick = ServerRefresh "bind_entry list" | ServerSnapshot snapshot

fun server_loop :: "bool \<Rightarrow> duration option \<Rightarrow> server_tick list \<Rightarrow> bind_key list \<Rightarrow> cli_effect list" where
  "server_loop json every [] printed = []"
| "server_loop json every (ServerRefresh binds # ticks) printed =
     (case server_refresh json binds printed of (out, printed) \<Rightarrow> out @ server_loop json every ticks printed)"
| "server_loop json every (ServerSnapshot sn # ticks) printed =
     (if every = None then [] else [Print (OutEvent (EvSnapshot sn))]) @ server_loop json every ticks printed"

definition cli_bind :: "cli_env \<Rightarrow> server_builder \<Rightarrow> socket_addr cli" where
  "cli_bind env b =
     (map_err (from_tunnel_error (ev_io_text env))
        (and_then (server_builder_bind b (ev_tls env) True) (\<lambda>_. ev_listener env)), [BindServer b])"

definition finish_output :: "bool \<Rightarrow> cli_effect list" where
  "finish_output json = (if json then [Print (OutEvent EvShutdown)] else []) @ [Shutdown]"

definition server_startup :: "cli_env \<Rightarrow> bool \<Rightarrow> rstr \<Rightarrow> socket_addr \<Rightarrow> cli_effect list" where
  "server_startup env json transport addr =
     (if json
      then [Print (OutEvent (EvStartup (ev_version env) (lit ''server'') transport None)),
            Print (OutEvent (EvServerListening addr))]
      else [Print (OutLine (lit ''server listening on '' @ socket_text addr))])"

definition run_server :: "cli_env \<Rightarrow> rstr \<Rightarrow> server_overrides \<Rightarrow> bool \<Rightarrow> u64 option \<Rightarrow> server_tick list \<Rightarrow> unit cli" where
  "run_server env path overrides json interval ticks =
     cli_then (cli_lift (validate_snapshot_interval interval)) (\<lambda>every.
     cli_then (read_config env path) (\<lambda>config.
     cli_then (cli_lift (apply_server_overrides overrides config)) (\<lambda>config.
     cli_then (resolve_server_with env config) (\<lambda>resolved.
     cli_then (cli_bind env (cli_server_builder resolved)) (\<lambda>addr.
       (Ok (), server_startup env json (transport_name_server (rv_transport resolved)) addr @
          server_loop json every ticks [] @ finish_output json))))))"

section \<open>Client\<close>

datatype client_tick = ClientRefresh snapshot | ClientSnapshot snapshot

definition client_refresh :: "snapshot \<Rightarrow> bool \<Rightarrow> cli_effect list" where
  "client_refresh sn was_connected =
     (if sn_connected sn \<and> \<not> was_connected
      then [Print (OutEvent (EvSessionReady (hb_session_generation (sn_heartbeat sn)) (sn_registered_services sn)))]
      else if \<not> sn_connected sn \<and> was_connected
      then [Print (OutEvent (EvSessionLost (sn_last_termination sn) (sn_reconnects sn)))]
      else [])"

text \<open>Without \<open>--json\<close> the refresh branch is pending forever.\<close>

fun client_loop :: "bool \<Rightarrow> duration option \<Rightarrow> client_tick list \<Rightarrow> bool \<Rightarrow> cli_effect list" where
  "client_loop json every [] was_connected = []"
| "client_loop json every (ClientRefresh sn # ticks) was_connected =
     (if json then client_refresh sn was_connected @ client_loop json every ticks (sn_connected sn)
      else client_loop json every ticks was_connected)"
| "client_loop json every (ClientSnapshot sn # ticks) was_connected =
     (if every = None then [] else [Print (OutEvent (EvSnapshot sn))]) @ client_loop json every ticks was_connected"

definition cli_start :: "cli_env \<Rightarrow> client_builder \<Rightarrow> start_plan cli" where
  "cli_start env b =
     (map_err (from_tunnel_error (ev_io_text env)) (start_profile (ev_parse_proxy env) b (ev_tls env) True), [StartClient b])"

definition client_startup :: "cli_env \<Rightarrow> bool \<Rightarrow> rstr \<Rightarrow> nat \<Rightarrow> cli_effect list" where
  "client_startup env json transport services =
     [Print (if json then OutEvent (EvStartup (ev_version env) (lit ''client'') transport (Some services))
             else OutLine (lit ''client started; waiting for authenticated session''))]"

definition run_client :: "cli_env \<Rightarrow> rstr \<Rightarrow> client_overrides \<Rightarrow> bool \<Rightarrow> u64 option \<Rightarrow> client_tick list \<Rightarrow> unit cli" where
  "run_client env path overrides json interval ticks =
     cli_then (cli_lift (validate_snapshot_interval interval)) (\<lambda>every.
     cli_then (read_config env path) (\<lambda>config.
     cli_then (cli_lift (apply_client_overrides overrides config)) (\<lambda>config.
     cli_then (resolve_client_with env config) (\<lambda>resolved.
     cli_then (cli_start env (cli_client_builder resolved)) (\<lambda>_.
       (Ok (), client_startup env json (transport_name_client (rc_transport resolved)) (length (rc_services resolved)) @
          client_loop json every ticks False @ finish_output json))))))"

definition cli_main :: "cli_env \<Rightarrow> command \<Rightarrow> server_tick list \<Rightarrow> client_tick list \<Rightarrow> unit cli" where
  "cli_main env command server_ticks client_ticks =
     (case command of
        CliVersion \<Rightarrow> (Ok (), [Print (OutLine (lit ''eggtunnel '' @ ev_version env))])
      | CliCheck path json \<Rightarrow> run_check env path json
      | CliServer path overrides json interval \<Rightarrow> run_server env path overrides json interval server_ticks
      | CliClient path overrides json interval \<Rightarrow> run_client env path overrides json interval client_ticks)"

end
