(* ===== verification/Cli_Correct.thy ===== *)
theory Cli_Correct
  imports Cli Client_Session Frame_Correct
begin

text \<open>
  Correctness of the command line: what a resolved snapshot satisfies, that \<open>check\<close> decides what a launch
  would do, and what the event stream says about binds and Sessions.
\<close>

section \<open>Results and effects\<close>

lemma cli_simps [simp]:
  "fst (cli_lift r) = r" "snd (cli_lift r) = []"
  "fst (cli_then m f) = and_then (fst m) (\<lambda>x. fst (f x))"
  "snd (cli_then m f) = snd m @ (case fst m of Inl _ \<Rightarrow> [] | Inr x \<Rightarrow> snd (f x))"
  by (auto simp: cli_lift_def cli_then_def and_then_def split: prod.splits sum.splits)

lemma cli_fail_eq [simp]: "cli_fail c m \<noteq> Ok x" "is_ok (cli_fail c m) = False"
  by (simp_all add: cli_fail_def)

section \<open>What resolution delivers\<close>

definition material :: "bytes \<Rightarrow> bool" where
  "material b \<longleftrightarrow> b \<noteq> [] \<and> length b \<le> MAX_MATERIAL_BYTES"

lemma material_frame: "material b \<Longrightarrow> length b \<le> MAX_FRAME_BYTES"
  by (simp add: material_def MAX_MATERIAL_BYTES_def const_defs)

lemma load_token_Ok: "fst (load_token_with env name) = Ok t \<Longrightarrow> expose t \<noteq> [] \<and> length (expose t) \<le> MAX_AUTH_TOKEN_BYTES"
  by (auto simp: load_token_with_def secret_token_new_def res_simps split: if_splits option.splits)

lemma read_material_Ok: "fst (read_material env path what) = Ok (Some b) \<Longrightarrow> material b"
  by (auto simp: read_material_def Let_def material_def cli_fail_def split: option.splits if_splits prod.splits)

lemma required_material_Ok: "fst (read_required_material env path what) = Ok b \<Longrightarrow> material b"
  by (auto simp: read_required_material_def res_simps dest: read_material_Ok)

lemma resolve_identity_Ok: "fst (resolve_identity env config) = Ok (Some (cert, key)) \<Longrightarrow> material cert \<and> material key"
  by (auto simp: resolve_identity_def res_simps dest: required_material_Ok split: option.splits)

lemma resolve_proxy_Ok: "fst (resolve_proxy env name) = Ok (Some p) \<Longrightarrow> \<not> list_all is_whitespace p"
  by (auto simp: resolve_proxy_def split: option.splits if_splits)

lemma resolve_services_Ok:
  "resolve_services ss = Ok rs \<Longrightarrow> \<forall>s\<in>set ss. wf_str (fs_target_host s) \<Longrightarrow>
     length rs = length ss \<and> (\<forall>s\<in>set rs. wf_message (RegisterService (registration_of s)))"
proof (induction ss arbitrary: rs)
  case (Cons s ss)
  then obtain name target rest where parts: "service_name_new (fs_name s) = Ok name"
    "tcp_target_new (fs_target_host s) (fs_target_port s) = Ok target" "resolve_services ss = Ok rest"
    "rs = \<lparr>cs_id = ServiceId (fs_id s), cs_name = name, cs_requested_bind = Loopback (fs_bind_port s), cs_target = target\<rparr> # rest"
    by (auto simp: res_simps)
  have "wf_name name" "wf_target target"
    using service_name_new_wf [OF parts(1)] tcp_target_new_wf [OF _ parts(2)] Cons.prems(2) by simp_all
  then show ?case using Cons.IH [OF parts(3)] Cons.prems(2) parts(4) by (simp add: registration_of_def)
qed simp

lemma endpoint_text: "endpoint_parse v = Ok e \<Longrightarrow> ep_text e = v"
  by (auto simp: endpoint_parse_def res_simps split: prod.splits if_splits)

lemma client_structure_Ok:
  "client_structure config = Ok (transport, addr, name) \<Longrightarrow>
     endpoint_parse (ep_text addr) = Ok addr \<and> name \<noteq> [] \<and> transport_name_client transport = fc_transport config"
  by (auto simp: client_structure_def cli_client_transport_def res_simps split: if_splits option.splits dest: endpoint_text)

lemma resolve_client_Ok:
  "fst (resolve_client_with env config) = Ok r \<longleftrightarrow>
     client_structure config = Ok (rc_transport r, rc_server_addr r, rc_tls_server_name r) \<and>
     fst (load_token_with env (fc_token_env config)) = Ok (rc_token r) \<and>
     fst (read_material env (fc_ca_cert config) (lit ''CA bundle'')) = Ok (rc_ca_pem r) \<and>
     fst (resolve_proxy env (fc_outbound_proxy_env config)) = Ok (rc_outbound_proxy r) \<and>
     fst (resolve_identity env config) = Ok (rc_identity r) \<and>
     resolve_client_services config = Ok (rc_services r)"
  by (cases r) (auto simp: resolve_client_with_def res_simps split: prod.splits)

text \<open>C13: what the client command resolves is well typed. Every service becomes a registration that
  satisfies the bounds of the protocol, and the token an \<open>Auth\<close> message, so both can be encoded; the
  address is a valid endpoint and keeps its text, name and services are not empty, every certificate,
  key and bundle is within the size limit of the library and the proxy is not blank.\<close>

theorem resolve_client_typed:
  assumes "fst (resolve_client_with env config) = Ok r"
    and "\<forall>s\<in>set (fc_services config). wf_str (fs_target_host s)"
  shows "(\<forall>s\<in>set (rc_services r). wf_message (RegisterService (registration_of s))) \<and>
    rc_services r \<noteq> [] \<and> length (rc_services r) = length (fc_services config) \<and>
    wf_message (Auth (expose (rc_token r))) \<and> auth_new (expose (rc_token r)) = Ok (Auth (expose (rc_token r))) \<and>
    fc_server_addr config = Some (ep_text (rc_server_addr r)) \<and>
    endpoint_parse (ep_text (rc_server_addr r)) = Ok (rc_server_addr r) \<and>
    rc_tls_server_name r \<noteq> [] \<and> transport_name_client (rc_transport r) = fc_transport config \<and>
    (\<forall>pem. rc_ca_pem r = Some pem \<longrightarrow> pem \<noteq> [] \<and> length pem \<le> MAX_FRAME_BYTES) \<and>
    (\<forall>cert key. rc_identity r = Some (cert, key) \<longrightarrow>
       cert \<noteq> [] \<and> key \<noteq> [] \<and> length cert \<le> MAX_FRAME_BYTES \<and> length key \<le> MAX_FRAME_BYTES) \<and>
    (\<forall>proxy. rc_outbound_proxy r = Some proxy \<longrightarrow> \<not> list_all is_whitespace proxy)"
proof -
  note parts = assms(1) [unfolded resolve_client_Ok]
  have shape: "endpoint_parse (ep_text (rc_server_addr r)) = Ok (rc_server_addr r)" "rc_tls_server_name r \<noteq> []"
    "transport_name_client (rc_transport r) = fc_transport config" "fc_server_addr config = Some (ep_text (rc_server_addr r))"
    using parts client_structure_Ok [of config] by (auto simp: client_structure_def res_simps dest: endpoint_text split: if_splits)
  have token: "expose (rc_token r) \<noteq> []" "length (expose (rc_token r)) \<le> MAX_AUTH_TOKEN_BYTES"
    using parts load_token_Ok by blast+
  have services: "fc_services config \<noteq> []" "length (rc_services r) = length (fc_services config)"
    "\<forall>s\<in>set (rc_services r). wf_message (RegisterService (registration_of s))"
    using parts resolve_services_Ok [OF _ assms(2)] by (auto simp: resolve_client_services_def split: if_splits)
  have ca: "material pem" if "rc_ca_pem r = Some pem" for pem
    using parts that by (auto intro: read_material_Ok)
  have identity: "material cert \<and> material key" if "rc_identity r = Some (cert, key)" for cert key
    using parts that resolve_identity_Ok by metis
  have proxy: "\<not> list_all is_whitespace p" if "rc_outbound_proxy r = Some p" for p
    using parts that resolve_proxy_Ok by metis
  show ?thesis
    using shape token services ca identity proxy material_frame
    by (auto simp: auth_new_def material_def)
qed

section \<open>Checking and launching\<close>

definition no_client_overrides :: client_overrides where
  "no_client_overrides = \<lparr>co_server_addr = None, co_tls_server_name = None, co_transport = None, co_ca_cert = None,
     co_token_env = None, co_outbound_proxy_env = None, co_client_cert = None, co_client_key = None, co_bind_port = None\<rparr>"

definition no_server_overrides :: server_overrides where
  "no_server_overrides = \<lparr>so_listen_addr = None, so_transport = None, so_tls_cert = None, so_tls_key = None,
     so_client_ca = None, so_token_env = None, so_allow_public_service_binds = False\<rparr>"

lemma no_overrides:
  "apply_client_overrides no_client_overrides config = Ok config"
  "apply_server_overrides no_server_overrides config = Ok config"
  by (simp_all add: apply_client_overrides_def apply_server_overrides_def no_client_overrides_def no_server_overrides_def
      override_def unwrap_or_def)

lemma overrides_mode:
  "apply_client_overrides co config = Ok config' \<Longrightarrow> fc_mode config' = fc_mode config"
  "apply_server_overrides so config = Ok config' \<Longrightarrow> fc_mode config' = fc_mode config"
  by (auto simp: apply_client_overrides_def apply_server_overrides_def Let_def split: option.splits if_splits)

definition check_result :: "cli_env \<Rightarrow> file_config \<Rightarrow> cli_error + unit" where
  "check_result env config = and_then (fst (check_outcome env config)) (\<lambda>_. Ok ())"

lemma fst_run_check: "fst (run_check env path json) = and_then (fst (read_config env path)) (check_result env)"
  by (auto simp: run_check_def check_result_def and_then_def split: sum.splits prod.splits)

lemma cli_start_result:
  assumes "ev_tls env = Ok ()"
  shows "and_then (fst (cli_start env b)) (\<lambda>_. Ok ()) =
    map_err (from_tunnel_error (ev_io_text env)) (client_builder_validate (ev_parse_proxy env) b)"
proof (cases "client_builder_validate (ev_parse_proxy env) b")
  case (Inl e)
  then show ?thesis by (simp add: cli_start_def start_profile_def Let_def)
next
  case (Inr u)
  then obtain plan where "start_profile (ev_parse_proxy env) b (Ok ()) True = Ok plan"
    using start_profile_valid by (auto simp: is_ok_conv)
  with Inr assms show ?thesis by (simp add: cli_start_def)
qed

lemma cli_bind_result:
  assumes "ev_tls env = Ok ()" and "ev_listener env = Ok addr"
  shows "and_then (fst (cli_bind env b)) (\<lambda>_. Ok ()) = map_err (from_tunnel_error (ev_io_text env)) (server_builder_validate b)"
proof (cases "server_builder_validate b")
  case (Inl e)
  then show ?thesis by (simp add: cli_bind_def server_builder_bind_def)
next
  case (Inr u)
  then obtain plan where "server_builder_bind b (Ok ()) True = Ok plan"
    using server_bind_valid by (auto simp: is_ok_conv)
  with Inr assms show ?thesis by (simp add: cli_bind_def)
qed

lemma client_launch_result:
  assumes "ev_tls env = Ok ()" and "fc_mode config = lit ''client''"
  shows "and_then (fst (resolve_client_with env config)) (\<lambda>r. and_then (fst (cli_start env (cli_client_builder r))) (\<lambda>_. Ok ())) =
    check_result env config"
  unfolding cli_start_result [OF assms(1)]
  by (simp add: check_result_def check_outcome_def assms(2) and_then_def map_err_def split: sum.split)

lemma server_launch_result:
  assumes "ev_tls env = Ok ()" "ev_listener env = Ok addr" and "fc_mode config = lit ''server''"
  shows "and_then (fst (resolve_server_with env config)) (\<lambda>r. and_then (fst (cli_bind env (cli_server_builder r))) (\<lambda>_. Ok ())) =
    check_result env config"
  unfolding cli_bind_result [OF assms(1,2)]
  by (simp add: check_result_def check_outcome_def assms(3) lit_def and_then_def map_err_def split: sum.split)

lemma wrong_mode:
  "fc_mode config \<noteq> lit ''client'' \<Longrightarrow> \<not> is_ok (fst (resolve_client_with env config))"
  "fc_mode config \<noteq> lit ''server'' \<Longrightarrow> \<not> is_ok (fst (resolve_server_with env config))"
  by (simp_all add: resolve_client_with_def resolve_server_with_def client_structure_def server_structure_def cli_fail_def)

definition launches :: "cli_effect \<Rightarrow> bool" where
  "launches e \<longleftrightarrow> (\<exists>b. e = BindServer b) \<or> (\<exists>b. e = StartClient b) \<or> e = Shutdown"


lemma reads_no_launch:
  "e \<in> set (snd (read_config env path)) \<Longrightarrow> \<not> launches e"
  "e \<in> set (snd (load_token_with env name)) \<Longrightarrow> \<not> launches e"
  "e \<in> set (snd (read_material env path' what)) \<Longrightarrow> \<not> launches e"
  "e \<in> set (snd (resolve_proxy env proxy)) \<Longrightarrow> \<not> launches e"
  by (auto simp: read_config_def load_token_with_def read_material_def resolve_proxy_def Let_def launches_def
      split: option.splits if_splits prod.splits)

lemma required_no_launch: "e \<in> set (snd (read_required_material env path what)) \<Longrightarrow> \<not> launches e"
  by (auto simp: read_required_material_def dest: reads_no_launch split: sum.splits)

lemma identity_no_launch: "e \<in> set (snd (resolve_identity env config)) \<Longrightarrow> \<not> launches e"
  by (auto simp: resolve_identity_def dest: required_no_launch split: option.splits sum.splits)

lemma resolve_no_launch:
  "e \<in> set (snd (resolve_client_with env config)) \<Longrightarrow> \<not> launches e"
  "e \<in> set (snd (resolve_server_with env config)) \<Longrightarrow> \<not> launches e"
  by (auto simp: resolve_client_with_def resolve_server_with_def dest: reads_no_launch required_no_launch identity_no_launch
      split: sum.splits prod.splits)

lemma check_no_launch: "\<forall>e\<in>set (snd (run_check env path json)). \<not> launches e"
proof -
  have print: "\<not> launches (Print out)" for out by (simp add: launches_def)
  have outcome: "\<not> launches e" if "e \<in> set (snd (check_outcome env config))" for e config
    using that resolve_no_launch by (fastforce simp: check_outcome_def split: if_splits sum.splits)
  have tail: "\<not> launches e" if "e \<in> set (snd (case check_outcome env config of
      (Inr transport, log) \<Rightarrow> (Ok (), log @ [Print (f transport)]) | (Inl error, log) \<Rightarrow> (Err error, log @ g error)))"
    "\<And>x. g x = [] \<or> (\<exists>out. g x = [Print out])" for e config f and g :: "cli_error \<Rightarrow> cli_effect list"
  proof (cases "check_outcome env config")
    case (Pair r log)
    then show ?thesis using that outcome [of e config] print by (cases r) (auto, metis empty_iff empty_set insert_iff list.set(2) print that(2))
  qed
  show ?thesis
    unfolding run_check_def using reads_no_launch(1) tail by (auto split: sum.splits if_splits)
qed

text \<open>C12: \<open>check\<close> decides what a launch would do. For a readable file, with TLS material that can be built
  and a listener that can be opened, the client and the server command return exactly the result of
  checking the file with the overrides applied, error included, and without overrides exactly what
  \<open>check\<close> returns; the mode cannot be overridden, and a command in the wrong mode fails. A check
  launches nothing. A snapshot interval that is too short fails before anything is read.\<close>

theorem check_agrees_with_launch:
  assumes "ev_tls env = Ok ()" "ev_listener env = Ok addr" "fst (read_config env path) = Ok config"
  shows "fst (run_check env path json) = check_result env config \<and>
    (\<forall>e\<in>set (snd (run_check env path json)). \<not> launches e) \<and>
    (fc_mode config = lit ''client'' \<longrightarrow>
       fst (run_client env path co j None ct) = and_then (apply_client_overrides co config) (check_result env) \<and>
       fst (run_client env path no_client_overrides j None ct) = fst (run_check env path json)) \<and>
    (fc_mode config = lit ''server'' \<longrightarrow>
       fst (run_server env path so j None st) = and_then (apply_server_overrides so config) (check_result env) \<and>
       fst (run_server env path no_server_overrides j None st) = fst (run_check env path json)) \<and>
    (fc_mode config \<noteq> lit ''client'' \<longrightarrow> \<not> is_ok (fst (run_client env path co j interval ct))) \<and>
    (fc_mode config \<noteq> lit ''server'' \<longrightarrow> \<not> is_ok (fst (run_server env path so j interval st))) \<and>
    (\<forall>n < MIN_SNAPSHOT_INTERVAL_SECS. \<not> is_ok (fst (run_client env path co j (Some n) ct)) \<and> snd (run_client env path co j (Some n) ct) = [] \<and>
       \<not> is_ok (fst (run_server env path so j (Some n) st)) \<and> snd (run_server env path so j (Some n) st) = [])"
proof -
  have check: "fst (run_check env path json) = check_result env config"
    using assms(3) by (simp add: fst_run_check)
  have client: "fst (run_client env path ov j None ct) = and_then (apply_client_overrides ov config) (check_result env)"
    if "fc_mode config = lit ''client''" for ov
  proof (cases "apply_client_overrides ov config")
    case (Inr c)
    then have "fc_mode c = lit ''client''" using that overrides_mode by metis
    from client_launch_result [OF assms(1) this] Inr show ?thesis
      by (simp add: run_client_def validate_snapshot_interval_def assms(3))
  qed (simp add: run_client_def validate_snapshot_interval_def assms(3))
  have server: "fst (run_server env path ov j None st) = and_then (apply_server_overrides ov config) (check_result env)"
    if "fc_mode config = lit ''server''" for ov
  proof (cases "apply_server_overrides ov config")
    case (Inr c)
    then have "fc_mode c = lit ''server''" using that overrides_mode by metis
    from server_launch_result [OF assms(1,2) this] Inr show ?thesis
      by (simp add: run_server_def validate_snapshot_interval_def assms(3))
  qed (simp add: run_server_def validate_snapshot_interval_def assms(3))
  have wrong: "\<not> is_ok (fst (run_client env path co j interval ct))" if "fc_mode config \<noteq> lit ''client''"
    using that wrong_mode(1) overrides_mode(1)
    by (fastforce simp: run_client_def is_ok_conv res_simps assms(3))
  have wrong': "\<not> is_ok (fst (run_server env path so j interval st))" if "fc_mode config \<noteq> lit ''server''"
    using that wrong_mode(2) overrides_mode(2)
    by (fastforce simp: run_server_def is_ok_conv res_simps assms(3))
  have early: "\<not> is_ok (fst (run_client env path co j (Some n) ct)) \<and> snd (run_client env path co j (Some n) ct) = [] \<and>
       \<not> is_ok (fst (run_server env path so j (Some n) st)) \<and> snd (run_server env path so j (Some n) st) = []"
    if "n < MIN_SNAPSHOT_INTERVAL_SECS" for n
    using that by (simp add: run_client_def run_server_def validate_snapshot_interval_def cli_fail_def)
  show ?thesis
    using check check_no_launch client server wrong wrong' early by (simp add: no_overrides)
qed

section \<open>Announcements\<close>

fun last_binds :: "server_tick list \<Rightarrow> bind_entry list \<Rightarrow> bind_entry list" where
  "last_binds [] binds = binds"
| "last_binds (ServerRefresh bs # ticks) binds = last_binds ticks bs"
| "last_binds (ServerSnapshot _ # ticks) binds = last_binds ticks binds"

lemma print_binds_announces:
  "\<exists>out. fst (print_binds json binds printed) = map (\<lambda>b. Print (bind_output json b)) out \<and> set out \<subseteq> set binds \<and>
     distinct (map bind_key out) \<and> bind_key ` set out = bind_key ` set binds - set printed \<and>
     set (snd (print_binds json binds printed)) = set printed \<union> bind_key ` set binds"
proof (induction binds arbitrary: printed)
  case (Cons b binds)
  show ?case
  proof (cases "bind_key b \<in> set printed")
    case True
    obtain out where "fst (print_binds json binds printed) = map (\<lambda>b. Print (bind_output json b)) out"
      "set out \<subseteq> set binds" "distinct (map bind_key out)" "bind_key ` set out = bind_key ` set binds - set printed"
      "set (snd (print_binds json binds printed)) = set printed \<union> bind_key ` set binds"
      using Cons.IH [of printed] by blast
    with True show ?thesis by (intro exI [of _ out]) auto
  next
    case False
    obtain out where out: "fst (print_binds json binds (bind_key b # printed)) = map (\<lambda>b. Print (bind_output json b)) out"
      "set out \<subseteq> set binds" "distinct (map bind_key out)" "bind_key ` set out = bind_key ` set binds - set (bind_key b # printed)"
      "set (snd (print_binds json binds (bind_key b # printed))) = set (bind_key b # printed) \<union> bind_key ` set binds"
      using Cons.IH [of "bind_key b # printed"] by blast
    have "bind_key b \<notin> bind_key ` set out" using out(4) by simp
    with out False show ?thesis
      by (intro exI [of _ "b # out"]) (auto simp: case_prod_beta)
  qed
qed simp

lemma server_refresh_announces:
  "\<exists>out. fst (server_refresh json binds printed) = map (\<lambda>b. Print (bind_output json b)) out \<and> set out \<subseteq> set binds \<and>
     distinct (map bind_key out) \<and> bind_key ` set out = bind_key ` set binds - set printed \<and>
     set (snd (server_refresh json binds printed)) = bind_key ` set binds"
proof -
  obtain out where "fst (server_refresh json binds printed) = map (\<lambda>b. Print (bind_output json b)) out" "set out \<subseteq> set binds"
    "distinct (map bind_key out)" "bind_key ` set out = bind_key ` set binds - set (filter (\<lambda>k. k \<in> set (map bind_key binds)) printed)"
    "set (snd (server_refresh json binds printed)) = set (filter (\<lambda>k. k \<in> set (map bind_key binds)) printed) \<union> bind_key ` set binds"
    using print_binds_announces [of json binds "filter (\<lambda>k. k \<in> set (map bind_key binds)) printed"]
    unfolding server_refresh_def Let_def by blast
  then show ?thesis by (intro exI [of _ out]) auto
qed

text \<open>The keys remembered between two ticks.\<close>

fun printed_after :: "bool \<Rightarrow> server_tick list \<Rightarrow> bind_key list \<Rightarrow> bind_key list" where
  "printed_after json [] printed = printed"
| "printed_after json (ServerRefresh bs # ticks) printed = printed_after json ticks (snd (server_refresh json bs printed))"
| "printed_after json (ServerSnapshot _ # ticks) printed = printed_after json ticks printed"

lemma server_loop_append:
  "server_loop json every (ticks @ later) printed =
     server_loop json every ticks printed @ server_loop json every later (printed_after json ticks printed)"
proof (induction ticks arbitrary: printed)
  case (Cons tick ticks)
  then show ?case by (cases tick) (simp_all add: case_prod_beta)
qed simp

lemma printed_after_last:
  "set printed = bind_key ` set binds \<Longrightarrow> set (printed_after json ticks printed) = bind_key ` set (last_binds ticks binds)"
proof (induction json ticks printed arbitrary: binds rule: printed_after.induct)
  case (2 json bs ticks printed)
  have "set (snd (server_refresh json bs printed)) = bind_key ` set bs"
    using server_refresh_announces [of json bs printed] by blast
  from "2.IH" [OF this] show ?case by simp
qed simp_all

fun session_flags :: "cli_effect list \<Rightarrow> bool list" where
  "session_flags [] = []"
| "session_flags (Print (OutEvent (EvSessionReady _ _)) # es) = True # session_flags es"
| "session_flags (Print (OutEvent (EvSessionLost _ _)) # es) = False # session_flags es"
| "session_flags (_ # es) = session_flags es"

fun last_connected :: "client_tick list \<Rightarrow> bool \<Rightarrow> bool" where
  "last_connected [] c = c"
| "last_connected (ClientRefresh sn # ticks) c = last_connected ticks (sn_connected sn)"
| "last_connected (ClientSnapshot _ # ticks) c = last_connected ticks c"

lemma client_loop_alternates:
  "let flags = session_flags (client_loop True every ticks c)
   in (\<forall>k < length flags. flags ! k = (c \<noteq> even k)) \<and> last_connected ticks c = (c \<noteq> odd (length flags))"
proof (induction "True" every ticks c rule: client_loop.induct)
  case (2 every sn ticks c)
  show ?case
  proof (cases "sn_connected sn = c")
    case True
    with 2 show ?thesis by (cases c) (simp_all add: client_refresh_def)
  next
    case False
    with 2 show ?thesis
      by (cases c) (auto simp: client_refresh_def Let_def nth_Cons split: nat.split)
  qed
qed (auto simp: Let_def)

text \<open>C14: the event stream tells the truth once. Whatever came before, a refresh of the server announces
  exactly the binds that are live now and were not at the previous refresh, each once, in JSON and in
  text. Of the client's Session events the first is ready, and ready and lost alternate; their number
  says whether the last refresh found a Session.\<close>

theorem announcements_exact:
  "(\<exists>out. server_loop json every (ticks @ [ServerRefresh binds]) [] =
       server_loop json every ticks [] @ map (\<lambda>b. Print (bind_output json b)) out \<and>
     set out \<subseteq> set binds \<and> distinct (map bind_key out) \<and>
     bind_key ` set out = bind_key ` set binds - bind_key ` set (last_binds ticks [])) \<and>
   (let flags = session_flags (client_loop True every' ticks' False)
    in flags = map even [0..<length flags] \<and> last_connected ticks' False = odd (length flags))"
proof -
  have "set (printed_after json ticks []) = bind_key ` set (last_binds ticks [])"
    by (rule printed_after_last) simp
  moreover obtain out where "fst (server_refresh json binds (printed_after json ticks [])) = map (\<lambda>b. Print (bind_output json b)) out"
    "set out \<subseteq> set binds" "distinct (map bind_key out)" "bind_key ` set out = bind_key ` set binds - set (printed_after json ticks [])"
    using server_refresh_announces [of json binds "printed_after json ticks []"] by blast
  ultimately have "\<exists>out. server_loop json every (ticks @ [ServerRefresh binds]) [] =
       server_loop json every ticks [] @ map (\<lambda>b. Print (bind_output json b)) out \<and>
     set out \<subseteq> set binds \<and> distinct (map bind_key out) \<and>
     bind_key ` set out = bind_key ` set binds - bind_key ` set (last_binds ticks [])"
    by (intro exI [of _ out]) (simp add: server_loop_append case_prod_beta)
  moreover define flags where "flags = session_flags (client_loop True every' ticks' False)"
  have flags: "\<forall>k < length flags. flags ! k = even k" "last_connected ticks' False = odd (length flags)"
    using client_loop_alternates [of every' ticks' False] by (simp_all add: Let_def flags_def)
  then have "flags = map even [0..<length flags]" by (intro nth_equalityI) simp_all
  ultimately show ?thesis using flags(2) unfolding Let_def flags_def by blast
qed

section \<open>An example\<close>

definition sample_table :: toml_table where
  "sample_table = \<lparr>tl_mode = Some (lit ''client''), tl_transport = None, tl_token_env = Some (lit ''T''), tl_listen_addr = None,
     tl_tls_cert = None, tl_tls_key = None, tl_allow_public_service_binds = None, tl_server_addr = Some (render (lit ''h'') 1),
     tl_tls_server_name = Some (lit ''h''), tl_ca_cert = None, tl_outbound_proxy_env = None, tl_client_cert = None,
     tl_client_key = None, tl_client_ca = None, tl_services = Some [\<lparr>ts_id = Some 7, ts_name = Some (lit ''web''),
       ts_target_host = Some (lit ''localhost''), ts_target_port = Some 80, ts_bind_port = None, ts_unknown = False\<rparr>],
     tl_unknown = False\<rparr>"

definition sample_file :: file_config where
  "sample_file = the (file_config_of sample_table)"

definition sample_process :: "string \<Rightarrow> cli_env" where
  "sample_process secret = \<lparr>ev_var = \<lambda>_. Some (lit secret), ev_text = \<lambda>_. Some [], ev_toml = \<lambda>_. Some sample_table,
     ev_metadata = \<lambda>_. None, ev_read = \<lambda>_. None, ev_parse_proxy = \<lambda>_. True, ev_tls = Ok (),
     ev_listener = Ok (SocketV4 [127, 0, 0, 1] 443), ev_io_text = \<lambda>_. [], ev_version = lit ''0.1.0''\<rparr>"

lemma sample_file_eq: "file_config_of sample_table = Some sample_file"
  by (simp add: sample_file_def sample_table_def file_config_of_def file_service_of_def unwrap_or_def)

lemma sample_file_fields:
  "fc_mode sample_file = lit ''client''" "fc_services sample_file = [\<lparr>fs_id = 7, fs_name = lit ''web'',
     fs_target_host = lit ''localhost'', fs_target_port = 80, fs_bind_port = 0\<rparr>]"
  "fc_transport sample_file = lit ''tcp_tls''" "fc_token_env sample_file = lit ''T''" "fc_server_addr sample_file = Some (render (lit ''h'') 1)"
  "fc_tls_server_name sample_file = Some (lit ''h'')" "fc_listen_addr sample_file = None" "fc_tls_cert sample_file = None"
  "fc_tls_key sample_file = None" "fc_client_ca sample_file = None" "\<not> fc_allow_public_service_binds sample_file"
  "fc_ca_cert sample_file = None" "fc_client_cert sample_file = None" "fc_client_key sample_file = None" "fc_outbound_proxy_env sample_file = None"
  by (simp_all add: sample_file_def sample_table_def file_config_of_def file_service_of_def unwrap_or_def default_transport_def)

lemma sample_read: "fst (read_config (sample_process secret) path) = Ok sample_file"
  by (simp add: read_config_def sample_process_def sample_file_eq)

lemma sample_endpoint: "\<exists>e. endpoint_parse (render (lit ''h'') 1) = Ok e"
proof -
  have "is_ok (tcp_target_new (lit ''h'') 1)"
    by (simp add: tcp_target_new_def validate_target_host_def bad_host_char_def ambiguous_chars_def lit_def
        is_control_def is_format_char_def is_whitespace_def const_defs str_len_def str_bytes_def utf8_char_def)
  then show ?thesis using endpoint_render [of "lit ''h''" 1] by (auto simp: is_ok_conv)
qed

lemma sample_token:
  "secret_token_new (into_bytes (lit ''a'')) = Ok (SecretToken [97])" "secret_token_new (into_bytes (lit ''b'')) = Ok (SecretToken [98])"
  by (simp_all add: secret_token_new_def into_bytes_def lit_def str_bytes_def utf8_char_def const_defs)

lemma sample_services: "is_ok (resolve_client_services sample_file)"
proof -
  have "service_name_new (lit ''web'') = Ok (ServiceName (lit ''web''))"
    "tcp_target_new (lit ''localhost'') 80 = Ok \<lparr>tt_host = lit ''localhost'', tt_port = 80\<rparr>"
    using sample_message_wf by (simp_all add: wf_name_def wf_target_def)
  then show ?thesis by (simp add: resolve_client_services_def sample_file_fields)
qed

lemma sample_resolved: "is_ok (fst (resolve_client_with (sample_process ''a'') sample_file))"
proof -
  obtain e where "endpoint_parse (render (lit ''h'') 1) = Ok e" using sample_endpoint by blast
  then have "is_ok (client_structure sample_file)"
    by (simp add: client_structure_def sample_file_fields cli_client_transport_def) (simp add: lit_def)
  then show ?thesis
    using sample_services sample_token
    by (auto simp: resolve_client_with_def is_ok_conv load_token_with_def read_material_def resolve_proxy_def resolve_identity_def
        sample_file_fields sample_process_def) (auto simp: lit_def)
qed

theorem resolve_client_typed_witness:
  "\<exists>r. fst (resolve_client_with (sample_process ''a'') sample_file) = Ok r \<and> length (rc_services r) = 1 \<and>
     (\<forall>s\<in>set (rc_services r). wf_message (RegisterService (registration_of s)))"
proof -
  obtain r where r: "fst (resolve_client_with (sample_process ''a'') sample_file) = Ok r"
    using sample_resolved by (auto simp: is_ok_conv)
  have "\<forall>s\<in>set (fc_services sample_file). wf_str (fs_target_host s)"
    by (simp add: sample_file_fields wf_str_def is_scalar_def lit_def)
  from resolve_client_typed [OF r this] r show ?thesis by (simp add: sample_file_fields)
qed

theorem check_agrees_with_launch_witness:
  "fst (run_client (sample_process ''a'') (lit ''f'') no_client_overrides True None []) =
     fst (run_check (sample_process ''a'') (lit ''f'') True)"
proof -
  have "ev_tls (sample_process ''a'') = Ok ()" "ev_listener (sample_process ''a'') = Ok (SocketV4 [127, 0, 0, 1] 443)"
    by (simp_all add: sample_process_def)
  from check_agrees_with_launch [OF this sample_read, THEN conjunct2, THEN conjunct2, THEN conjunct1, THEN mp, OF sample_file_fields(1)]
  show ?thesis by (rule conjunct2)
qed

end
