(* ===== verification/Cli_Secrets.thy ===== *)
theory Cli_Secrets
  imports Cli_Correct
begin

text \<open>
  Confidentiality of the command line. Two processes that differ only in their secrets are run side by
  side; a relation on results and observed effects is preserved by every step.
\<close>

section \<open>Secrets\<close>

text \<open>Two processes that differ only in the values of variables and the contents of files: usable tokens
  and proxies stay usable, files keep within the limits or not.\<close>

definition similar_value :: "cli_env \<Rightarrow> cli_env \<Rightarrow> rstr \<Rightarrow> rstr \<Rightarrow> bool" where
  "similar_value env env' v v' \<longleftrightarrow>
     is_ok (secret_token_new (into_bytes v)) = is_ok (secret_token_new (into_bytes v')) \<and>
     list_all is_whitespace v = list_all is_whitespace v' \<and> ev_parse_proxy env v = ev_parse_proxy env' v'"

definition similar_bytes :: "bytes \<Rightarrow> bytes \<Rightarrow> bool" where
  "similar_bytes b b' \<longleftrightarrow> (b = []) = (b' = []) \<and> (MAX_MATERIAL_BYTES < length b) = (MAX_MATERIAL_BYTES < length b')"

definition same_public :: "cli_env \<Rightarrow> cli_env \<Rightarrow> bool" where
  "same_public env env' \<longleftrightarrow>
     ev_text env = ev_text env' \<and> ev_toml env = ev_toml env' \<and> ev_metadata env = ev_metadata env' \<and>
     ev_tls env = ev_tls env' \<and> ev_listener env = ev_listener env' \<and> ev_io_text env = ev_io_text env' \<and>
     ev_version env = ev_version env' \<and>
     (\<forall>n. rel_option (similar_value env env') (ev_var env n) (ev_var env' n)) \<and>
     (\<forall>p. rel_option similar_bytes (ev_read env p) (ev_read env' p))"

text \<open>What an observer sees of a run: its result, what it prints and which inputs it reads. The builder
  handed to the library is not part of it.\<close>

fun public_effect :: "cli_effect \<Rightarrow> bool" where
  "public_effect (BindServer _) = False"
| "public_effect (StartClient _) = False"
| "public_effect _ = True"

definition observed :: "cli_effect list \<Rightarrow> cli_effect list" where
  "observed = filter public_effect"

definition cli_rel :: "('a \<Rightarrow> 'b \<Rightarrow> bool) \<Rightarrow> 'a cli \<Rightarrow> 'b cli \<Rightarrow> bool" where
  "cli_rel R m m' \<longleftrightarrow> rel_sum (=) R (fst m) (fst m') \<and> observed (snd m) = observed (snd m')"

lemma cli_rel_then [intro]:
  assumes "cli_rel R m m'" and "\<And>x x'. R x x' \<Longrightarrow> cli_rel S (f x) (f' x')"
  shows "cli_rel S (cli_then m f) (cli_then m' f')"
  using assms by (cases "fst m"; cases "fst m'") (auto simp: cli_rel_def observed_def)

lemma cli_rel_lift: "rel_sum (=) R r r' \<Longrightarrow> cli_rel R (cli_lift r) (cli_lift r')"
  by (simp add: cli_rel_def)

lemma cli_rel_same: "(\<And>x. r = Ok x \<Longrightarrow> R x x) \<Longrightarrow> cli_rel R (cli_lift r) (cli_lift r)"
  by (cases r) (auto simp: cli_rel_def)

lemma cli_rel_refl: "cli_rel (=) m m"
  by (simp add: cli_rel_def sum.rel_eq)

lemma read_config_rel: "same_public env env' \<Longrightarrow> cli_rel (=) (read_config env path) (read_config env' path)"
  by (auto simp: read_config_def same_public_def cli_rel_refl split: option.split)

lemma same_var: "same_public env env' \<Longrightarrow> rel_option (similar_value env env') (ev_var env n) (ev_var env' n)"
  by (simp add: same_public_def)

lemma same_file: "same_public env env' \<Longrightarrow> rel_option similar_bytes (ev_read env p) (ev_read env' p)"
  by (simp add: same_public_def)

lemma load_token_rel:
  assumes "same_public env env'"
  shows "cli_rel (\<lambda>_ _. True) (load_token_with env name) (load_token_with env' name)"
  using same_var [OF assms, of name]
  by (cases "ev_var env name"; cases "ev_var env' name")
    (auto simp: load_token_with_def cli_rel_def cli_fail_def similar_value_def is_ok_def map_err_def split: sum.splits)

definition both :: "('a \<Rightarrow> bool) \<Rightarrow> 'a \<Rightarrow> 'a \<Rightarrow> bool" where
  "both P x y \<longleftrightarrow> P x \<and> P y"

lemma read_material_rel:
  assumes "same_public env env'"
  shows "cli_rel (rel_option (both material)) (read_material env path what) (read_material env' path what)"
proof (cases path)
  case (Some p)
  have "ev_metadata env = ev_metadata env'" using assms by (simp add: same_public_def)
  then show ?thesis
    using Some same_file [OF assms, of p]
    by (cases "ev_read env p"; cases "ev_read env' p"; cases "ev_metadata env' p")
      (auto simp: read_material_def Let_def cli_rel_def cli_fail_def similar_bytes_def material_def both_def)
qed (simp add: read_material_def cli_rel_def)

lemma required_material_rel:
  assumes "same_public env env'"
  shows "cli_rel (both material) (read_required_material env path what) (read_required_material env' path what)"
  unfolding read_required_material_def
  by (rule cli_rel_then [OF read_material_rel [OF assms]], rule cli_rel_lift) (auto simp: ok_or_def option_rel_Some1 split: option.splits)

lemma resolve_identity_rel:
  assumes "same_public env env'"
  shows "cli_rel (rel_option (\<lambda>_ _. True)) (resolve_identity env config) (resolve_identity env' config)"
  unfolding resolve_identity_def
  by (auto intro!: cli_rel_then [OF required_material_rel [OF assms]] cli_rel_lift split: option.split)

lemma resolve_proxy_rel:
  assumes "same_public env env'"
  shows "cli_rel (rel_option (\<lambda>v v'. ev_parse_proxy env v = ev_parse_proxy env' v')) (resolve_proxy env name) (resolve_proxy env' name)"
proof (cases name)
  case (Some n)
  then show ?thesis
    using same_var [OF assms, of n]
    by (cases "ev_var env n"; cases "ev_var env' n")
      (auto simp: resolve_proxy_def cli_rel_def cli_fail_def similar_value_def)
qed (simp add: resolve_proxy_def cli_rel_def)

definition client_alike :: "cli_env \<Rightarrow> cli_env \<Rightarrow> resolved_client \<Rightarrow> resolved_client \<Rightarrow> bool" where
  "client_alike env env' r r' \<longleftrightarrow>
     rc_server_addr r = rc_server_addr r' \<and> rc_tls_server_name r = rc_tls_server_name r' \<and>
     rc_services r = rc_services r' \<and> rc_transport r = rc_transport r' \<and>
     rel_option (both material) (rc_ca_pem r) (rc_ca_pem r') \<and>
     rel_option (\<lambda>v v'. ev_parse_proxy env v = ev_parse_proxy env' v') (rc_outbound_proxy r) (rc_outbound_proxy r') \<and>
     rel_option (\<lambda>_ _. True) (rc_identity r) (rc_identity r')"

definition server_alike :: "resolved_server \<Rightarrow> resolved_server \<Rightarrow> bool" where
  "server_alike r r' \<longleftrightarrow>
     rv_listen_addr r = rv_listen_addr r' \<and> rv_transport r = rv_transport r' \<and>
     rv_allow_public_service_binds r = rv_allow_public_service_binds r' \<and>
     both material (rv_certificate_pem r) (rv_certificate_pem r') \<and>
     both material (rv_private_key_pem r) (rv_private_key_pem r') \<and>
     rel_option (both material) (rv_client_ca r) (rv_client_ca r')"

lemma resolve_client_rel:
  assumes "same_public env env'"
  shows "cli_rel (client_alike env env') (resolve_client_with env config) (resolve_client_with env' config)"
proof -
  note steps = cli_rel_then [OF load_token_rel [OF assms]] cli_rel_then [OF read_material_rel [OF assms]]
    cli_rel_then [OF resolve_proxy_rel [OF assms]] cli_rel_then [OF resolve_identity_rel [OF assms]]
  show ?thesis
    unfolding resolve_client_with_def
    by (rule cli_rel_then [OF cli_rel_same [where R = "(=)"]], simp)
      (auto intro!: steps cli_rel_then [OF cli_rel_same [where R = "(=)"]] cli_rel_lift simp: client_alike_def)
qed

lemma resolve_server_rel:
  assumes "same_public env env'"
  shows "cli_rel server_alike (resolve_server_with env config) (resolve_server_with env' config)"
proof -
  note steps = cli_rel_then [OF load_token_rel [OF assms]] cli_rel_then [OF read_material_rel [OF assms]]
    cli_rel_then [OF required_material_rel [OF assms]]
  show ?thesis
    unfolding resolve_server_with_def
    by (rule cli_rel_then [OF cli_rel_same [where R = "(=)"]], simp)
      (auto intro!: steps cli_rel_lift simp: server_alike_def)
qed

lemma client_builder_fields:
  "cb_config (cli_client_builder r) = \<lparr>cg_server_addr = ep_text (rc_server_addr r), cg_tls_server_name = rc_tls_server_name r,
     cg_ca_pem = rc_ca_pem r, cg_token = rc_token r, cg_services = rc_services r\<rparr>"
  "cb_profile (cli_client_builder r) = rc_transport r" "cb_policy (cli_client_builder r) = runtime_policy_default"
  "cb_identity (cli_client_builder r) = rc_identity r" "cb_outbound_proxy (cli_client_builder r) = rc_outbound_proxy r"
  by (simp_all add: cli_client_builder_def Let_def client_builder_new_def client_transport_def client_runtime_policy_def
      with_identity_def with_outbound_proxy_def split: option.split)

lemma server_builder_fields:
  "sb_config (cli_server_builder r) = \<lparr>sg_listen_addr = rv_listen_addr r, sg_certificate_pem = rv_certificate_pem r,
     sg_private_key_pem = rv_private_key_pem r, sg_token = rv_token r, sg_allow_public_service_binds = rv_allow_public_service_binds r\<rparr>"
  "sb_bind_policy (cli_server_builder r) = bind_policy_default\<lparr>allow_public_addresses := rv_allow_public_service_binds r\<rparr>"
  "sb_profile (cli_server_builder r) = rv_transport r" "sb_runtime_policy (cli_server_builder r) = runtime_policy_default"
  "sb_trusted_client_ca (cli_server_builder r) = rv_client_ca r"
  by (simp_all add: cli_server_builder_def Let_def server_builder_new_def server_transport_def server_runtime_policy_def
      server_bind_policy_def client_ca_pem_def split: option.split)

lemma client_validate_rel:
  assumes "client_alike env env' r r'"
  shows "client_builder_validate (ev_parse_proxy env) (cli_client_builder r) =
    client_builder_validate (ev_parse_proxy env') (cli_client_builder r')"
  using assms
  by (cases "rc_ca_pem r"; cases "rc_ca_pem r'"; cases "rc_outbound_proxy r"; cases "rc_outbound_proxy r'";
      cases "rc_identity r"; cases "rc_identity r'")
    (auto simp: client_alike_def both_def client_builder_validate_def validate_client_profile_def client_builder_fields
      client_validate_config_def dest!: material_frame)

lemma server_config_valid:
  assumes "material (rv_certificate_pem r)" and "material (rv_private_key_pem r)"
  shows "server_validate_config (sb_config (cli_server_builder r)) = Ok ()"
  using assms material_frame [OF assms(1)] material_frame [OF assms(2)]
  by (simp add: server_builder_fields server_validate_config_def material_def)

lemma server_alike_valid:
  assumes "server_alike r r'"
  shows "server_validate_config (sb_config (cli_server_builder r)) = Ok ()" "server_validate_config (sb_config (cli_server_builder r')) = Ok ()"
  using assms by (auto simp: server_alike_def both_def intro: server_config_valid)

lemma server_validate_rel:
  assumes "server_alike r r'"
  shows "server_builder_validate (cli_server_builder r) = server_builder_validate (cli_server_builder r')"
proof -
  have "rel_option (both material) (rv_client_ca r) (rv_client_ca r')" "rv_transport r = rv_transport r'"
    "rv_allow_public_service_binds r = rv_allow_public_service_binds r'"
    using assms by (simp_all add: server_alike_def)
  then show ?thesis
    using server_alike_valid [OF assms]
    by (cases "rv_client_ca r"; cases "rv_client_ca r'")
      (auto simp: server_builder_validate_def validate_server_profile_def server_builder_fields both_def material_def)
qed

lemma cli_start_rel:
  assumes "same_public env env'" "client_alike env env' r r'"
  shows "cli_rel (\<lambda>_ _. True) (cli_start env (cli_client_builder r)) (cli_start env' (cli_client_builder r'))"
proof -
  have tls: "ev_tls env = ev_tls env'" and io: "ev_io_text env = ev_io_text env'" using assms(1) by (simp_all add: same_public_def)
  have parts: "rc_server_addr r = rc_server_addr r'" "rc_transport r = rc_transport r'" "(rc_identity r = None) = (rc_identity r' = None)"
    "(rc_ca_pem r = None) = (rc_ca_pem r' = None)"
    using assms(2) by (auto simp: client_alike_def)
  have config: "client_validate_config (cb_config (cli_client_builder r)) p = client_validate_config (cb_config (cli_client_builder r')) p" for p
    using assms(2) by (cases "rc_ca_pem r"; cases "rc_ca_pem r'")
      (auto simp: client_alike_def both_def client_builder_fields client_validate_config_def dest!: material_frame)
  have stream: "rel_sum (=) (\<lambda>_ _. True) (start_with_tls_config (cb_config (cli_client_builder r)) m w x p True)
      (start_with_tls_config (cb_config (cli_client_builder r')) m w x' p True)" for m w x x' p
    using config [of p] parts by (auto simp: start_with_tls_config_def client_builder_fields and_then_def map_err_def split: sum.splits)
  have quic: "rel_sum (=) (\<lambda>_ _. True) (start_quic_profile (cb_config (cli_client_builder r)) p True)
      (start_quic_profile (cb_config (cli_client_builder r')) p True)" for p
    using config [of p] parts by (auto simp: start_quic_profile_def client_builder_fields and_then_def map_err_def split: sum.splits)
  have "rel_sum (=) (\<lambda>_ _. True) (start_profile (ev_parse_proxy env) (cli_client_builder r) (ev_tls env) True)
      (start_profile (ev_parse_proxy env') (cli_client_builder r') (ev_tls env') True)"
  proof (cases "client_builder_validate (ev_parse_proxy env') (cli_client_builder r')")
    case (Inl e)
    then show ?thesis by (simp add: start_profile_def Let_def client_validate_rel [OF assms(2)])
  next
    case (Inr u)
    then show ?thesis
      using tls parts stream quic
      by (cases "ev_tls env'") (auto simp: start_profile_def Let_def client_validate_rel [OF assms(2)] client_builder_fields(2-5)
          split: client_transport_profile.split)
  qed
  then show ?thesis
    using io by (auto simp: cli_start_def cli_rel_def observed_def map_err_def split: sum.splits)
qed

lemma cli_bind_rel:
  assumes "same_public env env'" "server_alike r r'"
  shows "cli_rel (=) (cli_bind env (cli_server_builder r)) (cli_bind env' (cli_server_builder r'))"
proof -
  have ext: "ev_tls env = ev_tls env'" "ev_io_text env = ev_io_text env'" "ev_listener env = ev_listener env'"
    using assms(1) by (simp_all add: same_public_def)
  have parts: "rv_transport r = rv_transport r'" "rv_allow_public_service_binds r = rv_allow_public_service_binds r'"
    "(rv_client_ca r = None) = (rv_client_ca r' = None)"
    using assms(2) by (auto simp: server_alike_def)
  have "server_builder_bind (cli_server_builder r) t True = server_builder_bind (cli_server_builder r') t True" for t
    using parts server_alike_valid [OF assms(2)]
    by (cases "rv_transport r'")
      (simp_all add: server_builder_bind_def server_validate_rel [OF assms(2)] bind_profile_def Let_def server_builder_fields(2-5))
  then show ?thesis
    using ext by (simp add: cli_bind_def cli_rel_def observed_def sum.rel_eq)
qed

lemma check_outcome_rel:
  assumes "same_public env env'"
  shows "cli_rel (=) (check_outcome env config) (check_outcome env' config)"
proof -
  have io: "ev_io_text env = ev_io_text env'" using assms by (simp add: same_public_def)
  have client: "cli_rel (=) (cli_lift (and_then (map_err (from_tunnel_error (ev_io_text env))
       (client_builder_validate (ev_parse_proxy env) (cli_client_builder r))) (\<lambda>_. Ok (transport_name_client (rc_transport r)))))
     (cli_lift (and_then (map_err (from_tunnel_error (ev_io_text env'))
       (client_builder_validate (ev_parse_proxy env') (cli_client_builder r'))) (\<lambda>_. Ok (transport_name_client (rc_transport r')))))"
    if "client_alike env env' r r'" for r r'
    using that io client_validate_rel [OF that] by (simp add: client_alike_def cli_rel_refl)
  have server: "cli_rel (=) (cli_lift (and_then (map_err (from_tunnel_error (ev_io_text env))
       (server_builder_validate (cli_server_builder r))) (\<lambda>_. Ok (transport_name_server (rv_transport r)))))
     (cli_lift (and_then (map_err (from_tunnel_error (ev_io_text env'))
       (server_builder_validate (cli_server_builder r'))) (\<lambda>_. Ok (transport_name_server (rv_transport r')))))"
    if "server_alike r r'" for r r'
    using that io server_validate_rel [OF that] by (simp add: server_alike_def cli_rel_refl)
  show ?thesis
    unfolding check_outcome_def
    using cli_rel_then [OF resolve_client_rel [OF assms] client] cli_rel_then [OF resolve_server_rel [OF assms] server]
    by (simp add: cli_rel_refl)
qed

lemma run_check_rel:
  assumes "same_public env env'"
  shows "cli_rel (=) (run_check env path json) (run_check env' path json)"
proof -
  have tail: "cli_rel (=) (case m of (Inr transport, log) \<Rightarrow> (Ok (), log @ f transport) | (Inl error, log) \<Rightarrow> (Err error, log @ g error))
      (case m' of (Inr transport, log) \<Rightarrow> (Ok (), log @ f transport) | (Inl error, log) \<Rightarrow> (Err error, log @ g error))"
    if "cli_rel (=) m m'" for m m' :: "rstr cli" and f g
    using that by (cases m; cases m'; cases "fst m"; cases "fst m'") (auto simp: cli_rel_def observed_def)
  show ?thesis
    unfolding run_check_def
    by (rule cli_rel_then [OF read_config_rel [OF assms]]) (auto intro!: tail check_outcome_rel [OF assms])
qed

lemma run_client_rel:
  assumes "same_public env env'"
  shows "cli_rel (=) (run_client env path co json interval ticks) (run_client env' path co json interval ticks)"
proof -
  have start: "client_startup env j t n = client_startup env' j t n" for j t n
    using assms by (simp add: client_startup_def same_public_def)
  have last: "cli_rel (=) (cli_then (cli_start env (cli_client_builder r)) (\<lambda>_. (Ok (), client_startup env json
        (transport_name_client (rc_transport r)) (length (rc_services r)) @ out)))
      (cli_then (cli_start env' (cli_client_builder r')) (\<lambda>_. (Ok (), client_startup env' json
        (transport_name_client (rc_transport r')) (length (rc_services r')) @ out)))"
    if "client_alike env env' r r'" for r r' out
    using that start by (intro cli_rel_then [OF cli_start_rel [OF assms that]]) (simp add: client_alike_def cli_rel_refl)
  note lifted = cli_rel_then [OF cli_rel_same [where R = "(=)"]]
  show ?thesis
    unfolding run_client_def
    by (intro lifted cli_rel_then [OF read_config_rel [OF assms]] refl; (simp, intro lifted refl)?)
      (auto intro!: cli_rel_then [OF resolve_client_rel [OF assms]] last)
qed

lemma run_server_rel:
  assumes "same_public env env'"
  shows "cli_rel (=) (run_server env path so json interval ticks) (run_server env' path so json interval ticks)"
proof -
  have start: "server_startup env j t n = server_startup env' j t n" for j t n
    using assms by (simp add: server_startup_def same_public_def)
  have last: "cli_rel (=) (cli_then (cli_bind env (cli_server_builder r)) (\<lambda>addr. (Ok (), server_startup env json
        (transport_name_server (rv_transport r)) addr @ out)))
      (cli_then (cli_bind env' (cli_server_builder r')) (\<lambda>addr. (Ok (), server_startup env' json
        (transport_name_server (rv_transport r')) addr @ out)))"
    if "server_alike r r'" for r r' out
    using that start by (intro cli_rel_then [OF cli_bind_rel [OF assms that]]) (simp add: server_alike_def cli_rel_refl)
  note lifted = cli_rel_then [OF cli_rel_same [where R = "(=)"]]
  show ?thesis
    unfolding run_server_def
    by (intro lifted cli_rel_then [OF read_config_rel [OF assms]] refl; (simp, intro lifted refl)?)
      (auto intro!: cli_rel_then [OF resolve_server_rel [OF assms]] last)
qed

text \<open>C11: no secret reaches the output. Two processes that differ only in the values of environment
  variables and the contents of files, usable in one exactly when in the other, behave the same on
  every command, to an observer of the result, of everything printed and of which inputs are read;
  the debug texts of their snapshots agree as well. Identifiers of Sessions, which are capabilities,
  do not show in the events either.\<close>

theorem secrets_not_shown:
  assumes "same_public env env'"
  shows "fst (cli_main env command st ct) = fst (cli_main env' command st ct) \<and>
    observed (snd (cli_main env command st ct)) = observed (snd (cli_main env' command st ct)) \<and>
    (\<forall>r r'. fst (resolve_client_with env config) = Ok r \<longrightarrow> fst (resolve_client_with env' config) = Ok r' \<longrightarrow>
       resolved_client_debug r = resolved_client_debug r') \<and>
    (\<forall>r r'. fst (resolve_server_with env config) = Ok r \<longrightarrow> fst (resolve_server_with env' config) = Ok r' \<longrightarrow>
       resolved_server_debug r = resolved_server_debug r') \<and>
    event_json (EvServiceBind session i b) = event_json (EvServiceBind session' i b) \<and>
    event_json (EvSnapshot sn) =
      event_json (EvSnapshot (sn\<lparr>sn_effective_binds := map (\<lambda>(_, i, b). (session', i, b)) (sn_effective_binds sn)\<rparr>))"
proof -
  have "ev_version env = ev_version env'" using assms by (simp add: same_public_def)
  then have "cli_rel (=) (cli_main env command st ct) (cli_main env' command st ct)"
    using run_check_rel [OF assms] run_client_rel [OF assms] run_server_rel [OF assms]
    by (cases command) (simp_all add: cli_main_def cli_rel_refl)
  moreover have "resolved_client_debug r = resolved_client_debug r'"
    if "fst (resolve_client_with env config) = Ok r" "fst (resolve_client_with env' config) = Ok r'" for r r'
    using resolve_client_rel [OF assms, of config] that
    by (cases "rc_ca_pem r"; cases "rc_ca_pem r'"; cases "rc_outbound_proxy r"; cases "rc_outbound_proxy r'"; cases "rc_identity r"; cases "rc_identity r'")
      (auto simp: cli_rel_def client_alike_def resolved_client_debug_def configured_def)
  moreover have "resolved_server_debug r = resolved_server_debug r'"
    if "fst (resolve_server_with env config) = Ok r" "fst (resolve_server_with env' config) = Ok r'" for r r'
    using resolve_server_rel [OF assms, of config] that
    by (cases "rv_client_ca r"; cases "rv_client_ca r'") (auto simp: cli_rel_def server_alike_def resolved_server_debug_def configured_def)
  moreover have "event_json (EvServiceBind session i b) = event_json (EvServiceBind session' i b)"
    by (simp add: session_id_debug_def)
  moreover have "event_json (EvSnapshot sn) =
      event_json (EvSnapshot (sn\<lparr>sn_effective_binds := map (\<lambda>(_, i, b). (session', i, b)) (sn_effective_binds sn)\<rparr>))"
    by (auto simp: snapshot_event_def session_id_debug_def)
  ultimately show ?thesis by (simp add: cli_rel_def sum.rel_eq)
qed

theorem secrets_not_shown_witness:
  "fst (cli_main (sample_process ''a'') (CliCheck (lit ''f'') True) [] []) =
     fst (cli_main (sample_process ''b'') (CliCheck (lit ''f'') True) [] [])"
proof -
  have "same_public (sample_process ''a'') (sample_process ''b'')"
    using sample_token by (simp add: same_public_def sample_process_def similar_value_def) (simp add: lit_def is_whitespace_def)
  from secrets_not_shown [OF this] show ?thesis by (rule conjunct1)
qed

end
