(* ===== verification/Spec2Isabelle.thy ===== *)
theory Spec2Isabelle
  imports Prelude Hash_Map Std_Net Proto Frame Postcard_Format Frame_Correct Policy Counters Wire_IO
    Endpoint Auth_Limiter Service_State Reconnect Config Channel
    Event_System Server_Session Server_Store Server_Control Server_Accept Server_System Server_View
    Server_Turns Server_Correct Server_Properties Client_Session Handshake Client_Correct
    Tls_Material Transport Server_Ingress Std_Text Cli Cli_Correct Cli_Secrets
begin

text \<open>
  A verification of eggtunnel, an authenticated TCP reverse tunnel written in Rust. A client behind a
  firewall opens a control stream to the server, authenticates with a bearer token and registers
  services; the server binds a listener per service. For every external connection it asks the
  client, on the control stream, to open a data stream back, which it joins with the external
  connection. The crates are \<open>src/crates/eggtunnel-proto\<close> (the wire protocol),
  \<open>src/crates/eggtunnel\<close> (both ends) and \<open>src/crates/eggtunnel-cli\<close> (the program); the \<open>src\<close> directory
  of the second is meant where a file is named below without its crate.

  \<^bold>\<open>Conventions.\<close> A \<open>Result\<close> is a sum with \<open>Err\<close> on the left and \<open>Ok\<close> on the right (\<open>Prelude\<close>); a machine
  integer is a word of its width; a string is the list of its code points; durations and instants
  are nanoseconds; a \<open>HashMap\<close> is a list of pairs with distinct keys (\<open>Hash_Map\<close>, whose operations
  satisfy the locale \<open>table\<close>). Code that awaits is cut at its suspension points: each stretch that
  runs without being interrupted is one operation on an explicit state, and what the network, the
  operating system, the scheduler and the random generator decide is an argument. Writes that
  exceed their budget are an argument too. No definition uses fuel: every loop of the source that
  is modelled as recursion is structural, and the event loops are sequences of turns.

  \<^bold>\<open>The protocol.\<close> \<open>Std_Net\<close> has the standard library's addresses and their parsers; \<open>Proto\<close> the
  validated types, the capabilities and the messages of \<open>eggtunnel-proto/src/lib.rs\<close>; \<open>Frame\<close> the
  derived serde images and \<open>encode_frame\<close>/\<open>decode_frame\<close>. The payload codec is the third-party crate
  postcard: it is a parameter with the contract \<open>postcard_codec\<close>, and \<open>Postcard_Format\<close> interprets
  that contract on the documented format. \<open>Frame_Correct\<close> proves the round trip, that a verdict does
  not change when more bytes arrive, and that every decoded message is valid. \<open>Wire_IO\<close> is
  \<open>wire_io.rs\<close> over byte streams that may end or fail at any point.

  \<^bold>\<open>Shared parts.\<close> \<open>Policy\<close> and \<open>Counters\<close> are \<open>common.rs\<close>: tokens and their comparison, admission
  of bind requests, limits and timeouts, errors and their categories, the counters, snapshots and
  session generations. \<open>Endpoint\<close> is \<open>endpoint.rs\<close>; \<open>Channel\<close> a bounded queue between tasks; \<open>Config\<close>
  the builders of both ends with their validation and the dispatch of \<open>bind\<close> and \<open>start\<close>; \<open>Tls_Material\<close> is
  \<open>pem.rs\<close> and \<open>server/tls.rs\<close>.

  \<^bold>\<open>The server.\<close> \<open>Auth_Limiter\<close> is the throttling of authentication failures (\<open>server/auth.rs\<close>).
  \<open>Server_Session\<close> is the store: contexts, registry, guards, pending connections, service accept
  steps and relay tasks (\<open>server/session.rs\<close>, \<open>server/pending.rs\<close>, \<open>server/service.rs\<close>).
  \<open>Server_Control\<close> is \<open>server/control.rs\<close>: handshake, registration of services, each branch of the
  control loop, teardown. \<open>Server_Accept\<close> is \<open>server/accept.rs\<close>: admission, the role of a connection,
  QUIC data streams, the drain; \<open>Server_Ingress\<close> has its loops, with the bound on the data streams of a
  QUIC connection. \<open>Server_System\<close> lets all of these interleave: an event is one
  uninterrupted stretch of any task, and a run is any sequence of enabled events. \<open>Server_Store\<close>,
  \<open>Server_View\<close> and \<open>Server_Turns\<close> prove that every operation keeps the counters equal to what they
  count; \<open>Server_Correct\<close> interprets the locales of \<open>Event_System\<close> on the machine, which gives
  the invariant and the refinement of an abstract registry for every run; \<open>Server_Properties\<close> states
  what follows.

  \<^bold>\<open>The client.\<close> \<open>Service_State\<close> is the registration state of a Session with every operation of
  \<open>client/service_state.rs\<close>; its lemmas give the invariant and the conservation of replies.
  \<open>Reconnect\<close> is the heartbeat probe and the supervisor (\<open>client/heartbeat.rs\<close>,
  \<open>client/reconnect.rs\<close>). \<open>Client_Session\<close> is \<open>run_session\<close> of \<open>client.rs\<close> and \<open>client/open.rs\<close>.
  \<open>Client_Correct\<close> runs its turns and open tasks in any order as a machine, interprets the locale of
  \<open>Event_System\<close> on it and shows that counters, binds and permits stay exact from the first turn to
  the teardown. \<open>Transport\<close> has the adapters of the supervisor behind the locale \<open>transport_adapter\<close>, one
  supervised attempt, the client handle and the entry points of both ends. \<open>Handshake\<close> puts both ends together: each reads exactly what the other wrote, and a
  client with the token is let in.

  \<^bold>\<open>The program.\<close> \<open>Cli\<close> is \<open>eggtunnel-cli/src/main.rs\<close>: file format, overrides, resolution of tokens and
  files into a snapshot, lowering into the builders, reports, and the three commands with their event
  streams. Every operation returns its effects in order. \<open>Std_Text\<close> has the textual forms of addresses
  it reads and prints. \<open>Cli_Correct\<close> shows that what is resolved is well typed, that a check predicts a
  launch and what the events say; \<open>Cli_Secrets\<close> that no output depends on the value of a secret.

  \<^bold>\<open>Bounds.\<close> Identifiers the source draws at random are assumed fresh among the live ones, as guards
  of the events that draw them; allocations and channels are fresh likewise. Lists and tables are
  unbounded in the model where the source bounds them by a limit, and the limits are proved.

  \<^bold>\<open>Not modelled.\<close> TLS, WebSocket and QUIC handshakes, certificate parsing and the byte relay are
  third-party code: only their outcomes appear, as do those of argument and TOML parsing. Log output
  and the wake-up of waiting tasks have no effect on the modelled state. Locks are taken to be free of
  poisoning. Test code and build files are not modelled.
\<close>

end
